(* ===== verification/Prelude.thy ===== *)
theory Prelude
  imports Main "HOL-Library.Word" "HOL-Library.Sublist"
begin

text \<open>
  Shared vocabulary of the development: Go's 64-bit integers, the effect type in which every
  database-touching function of the service is written, \<open>strings.TrimSpace\<close>, and the generic
  list lemmas the component theories use.
\<close>

named_theorems go_simps \<open>unfolding equations of the Go-level plumbing\<close>
named_theorems sql_simps \<open>unfolding equations of the SQL statements\<close>
named_theorems inv_intros \<open>preservation lemmas of the database invariants\<close>

section \<open>Go's int64\<close>

text \<open>
  \<open>+\<close>, \<open>-\<close> and \<open>*\<close> of Go's \<open>int64\<close> wrap around, as those of \<open>64 word\<close> do;
  comparisons are signed and go through \<open>sint\<close>.
\<close>

type_synonym int64 = "64 word"

definition int64_ok :: "int \<Rightarrow> bool" where
  "int64_ok n \<longleftrightarrow> - (2 ^ 63) \<le> n \<and> n < 2 ^ 63"

lemma sint_word_of_int64: "int64_ok n \<Longrightarrow> sint (word_of_int n :: int64) = n"
  by (simp add: int64_ok_def sint_sbintrunc' signed_take_bit_int_eq_self)

lemma int64_ok_sint [simp]: "int64_ok (sint (x :: int64))"
  using sint_ge [of x] sint_lt [of x] by (simp add: int64_ok_def)

lemma int64_eqI: "sint (x :: int64) = sint y \<Longrightarrow> x = y"
  by (rule signed_word_eqI)

lemma sint_add_int64:
  "int64_ok (sint (x :: int64) + sint y) \<Longrightarrow> sint (x + y) = sint x + sint y"
proof -
  assume "int64_ok (sint x + sint y)"
  moreover have "x + y = word_of_int (sint x + sint y)" by simp
  ultimately show ?thesis by (simp only: sint_word_of_int64)
qed

lemma sint_mult_int64:
  "int64_ok (sint (x :: int64) * sint y) \<Longrightarrow> sint (x * y) = sint x * sint y"
proof -
  assume "int64_ok (sint x * sint y)"
  moreover have "x * y = word_of_int (sint x * sint y)" by simp
  ultimately show ?thesis by (simp only: sint_word_of_int64)
qed

lemma int64_okI: "- 9223372036854775808 \<le> n \<Longrightarrow> n \<le> 9223372036854775807 \<Longrightarrow> int64_ok n"
  by (simp add: int64_ok_def)

section \<open>Effects: a state, and a value or an error\<close>

text \<open>
  A Go function \<open>func f(ctx, ...) (T, error)\<close> that reads or writes the world is a function
  from the world to an error or a value, and the next world. \<open>andThen m k\<close> is the idiom
  \<open>x, err := m; if err != nil { return nil, err }; k(x)\<close>; \<open>attempt m k\<close> hands the
  result of \<open>m\<close>, error or value, to \<open>k\<close>, for the places where the code inspects
  \<open>err\<close> instead of returning it.
\<close>

type_synonym ('w, 'e, 'a) io = "'w \<Rightarrow> ('e + 'a) \<times> 'w"

definition ret :: "'a \<Rightarrow> ('w, 'e, 'a) io" where
  "ret x w = (Inr x, w)"

definition throw :: "'e \<Rightarrow> ('w, 'e, 'a) io" where
  "throw e w = (Inl e, w)"

definition lift_res :: "'e + 'a \<Rightarrow> ('w, 'e, 'a) io" where
  "lift_res r w = (r, w)"

definition andThen :: "('w, 'e, 'a) io \<Rightarrow> ('a \<Rightarrow> ('w, 'e, 'b) io) \<Rightarrow> ('w, 'e, 'b) io" where
  "andThen m k w = (case m w of (Inl e, w') \<Rightarrow> (Inl e, w') | (Inr x, w') \<Rightarrow> k x w')"

definition attempt :: "('w, 'e, 'a) io \<Rightarrow> ('e + 'a \<Rightarrow> ('w, 'f, 'b) io) \<Rightarrow> ('w, 'f, 'b) io" where
  "attempt m k w = (case m w of (r, w') \<Rightarrow> k r w')"

lemma ret_simp [simp, go_simps]: "ret x w = (Inr x, w)"
  by (simp add: ret_def)

lemma throw_simp [simp, go_simps]: "throw e w = (Inl e, w)"
  by (simp add: throw_def)

lemma lift_res_simp [simp, go_simps]: "lift_res r w = (r, w)"
  by (simp add: lift_res_def)

lemma andThen_Inl [simp]: "m w = (Inl e, w') \<Longrightarrow> andThen m k w = (Inl e, w')"
  by (simp add: andThen_def)

lemma andThen_Inr [simp]: "m w = (Inr x, w') \<Longrightarrow> andThen m k w = k x w'"
  by (simp add: andThen_def)

lemma attempt_simp [simp]: "m w = (r, w') \<Longrightarrow> attempt m k w = k r w'"
  by (simp add: attempt_def)

lemma andThen_E:
  assumes "andThen m k w = (r, w')"
  obtains (failed) e where "m w = (Inl e, w')" and "r = Inl e"
  | (went_on) x w1 where "m w = (Inr x, w1)" and "k x w1 = (r, w')"
  using assms by (auto simp: andThen_def split: prod.splits sum.splits)

lemma andThen_InrE:
  assumes "andThen m k w = (Inr y, w')"
  obtains x w1 where "m w = (Inr x, w1)" and "k x w1 = (Inr y, w')"
  using assms by (auto elim: andThen_E)

lemma attempt_E:
  assumes "attempt m k w = (r, w')"
  obtains s w1 where "m w = (s, w1)" and "k s w1 = (r, w')"
  using assms by (auto simp: attempt_def split: prod.splits)

text \<open>
  \<open>keeps I m\<close>: whatever \<open>m\<close> returns, the property \<open>I\<close> of the world still holds after
  it. The composition rules make an invariant proof of a handler a walk over its calls.
\<close>

definition keeps :: "('w \<Rightarrow> bool) \<Rightarrow> ('w, 'e, 'a) io \<Rightarrow> bool" where
  "keeps I m \<longleftrightarrow> (\<forall>w. I w \<longrightarrow> I (snd (m w)))"

lemma keepsI: "(\<And>w r w'. I w \<Longrightarrow> m w = (r, w') \<Longrightarrow> I w') \<Longrightarrow> keeps I m"
  unfolding keeps_def by (metis prod.exhaust_sel)

lemma keepsD: "keeps I m \<Longrightarrow> I w \<Longrightarrow> m w = (r, w') \<Longrightarrow> I w'"
  unfolding keeps_def by (metis snd_conv)

lemma keeps_snd: "keeps I m \<Longrightarrow> I w \<Longrightarrow> I (snd (m w))"
  by (simp add: keeps_def)

lemma keeps_ret [simp, intro, inv_intros]: "keeps I (ret x)"
  by (simp add: keeps_def)

lemma keeps_throw [simp, intro, inv_intros]: "keeps I (throw e)"
  by (simp add: keeps_def)

lemma keeps_lift_res [simp, intro, inv_intros]: "keeps I (lift_res r)"
  by (simp add: keeps_def)

lemma keeps_andThen [intro, inv_intros]:
  "keeps I m \<Longrightarrow> (\<And>x. keeps I (k x)) \<Longrightarrow> keeps I (andThen m k)"
  by (rule keepsI) (auto elim!: andThen_E dest: keepsD)

lemma keeps_attempt [intro, inv_intros]:
  "keeps I m \<Longrightarrow> (\<And>r. keeps I (k r)) \<Longrightarrow> keeps I (attempt m k)"
  by (rule keepsI) (auto elim!: attempt_E dest: keepsD)

section \<open>Strings\<close>

text \<open>
  A Go string is a byte sequence; \<open>strings.TrimSpace\<close> drops leading and trailing runes of
  \<open>unicode.IsSpace\<close>. The table holds the UTF-8 encodings of those runes.
\<close>

definition bytes :: "nat list \<Rightarrow> string" where
  "bytes ns = map char_of ns"

definition space_encodings :: "string list" where
  "space_encodings =
     [bytes [9], bytes [10], bytes [11], bytes [12], bytes [13], bytes [32],
      bytes [194, 133], bytes [194, 160], bytes [225, 154, 128]] @
     map (\<lambda>b. bytes [226, 128, b]) [128, 129, 130, 131, 132, 133, 134, 135, 136, 137, 138] @
     [bytes [226, 128, 168], bytes [226, 128, 169], bytes [226, 128, 175],
      bytes [226, 129, 159], bytes [227, 128, 128]]"

fun trim_left :: "string list \<Rightarrow> string \<Rightarrow> string" where
  "trim_left ss s =
     (case find (\<lambda>p. p \<noteq> [] \<and> take (length p) s = p) ss of
        None \<Rightarrow> s
      | Some p \<Rightarrow> if length (drop (length p) s) < length s
                  then trim_left ss (drop (length p) s) else s)"

declare trim_left.simps [simp del]

definition TrimSpace :: "string \<Rightarrow> string" where
  "TrimSpace s =
     rev (trim_left (map rev space_encodings) (rev (trim_left space_encodings s)))"

lemma trim_left_Nil [simp]: "trim_left ss [] = []"
  by (subst trim_left.simps) (auto split: option.splits)

lemma TrimSpace_Nil [simp]: "TrimSpace [] = []"
  by (simp add: TrimSpace_def)

text \<open>Text that begins and ends with a printable ASCII character has nothing to trim.\<close>

definition visible :: "char \<Rightarrow> bool" where
  "visible c \<longleftrightarrow> 33 \<le> (of_char c :: nat) \<and> (of_char c :: nat) \<le> 126"

lemma spaces_invisible:
  "p \<in> set space_encodings \<Longrightarrow> \<not> visible (hd p) \<and> \<not> visible (last p) \<and> p \<noteq> []"
  by (auto simp: space_encodings_def bytes_def visible_def)

lemma trim_left_visible:
  assumes "s \<noteq> []" "visible (hd s)" "\<And>p. p \<in> set ss \<Longrightarrow> \<not> visible (hd p)"
  shows "trim_left ss s = s"
proof -
  have "hd p = hd s" if "p \<noteq> []" "take (length p) s = p" for p
    using that assms(1) by (metis hd_take length_greater_0_conv)
  then have "find (\<lambda>p. p \<noteq> [] \<and> take (length p) s = p) ss = None"
    using assms(2,3) by (fastforce simp: find_None_iff)
  then show ?thesis by (subst trim_left.simps) simp
qed

lemma TrimSpace_visible:
  assumes "s \<noteq> []" "visible (hd s)" "visible (last s)"
  shows "TrimSpace s = s"
proof -
  have "trim_left space_encodings s = s" by (rule trim_left_visible [OF assms(1,2)]) (simp add: spaces_invisible)
  moreover have "trim_left (map rev space_encodings) (rev s) = rev s"
    using assms by (intro trim_left_visible) (auto simp: hd_rev spaces_invisible)
  ultimately show ?thesis by (simp add: TrimSpace_def)
qed
section \<open>Lists\<close>

lemma find_Some_mem: "find P xs = Some x \<Longrightarrow> x \<in> set xs \<and> P x"
  by (induction xs) (auto split: if_splits)

lemma find_None_filter: "find P xs = None \<longleftrightarrow> filter P xs = []"
  by (induction xs) auto

lemma find_cong_on: "(\<And>x. x \<in> set xs \<Longrightarrow> P x = Q x) \<Longrightarrow> find P xs = find Q xs"
  by (induction xs) auto

lemma find_map_eq: "find P (map f xs) = map_option f (find (P \<circ> f) xs)"
  by (induction xs) auto

lemma find_append: "find P (xs @ ys) = (case find P xs of None \<Rightarrow> find P ys | Some x \<Rightarrow> Some x)"
  by (induction xs) auto

lemma find_distinct_map:
  "distinct (map f xs) \<Longrightarrow> x \<in> set xs \<Longrightarrow> find (\<lambda>y. f y = f x) xs = Some x"
  by (induction xs) (auto simp: rev_image_eqI)

lemma map_id_on: "(\<And>x. x \<in> set xs \<Longrightarrow> f x = x) \<Longrightarrow> map f xs = xs"
  by (induction xs) auto

lemma sum_list_append_filter:
  "sum_list (map f (filter P (xs @ ys))) =
     sum_list (map f (filter P xs)) + (sum_list (map f (filter P ys)) :: 'a :: comm_monoid_add)"
  by simp

end
