(* ===== verification/App_Error.thy ===== *)
theory App_Error
  imports Prelude
begin

text \<open>
  \<^verbatim>\<open>pkg/error\<close>: the typed business errors, and the Go error values they travel among.
  \<open>AppError\<close> is the struct of \<^verbatim>\<open>pkg/error/init.go\<close>; \<open>PqError\<close> is \<open>*pq.Error\<close> with its
  SQLSTATE; \<open>ErrNoRows\<close> is \<open>sql.ErrNoRows\<close>; \<open>DriverError\<close> is any other error of the
  driver or of a peer (network, deadline); \<open>FmtWrap\<close> is \<open>fmt.Errorf("...: %w", err)\<close>;
  \<open>StatusError\<close> is a gRPC status; \<open>GoPanic\<close> marks a Go panic, which unwinds like an error
  that no caller inspects. The sentinels are package variables and the code compares them by
  pointer; no other code builds an \<open>AppError\<close> with the fields of \<open>ErrNotFound\<close>, so equality of
  the values below is equality of those pointers.
\<close>

datatype Code =
    OK | Canceled | Unknown | InvalidArgument | DeadlineExceeded | NotFound | AlreadyExists
  | PermissionDenied | ResourceExhausted | FailedPrecondition | Aborted | OutOfRange
  | Unimplemented | Internal | Unavailable | DataLoss | Unauthenticated

datatype goerror =
    AppError string string "goerror option"
  | PqError string
  | ErrNoRows
  | DriverError string
  | FmtWrap string goerror
  | StatusError Code string
  | GoPanic string

section \<open>The sentinel errors\<close>

definition ErrNotFound :: goerror where
  "ErrNotFound = AppError ''NOT_FOUND'' ''resource not found'' None"

definition ErrConflict :: goerror where
  "ErrConflict = AppError ''CONFLICT'' ''concurrent modification'' None"

definition ErrDoubleBook :: goerror where
  "ErrDoubleBook = AppError ''DOUBLE_BOOK'' ''spot already reserved for overlapping window'' None"

definition ErrInvalidState :: goerror where
  "ErrInvalidState = AppError ''INVALID_STATE'' ''invalid state transition'' None"

definition ErrLockUnavailable :: goerror where
  "ErrLockUnavailable = AppError ''LOCK_UNAVAILABLE'' ''spot temporarily locked'' None"

definition ErrIdempotencyReplay :: goerror where
  "ErrIdempotencyReplay = AppError ''IDEMPOTENCY_REPLAY'' ''request replayed'' None"

definition ErrUnauthenticated :: goerror where
  "ErrUnauthenticated = AppError ''UNAUTHENTICATED'' ''missing or invalid credentials'' None"

definition ErrUpstreamDown :: goerror where
  "ErrUpstreamDown = AppError ''UPSTREAM_DOWN'' ''dependent service unavailable'' None"

lemmas sentinel_defs =
  ErrNotFound_def ErrConflict_def ErrDoubleBook_def ErrInvalidState_def ErrLockUnavailable_def
  ErrIdempotencyReplay_def ErrUnauthenticated_def ErrUpstreamDown_def

section \<open>Methods and the standard error walk\<close>

text \<open>\<open>(*AppError).Unwrap\<close>, and the unwrapping of \<open>%w\<close>; other errors wrap nothing.\<close>

fun Unwrap :: "goerror \<Rightarrow> goerror option" where
  "Unwrap (AppError c m cause) = cause"
| "Unwrap (FmtWrap p e) = Some e"
| "Unwrap _ = None"

text \<open>\<open>errors.Is\<close> walks the chain and compares; \<open>errors.As\<close> finds the first of a type.\<close>

fun errors_Is :: "goerror \<Rightarrow> goerror \<Rightarrow> bool" where
  "errors_Is (AppError c m cause) t \<longleftrightarrow>
     AppError c m cause = t \<or> (case cause of None \<Rightarrow> False | Some e \<Rightarrow> errors_Is e t)"
| "errors_Is (FmtWrap p e) t \<longleftrightarrow> FmtWrap p e = t \<or> errors_Is e t"
| "errors_Is e t \<longleftrightarrow> e = t"

fun errors_As_AppError :: "goerror \<Rightarrow> (string \<times> string) option" where
  "errors_As_AppError (AppError c m cause) = Some (c, m)"
| "errors_As_AppError (FmtWrap p e) = errors_As_AppError e"
| "errors_As_AppError _ = None"

fun errors_As_PqError :: "goerror \<Rightarrow> string option" where
  "errors_As_PqError (PqError c) = Some c"
| "errors_As_PqError (AppError c m cause) =
     (case cause of None \<Rightarrow> None | Some e \<Rightarrow> errors_As_PqError e)"
| "errors_As_PqError (FmtWrap p e) = errors_As_PqError e"
| "errors_As_PqError _ = None"

text \<open>\<open>(*AppError).Error\<close>; the texts of other packages' errors are those packages' own.\<close>

fun Error :: "(goerror \<Rightarrow> string) \<Rightarrow> goerror \<Rightarrow> string" where
  "Error other (AppError c m cause) =
     (case cause of
        None \<Rightarrow> c @ '': '' @ m
      | Some e \<Rightarrow> c @ '': '' @ m @ '': '' @ Error other e)"
| "Error other (FmtWrap p e) = p @ '': '' @ Error other e"
| "Error other e = other e"

text \<open>\<open>apperror.Is\<close>: by code when both errors carry an \<open>AppError\<close>, else \<open>errors.Is\<close>.\<close>

definition Is :: "goerror \<Rightarrow> goerror \<Rightarrow> bool" where
  "Is err target =
     (case (errors_As_AppError err, errors_As_AppError target) of
        (Some a, Some b) \<Rightarrow> fst a = fst b
      | _ \<Rightarrow> errors_Is err target)"

section \<open>Properties\<close>

lemma errors_Is_refl [simp]: "errors_Is e e"
  by (cases e) auto

lemma errors_Is_wrap: "errors_Is e t \<Longrightarrow> errors_Is (FmtWrap p e) t"
  by simp

lemma errors_Is_trans: "errors_Is a b \<Longrightarrow> errors_Is b c \<Longrightarrow> errors_Is a c"
proof (induction a)
  case (AppError cd m cause)
  then show ?case by (cases cause) auto
qed auto

lemma errors_Is_NotFound_simps [simp]:
  "\<not> errors_Is (PqError c) ErrNotFound"
  "\<not> errors_Is ErrNoRows ErrNotFound"
  "\<not> errors_Is (DriverError s) ErrNotFound"
  "\<not> errors_Is (StatusError k s) ErrNotFound"
  "\<not> errors_Is (GoPanic s) ErrNotFound"
  by (auto simp: ErrNotFound_def)

lemma As_AppError_wrap [simp]: "errors_As_AppError ErrNotFound = Some (''NOT_FOUND'', ''resource not found'')"
  by (simp add: ErrNotFound_def)

text \<open>\<open>Is\<close> is reflexive, and on errors that carry an \<open>AppError\<close> it is an equivalence by code.\<close>

lemma Is_refl: "Is e e"
  by (simp add: Is_def split: option.splits)

lemma Is_sym_on_AppErrors:
  "errors_As_AppError a \<noteq> None \<Longrightarrow> errors_As_AppError b \<noteq> None \<Longrightarrow> Is a b = Is b a"
  by (auto simp: Is_def)

end
