(* ===== verification/Go_Time.thy ===== *)
theory Go_Time
  imports App_Error
begin

text \<open>
  What the service uses of Go's \<^verbatim>\<open>time\<close> package. A \<open>Time\<close> is an instant, in nanoseconds since
  January 1, year 1, 00:00 UTC (Go's zero time); a \<open>Duration\<close> is an \<open>int64\<close> of nanoseconds; a
  \<open>Location\<close> is a table of zone transitions. The calendar is the proleptic Gregorian one.
  \<open>Hours\<close> computes in IEEE binary64, and its rounding is modelled on integers.
\<close>

section \<open>Instants and durations\<close>

type_synonym Time = int
type_synonym Duration = int64

abbreviation (input) second_ns :: int where "second_ns \<equiv> 1000000000"
abbreviation (input) hour_ns :: int where "hour_ns \<equiv> 3600000000000"
abbreviation (input) day_ns :: int where "day_ns \<equiv> 86400000000000"
abbreviation (input) day_s :: int where "day_s \<equiv> 86400"

definition Minute :: Duration where "Minute = 60000000000"
definition Hour :: Duration where "Hour = 3600000000000"

definition IsZero :: "Time \<Rightarrow> bool" where
  "IsZero t \<longleftrightarrow> t = 0"

text \<open>\<open>t.Sub(u)\<close> saturates at the ends of the \<open>int64\<close> range.\<close>

definition Sub :: "Time \<Rightarrow> Time \<Rightarrow> Duration" where
  "Sub t u = word_of_int (max (- (2 ^ 63)) (min (2 ^ 63 - 1) (t - u)))"

text \<open>\<open>t.Add(d)\<close>.\<close>

definition Add :: "Time \<Rightarrow> Duration \<Rightarrow> Time" where
  "Add t d = t + sint d"

definition After :: "Time \<Rightarrow> Time \<Rightarrow> bool" where
  "After t u \<longleftrightarrow> u < t"

definition Equal :: "Time \<Rightarrow> Time \<Rightarrow> bool" where
  "Equal t u \<longleftrightarrow> t = u"

text \<open>Seconds since 1970-01-01; January 1, 1970 is day 719162 after January 1, year 1.\<close>

abbreviation (input) unixToInternal :: int where "unixToInternal \<equiv> 62135596800"

definition Unix :: "Time \<Rightarrow> int" where
  "Unix t = t div second_ns - unixToInternal"

lemma sint_Sub: "sint (Sub t u) = max (- (2 ^ 63)) (min (2 ^ 63 - 1) (t - u))"
  unfolding Sub_def by (rule sint_word_of_int64) (auto simp: int64_ok_def)

lemma sint_Sub_in_range: "int64_ok (t - u) \<Longrightarrow> sint (Sub t u) = t - u"
  by (auto simp: sint_Sub int64_ok_def)

section \<open>The calendar\<close>

definition isLeap :: "int \<Rightarrow> bool" where
  "isLeap y \<longleftrightarrow> y mod 4 = 0 \<and> (y mod 100 \<noteq> 0 \<or> y mod 400 = 0)"

text \<open>Days from January 1, year 1 to January 1 of the year \<open>y\<close>.\<close>

definition year_start :: "int \<Rightarrow> int" where
  "year_start y = (let p = y - 1 in 365 * p + p div 4 - p div 100 + p div 400)"

text \<open>The year and the day of the year of a day number, by 400-, 100-, 4- and 1-year cycles.\<close>

definition year_yday :: "int \<Rightarrow> int \<times> int" where
  "year_yday n =
     (let n400 = n div 146097; r = n mod 146097;
          n100 = min 3 (r div 36524); r2 = r - 36524 * n100;
          n4 = r2 div 1461; r3 = r2 - 1461 * n4;
          n1 = min 3 (r3 div 365)
      in (400 * n400 + 100 * n100 + 4 * n4 + n1 + 1, r3 - 365 * n1))"

definition days_before :: "bool \<Rightarrow> int \<Rightarrow> int" where
  "days_before leap m =
     (if m \<le> 1 then 0 else if m = 2 then 31 else
      (if m = 3 then 59 else if m = 4 then 90 else if m = 5 then 120 else if m = 6 then 151
       else if m = 7 then 181 else if m = 8 then 212 else if m = 9 then 243 else if m = 10 then 273
       else if m = 11 then 304 else 334) + (if leap then 1 else 0))"

text \<open>Month (1 to 12) and day of the month (from 1) of a day of the year (from 0).\<close>

definition month_day :: "bool \<Rightarrow> int \<Rightarrow> int \<times> int" where
  "month_day leap yd =
     (let m = (if yd < days_before leap 2 then 1 else if yd < days_before leap 3 then 2
               else if yd < days_before leap 4 then 3 else if yd < days_before leap 5 then 4
               else if yd < days_before leap 6 then 5 else if yd < days_before leap 7 then 6
               else if yd < days_before leap 8 then 7 else if yd < days_before leap 9 then 8
               else if yd < days_before leap 10 then 9 else if yd < days_before leap 11 then 10
               else if yd < days_before leap 12 then 11 else 12)
      in (m, yd - days_before leap m + 1))"

definition civil :: "int \<Rightarrow> int \<times> int \<times> int" where
  "civil n =
     (let (y, yd) = year_yday n; (m, d) = month_day (isLeap y) yd in (y, m, d))"

text \<open>The day number \<open>time.Date\<close> computes; a day past the end of the month runs into the next.\<close>

definition days_of_date :: "int \<Rightarrow> int \<Rightarrow> int \<Rightarrow> int" where
  "days_of_date y m d = year_start y + days_before (isLeap y) m + (d - 1)"

section \<open>Locations\<close>

text \<open>
  \<open>zone0\<close> is the offset (seconds east of UTC) before the first transition; \<open>trans\<close> lists the
  transitions in time order as (Unix second, new offset). \<open>lookup\<close> returns the offset in force and
  the span \<open>[start, end)\<close> of Unix seconds in which it is, as \<open>Location.lookup\<close> does.
\<close>

record Location =
  zone0 :: int
  trans :: "(int \<times> int) list"

definition FixedZone :: "int \<Rightarrow> Location" where
  "FixedZone off = \<lparr>zone0 = off, trans = []\<rparr>"

fun lookup_from :: "int \<Rightarrow> int \<Rightarrow> (int \<times> int) list \<Rightarrow> int \<Rightarrow> int \<times> int \<times> int" where
  "lookup_from off start [] sec = (off, start, 2 ^ 63 - 1)"
| "lookup_from off start ((w, off') # ts) sec =
     (if sec < w then (off, start, w) else lookup_from off' w ts sec)"

definition zone_lookup :: "Location \<Rightarrow> int \<Rightarrow> int \<times> int \<times> int" where
  "zone_lookup l sec = lookup_from (zone0 l) (- (2 ^ 63)) (trans l) sec"

definition zone_offset :: "Location \<Rightarrow> Time \<Rightarrow> int" where
  "zone_offset l t = fst (zone_lookup l (Unix t))"

text \<open>The local day number of an instant, and with it \<open>Year()\<close>, \<open>Month()\<close>, \<open>Day()\<close>.\<close>

definition local_day :: "Location \<Rightarrow> Time \<Rightarrow> int" where
  "local_day l t = (t div second_ns + zone_offset l t) div day_s"

definition Year :: "Location \<Rightarrow> Time \<Rightarrow> int" where
  "Year l t = fst (civil (local_day l t))"

definition Month :: "Location \<Rightarrow> Time \<Rightarrow> int" where
  "Month l t = fst (snd (civil (local_day l t)))"

definition Day :: "Location \<Rightarrow> Time \<Rightarrow> int" where
  "Day l t = snd (snd (civil (local_day l t)))"

text \<open>
  \<open>time.Date(y, m, d, hh, mm, ss, ns, loc)\<close>: the wall time read as UTC first, then moved by the
  offset in force, which is looked up a second time when the first guess lies outside its span.
\<close>

definition Date :: "int \<Rightarrow> int \<Rightarrow> int \<Rightarrow> int \<Rightarrow> int \<Rightarrow> int \<Rightarrow> int \<Rightarrow> Location \<Rightarrow> Time" where
  "Date y m d hh mm ss ns l =
     (let unix = days_of_date y m d * day_s + hh * 3600 + mm * 60 + ss - unixToInternal;
          (off, start, end1) = zone_lookup l unix;
          utc = unix - off;
          off' = (if off \<noteq> 0 \<and> (utc < start \<or> utc \<ge> end1) then fst (zone_lookup l utc) else off)
      in (unix - off' + unixToInternal) * second_ns + ns)"

text \<open>Midnight of the day after the local day of \<open>t\<close>.\<close>

definition next_midnight :: "Location \<Rightarrow> Time \<Rightarrow> Time" where
  "next_midnight l t = Date (Year l t) (Month l t) (Day l t + 1) 0 0 0 0 l"

section \<open>Hours, in binary64\<close>

text \<open>
  A non-negative binary64 value below \<open>2 ^ 53\<close> is \<open>m / 2 ^ k\<close>, written \<open>(m, k)\<close>. The rounding is to
  nearest, ties to even: \<open>n / d\<close> is scaled by the least \<open>2 ^ k\<close> that brings it to \<open>2 ^ 52\<close> or more,
  and the quotient is rounded to an integer. No value here is subnormal or infinite.
\<close>

definition round_half_even :: "nat \<Rightarrow> nat \<Rightarrow> nat" where
  "round_half_even n d =
     (let q = n div d; r = n mod d
      in if 2 * r < d then q else if d < 2 * r then q + 1 else if even q then q else q + 1)"

function f64_scale :: "nat \<Rightarrow> nat \<Rightarrow> nat" where
  "f64_scale n d = (if n = 0 \<or> 2 ^ 52 * d \<le> n then 0 else Suc (f64_scale (2 * n) d))"
  by pat_completeness auto
termination
  by (relation "measure (\<lambda>(n, d). 2 ^ 52 * d - n)") auto

declare f64_scale.simps [simp del]

definition f64_of_frac :: "nat \<Rightarrow> nat \<Rightarrow> nat \<times> nat" where
  "f64_of_frac n d = (let k = f64_scale n d in (round_half_even (n * 2 ^ k) d, k))"

definition f64_add_nat :: "nat \<Rightarrow> nat \<times> nat \<Rightarrow> nat \<times> nat" where
  "f64_add_nat h x = f64_of_frac (h * 2 ^ snd x + fst x) (2 ^ snd x)"

definition f64_ceil :: "nat \<times> nat \<Rightarrow> nat" where
  "f64_ceil x = (fst x + 2 ^ snd x - 1) div 2 ^ snd x"

text \<open>\<open>Duration.Hours\<close> of a non-negative duration: \<open>float64(d / Hour) + float64(d % Hour) / 3.6e12\<close>.\<close>

definition Hours :: "nat \<Rightarrow> nat \<times> nat" where
  "Hours d = f64_add_nat (d div 3600000000000) (f64_of_frac (d mod 3600000000000) 3600000000000)"

text \<open>\<open>int64(math.Ceil(dur.Hours()))\<close> for a positive duration.\<close>

definition ceil_hours :: "Duration \<Rightarrow> int64" where
  "ceil_hours d = of_nat (f64_ceil (Hours (nat (sint d))))"

section \<open>Calendar facts\<close>

lemma year_start_cycles:
  assumes "0 \<le> b" "b \<le> 3" "0 \<le> c" "c \<le> 24" "0 \<le> e" "e \<le> 3"
  shows "year_start (400 * a + 100 * b + 4 * c + e + 1) = 146097 * a + 36524 * b + 1461 * c + 365 * e"
proof -
  let ?p = "400 * a + 100 * b + 4 * c + e"
  have "?p div 4 = 100 * a + 25 * b + c" "?p div 100 = 4 * a + b" "?p div 400 = a"
    using assms by linarith+
  then show ?thesis by (simp add: year_start_def)
qed

lemma mod_top_iff: "1 \<le> x \<Longrightarrow> x \<le> N \<Longrightarrow> x mod N = 0 \<longleftrightarrow> x = N" for x N :: int
  by (cases "x = N") simp_all

lemma isLeap_cycles:
  assumes "0 \<le> b" "b \<le> 3" "0 \<le> c" "c \<le> 24" "0 \<le> e" "e \<le> 3"
  shows "isLeap (400 * a + 100 * b + 4 * c + e + 1) \<longleftrightarrow> e = 3 \<and> (c \<noteq> 24 \<or> b = 3)"
proof -
  let ?y = "400 * a + 100 * b + 4 * c + e + 1"
  have m4: "?y mod 4 = 0 \<longleftrightarrow> e = 3"
  proof -
    have "?y = (e + 1) + 4 * (100 * a + 25 * b + c)" by simp
    then have "?y mod 4 = (e + 1) mod 4" by (simp only: mod_mult_self2)
    then show ?thesis using assms(5,6) by presburger
  qed
  have m100: "?y mod 100 = 0 \<longleftrightarrow> 4 * c + e + 1 = 100"
  proof -
    have "?y = (4 * c + e + 1) + 100 * (4 * a + b)" by simp
    then have "?y mod 100 = (4 * c + e + 1) mod 100" by (simp only: mod_mult_self2)
    moreover have "1 \<le> 4 * c + e + 1" "4 * c + e + 1 \<le> 100" using assms by auto
    ultimately show ?thesis by (simp only: mod_top_iff)
  qed
  have m400: "?y mod 400 = 0 \<longleftrightarrow> 100 * b + 4 * c + e + 1 = 400"
  proof -
    have "?y = (100 * b + 4 * c + e + 1) + 400 * a" by simp
    then have "?y mod 400 = (100 * b + 4 * c + e + 1) mod 400" by (simp only: mod_mult_self2)
    moreover have "1 \<le> 100 * b + 4 * c + e + 1" "100 * b + 4 * c + e + 1 \<le> 400" using assms by auto
    ultimately show ?thesis by (simp only: mod_top_iff)
  qed
  show ?thesis unfolding isLeap_def m4 m100 m400 using assms by auto
qed

lemma year_yday_correct:
  assumes "year_yday n = (y, yd)"
  shows "year_start y + yd = n" and "0 \<le> yd" and "yd < (if isLeap y then 366 else 365)"
proof -
  define a where "a = n div 146097"
  define r where "r = n mod 146097"
  define b where "b = min 3 (r div 36524)"
  define r2 where "r2 = r - 36524 * b"
  define c where "c = r2 div 1461"
  define r3 where "r3 = r2 - 1461 * c"
  define e where "e = min 3 (r3 div 365)"
  have "(y, yd) = (400 * a + 100 * b + 4 * c + e + 1, r3 - 365 * e)"
    unfolding assms [symmetric] year_yday_def Let_def a_def r_def b_def r2_def c_def r3_def e_def
    by (rule refl)
  then have y: "y = 400 * a + 100 * b + 4 * c + e + 1" and yd: "yd = r3 - 365 * e" by simp_all
  have r: "0 \<le> r" "r \<le> 146096" by (auto simp: r_def)
  have n: "n = 146097 * a + r" by (simp add: a_def r_def)
  have b: "0 \<le> b" "b \<le> 3" "0 \<le> r2" "b < 3 \<longrightarrow> r2 \<le> 36523" "r2 \<le> 36524"
    using r unfolding b_def r2_def by linarith+
  have q: "1461 * c \<le> r2" "r2 < 1461 * c + 1461" unfolding c_def by linarith+
  have c: "0 \<le> c" "c \<le> 24" "0 \<le> r3" "r3 \<le> 1460" "c = 24 \<longrightarrow> r3 = r2 - 35064"
    using b q unfolding r3_def by linarith+
  have e: "0 \<le> e" "e \<le> 3" "0 \<le> yd" "e < 3 \<longrightarrow> yd \<le> 364" "yd \<le> 365" "e = 3 \<longrightarrow> yd = r3 - 1095"
    using c unfolding e_def yd by linarith+
  show "year_start y + yd = n"
    unfolding y year_start_cycles [OF b(1,2) c(1,2) e(1,2)] using n yd by (simp add: r2_def r3_def)
  show "0 \<le> yd" by (rule e(3))
  show "yd < (if isLeap y then 366 else 365)"
    unfolding y isLeap_cycles [OF b(1,2) c(1,2) e(1,2)] using b c e by auto
qed

lemma days_before_simps [simp]:
  "days_before l 1 = 0" "days_before l 2 = 31"
  "days_before l 3 = (if l then 60 else 59)" "days_before l 4 = (if l then 91 else 90)"
  "days_before l 5 = (if l then 121 else 120)" "days_before l 6 = (if l then 152 else 151)"
  "days_before l 7 = (if l then 182 else 181)" "days_before l 8 = (if l then 213 else 212)"
  "days_before l 9 = (if l then 244 else 243)" "days_before l 10 = (if l then 274 else 273)"
  "days_before l 11 = (if l then 305 else 304)" "days_before l 12 = (if l then 335 else 334)"
  by (simp_all add: days_before_def)

lemma month_day_correct:
  assumes "month_day l yd = (m, d)" and "0 \<le> yd"
  shows "days_before l m + (d - 1) = yd" and "1 \<le> m" and "m \<le> 12" and "1 \<le> d"
  using assms by (cases l; auto simp: month_day_def Let_def split: if_splits)+

lemma days_of_civil:
  assumes "civil n = (y, m, d)"
  shows "days_of_date y m (d + k) = n + k"
proof -
  obtain yd where yy: "year_yday n = (y, yd)" and md: "month_day (isLeap y) yd = (m, d)"
    using assms by (auto simp: civil_def Let_def split: prod.splits)
  note c = year_yday_correct [OF yy]
  from month_day_correct(1) [OF md c(2)] c(1) show ?thesis by (simp add: days_of_date_def)
qed

lemma zone_lookup_FixedZone [simp]: "zone_lookup (FixedZone off) s = (off, - (2 ^ 63), 2 ^ 63 - 1)"
  by (simp add: zone_lookup_def FixedZone_def)

lemma Date_FixedZone:
  "Date y m d 0 0 0 0 (FixedZone off) = (days_of_date y m d * day_s - off) * second_ns"
  by (simp add: Date_def Let_def)

lemma local_day_FixedZone: "local_day (FixedZone off) t = (t div second_ns + off) div day_s"
  by (simp add: local_day_def zone_offset_def)

lemma next_midnight_FixedZone:
  "next_midnight (FixedZone off) t = ((local_day (FixedZone off) t + 1) * day_s - off) * second_ns"
proof -
  obtain y m d where "civil (local_day (FixedZone off) t) = (y, m, d)" by (metis prod.exhaust)
  then show ?thesis
    by (simp add: next_midnight_def Date_FixedZone Year_def Month_def Day_def days_of_civil)
qed

lemma mult_le_iff_le_div: "0 < s \<Longrightarrow> (k * s \<le> u) = (k \<le> u div s)" for k s u :: int
proof
  assume "0 < s" and "k * s \<le> u"
  then show "k \<le> u div s" by (metis zdiv_mono1 nonzero_mult_div_cancel_right less_irrefl)
next
  assume "0 < s" and "k \<le> u div s"
  then have "k * s \<le> u div s * s" by simp
  also have "\<dots> \<le> u" using \<open>0 < s\<close> by (metis div_mult_mod_eq le_add_same_cancel1 pos_mod_sign)
  finally show "k * s \<le> u" .
qed

lemma next_midnight_le_iff:
  "next_midnight (FixedZone off) t \<le> u \<longleftrightarrow>
     local_day (FixedZone off) t < local_day (FixedZone off) u"
proof -
  let ?k = "local_day (FixedZone off) t + 1"
  have "((?k * day_s - off) * second_ns \<le> u) = (?k * day_s - off \<le> u div second_ns)"
    by (rule mult_le_iff_le_div) simp
  also have "\<dots> = (?k * day_s \<le> u div second_ns + off)" by linarith
  also have "\<dots> = (?k \<le> (u div second_ns + off) div day_s)"
    by (rule mult_le_iff_le_div) simp
  finally show ?thesis
    unfolding next_midnight_FixedZone by (simp add: local_day_FixedZone add1_zle_eq)
qed

section \<open>Facts of the binary64 hours\<close>

lemma f64_scale_lower: "0 < n \<Longrightarrow> 2 ^ 52 * d \<le> n * 2 ^ f64_scale n d"
proof (induction n d rule: f64_scale.induct)
  case (1 n d)
  show ?case
  proof (cases "2 ^ 52 * d \<le> n")
    case True
    then show ?thesis by (simp add: f64_scale.simps [of n d])
  next
    case False
    with 1 have "2 ^ 52 * d \<le> 2 * n * 2 ^ f64_scale (2 * n) d" by simp
    with False 1(2) show ?thesis by (simp add: f64_scale.simps [of n d] mult.assoc mult.left_commute)
  qed
qed

lemma f64_scale_upper: "0 < n \<Longrightarrow> n < 2 ^ 53 * d \<Longrightarrow> n * 2 ^ f64_scale n d < 2 ^ 53 * d"
proof (induction n d rule: f64_scale.induct)
  case (1 n d)
  show ?case
  proof (cases "2 ^ 52 * d \<le> n")
    case True
    with 1 show ?thesis by (simp add: f64_scale.simps [of n d])
  next
    case False
    then have "2 * n < 2 ^ 53 * d" by simp
    with False 1 have "2 * n * 2 ^ f64_scale (2 * n) d < 2 ^ 53 * d" by simp
    with False 1(2) show ?thesis by (simp add: f64_scale.simps [of n d] mult.assoc mult.left_commute)
  qed
qed

lemma round_half_even_bounds:
  "n div d \<le> round_half_even n d \<and> round_half_even n d \<le> n div d + 1"
  by (simp add: round_half_even_def Let_def)

lemma round_half_even_exact: "0 < d \<Longrightarrow> round_half_even (q * d) d = q"
  by (simp add: round_half_even_def Let_def)

lemma round_half_even_up: "0 < d \<Longrightarrow> d < 2 * (n mod d) \<Longrightarrow> round_half_even n d = n div d + 1"
  by (simp add: round_half_even_def Let_def)

text \<open>Rounding the sum of an integer and a fraction, then the ceiling.\<close>

lemma f64_ceil_whole: "f64_ceil (h * 2 ^ k, k) = h"
proof -
  obtain p where "2 ^ k = Suc p" using not0_implies_Suc [of "2 ^ k"] by auto
  then have "(h * 2 ^ k + 2 ^ k - 1) div 2 ^ k = h"
    by (intro div_nat_eqI) (auto simp: algebra_simps)
  then show ?thesis by (simp add: f64_ceil_def)
qed

lemma f64_ceil_between:
  assumes "h * 2 ^ k < m" and "m \<le> (h + 1) * 2 ^ k"
  shows "f64_ceil (m, k) = h + 1"
proof -
  have "(h + 1) * 2 ^ k \<le> m + 2 ^ k - 1" and "m + 2 ^ k - 1 < (h + 1 + 1) * 2 ^ k"
    using assms by (auto simp: algebra_simps)
  then have "(m + 2 ^ k - 1) div 2 ^ k = h + 1"
    by (intro div_nat_eqI) (auto simp: algebra_simps)
  then show ?thesis by (simp add: f64_ceil_def)
qed

lemma round_half_even_le: "0 < d \<Longrightarrow> n \<le> q * d \<Longrightarrow> round_half_even n d \<le> q"
proof (cases "n = q * d")
  case False
  assume "0 < d" "n \<le> q * d"
  with False have "n div d < q" by (simp add: div_less_iff_less_mult)
  then show ?thesis using round_half_even_bounds [of n d] by linarith
qed (simp add: round_half_even_exact)

lemma round_half_even_gt:
  assumes "0 < d" and "d < 2 * m"
  shows "q < round_half_even (q * d + m) d"
proof (cases "m < d")
  case True
  then have "(q * d + m) mod d = m" and "(q * d + m) div d = q" using assms(1) by simp_all
  with assms show ?thesis by (simp add: round_half_even_up)
next
  case False
  then have "q + 1 \<le> (q * d + m) div d"
    using assms(1) by (simp add: less_eq_div_iff_mult_less_eq algebra_simps)
  then show ?thesis using round_half_even_bounds [of "q * d + m" d] by linarith
qed

lemma f64_frac_of_hour:
  assumes "0 < n" and "n < 3600000000000" and "f64_of_frac n 3600000000000 = (m, j)"
  shows "2 ^ 52 \<le> m" and "m \<le> 2 ^ j" and "2 ^ j < m * 2 ^ 42"
proof -
  let ?D = "3600000000000 :: nat" and ?N = "n * 2 ^ f64_scale n 3600000000000"
  have j: "j = f64_scale n ?D" and m: "m = round_half_even ?N ?D"
    using assms(3) by (auto simp: f64_of_frac_def Let_def)
  have "2 ^ 52 \<le> ?N div ?D"
    using f64_scale_lower [OF assms(1), of ?D] by (subst less_eq_div_iff_mult_less_eq) auto
  also have nm: "?N div ?D \<le> m" using round_half_even_bounds m by blast
  finally show big: "2 ^ 52 \<le> m" .
  show "m \<le> 2 ^ j" unfolding m j by (rule round_half_even_le) (use assms(2) in auto)
  have "2 ^ j \<le> ?N" using assms(1) by (simp add: j)
  also have "?N < ?D * (?N div ?D + 1)"
    using dividend_less_times_div [of ?D ?N] by (simp add: algebra_simps)
  also have "\<dots> \<le> ?D * (m + 1)" using nm by (intro mult_le_mono2) simp
  also have "\<dots> \<le> m * 2 ^ 42" using big by simp
  finally show "2 ^ j < m * 2 ^ 42" .
qed

lemma f64_sum_strict:
  assumes h: "h < 4096" and big: "2 ^ 52 \<le> m" and le1: "m \<le> 2 ^ j" and fine: "2 ^ j < m * 2 ^ 42"
    and k: "k = f64_scale (h * 2 ^ j + m) (2 ^ j)"
  shows "2 ^ j < 2 * (m * 2 ^ k)"
proof (cases "m = 2 ^ j")
  case True
  have "1 \<le> (2 :: nat) ^ k" by simp
  with True show ?thesis by (simp add: le_imp_less_Suc less_le_trans [of _ 2])
next
  case False
  with le1 have "h * 2 ^ j + m < (h + 1) * 2 ^ j" by simp
  also have "\<dots> \<le> 4096 * 2 ^ j" using h by (intro mult_le_mono1) simp
  finally have "h * 2 ^ j + m < 4096 * 2 ^ j" .
  moreover have "2 ^ 52 * 2 ^ j \<le> (h * 2 ^ j + m) * 2 ^ k"
    unfolding k by (rule f64_scale_lower) (use big in simp)
  ultimately have "2 ^ 52 * 2 ^ j < (4096 * 2 ^ j) * (2 ^ k :: nat)"
    by (metis le_less_trans mult_less_cancel2 zero_less_numeral zero_less_power)
  then have "(2 :: nat) ^ 52 < 2 ^ (12 + k)" by (simp add: power_add mult.commute mult.left_commute)
  then have "52 < 12 + k" by (rule power_less_imp_less_exp [rotated]) simp
  then have "41 \<le> k" by simp
  then have "m * 2 ^ 42 \<le> m * 2 ^ (k + 1)" by (intro mult_le_mono2 power_increasing) auto
  with fine have "2 ^ j < m * 2 ^ (k + 1)" by (rule less_le_trans)
  then show ?thesis by (simp add: algebra_simps)
qed

lemma Hours_parts:
  assumes "f64_of_frac (d mod 3600000000000) 3600000000000 = (m, j)"
    and "k = f64_scale (d div 3600000000000 * 2 ^ j + m) (2 ^ j)"
  shows "Hours d =
    (round_half_even (d div 3600000000000 * 2 ^ k * 2 ^ j + m * 2 ^ k) (2 ^ j), k)"
  unfolding Hours_def f64_add_nat_def assms
  by (simp add: f64_of_frac_def Let_def algebra_simps)

lemma Hours_whole:
  assumes "d mod 3600000000000 = 0"
  shows "f64_ceil (Hours d) = d div 3600000000000"
proof -
  have "f64_of_frac (d mod 3600000000000) 3600000000000 = (0, 0)"
    using assms by (simp add: f64_of_frac_def f64_scale.simps [of 0] round_half_even_def)
  from Hours_parts [OF this refl] show ?thesis
    using round_half_even_exact [of 1] by (simp add: f64_ceil_whole)
qed

lemma ceil_div_whole: "d mod D = 0 \<Longrightarrow> 0 < D \<Longrightarrow> (d + (D - 1)) div D = d div D" for d D :: nat
  by (intro div_nat_eqI) (auto simp: algebra_simps)

lemma ceil_div_part:
  fixes d D :: nat
  assumes "d mod D \<noteq> 0" and "0 < D"
  shows "(d + (D - 1)) div D = d div D + 1"
proof (rule div_nat_eqI)
  have "d = D * (d div D) + d mod D" by simp
  moreover have "D * (d div D + 1) = D * (d div D) + D" by simp
  ultimately show "D * (d div D + 1) \<le> d + (D - 1)" using assms by linarith
  show "d + (D - 1) < D * Suc (d div D + 1)"
    using dividend_less_times_div [of D d] assms by (auto simp: algebra_simps)
qed

lemma f64_ceil_Hours:
  assumes "d < 4096 * 3600000000000"
  shows "f64_ceil (Hours d) = (d + (3600000000000 - 1)) div 3600000000000"
proof (cases "d mod 3600000000000 = 0")
  case True
  then show ?thesis using ceil_div_whole [of d 3600000000000] by (simp only: Hours_whole)
next
  case False
  let ?h = "d div 3600000000000"
  obtain m j where mj: "f64_of_frac (d mod 3600000000000) 3600000000000 = (m, j)" by fastforce
  define k where "k = f64_scale (?h * 2 ^ j + m) (2 ^ j)"
  have h: "?h < 4096" using assms by (simp add: div_less_iff_less_mult)
  note f = f64_frac_of_hour [OF _ _ mj]
  have "2 ^ j < 2 * (m * 2 ^ k)"
    using f64_sum_strict [OF h f k_def] False by simp
  then have "?h * 2 ^ k < round_half_even (?h * 2 ^ k * 2 ^ j + m * 2 ^ k) (2 ^ j)"
    by (intro round_half_even_gt) auto
  moreover have "round_half_even (?h * 2 ^ k * 2 ^ j + m * 2 ^ k) (2 ^ j) \<le> (?h + 1) * 2 ^ k"
    using f(2) False by (intro round_half_even_le) (auto simp: algebra_simps)
  ultimately have "f64_ceil (Hours d) = ?h + 1"
    unfolding Hours_parts [OF mj k_def] by (rule f64_ceil_between)
  then show ?thesis using ceil_div_part [OF False] by simp
qed

lemma f64_ceil_Hours_bounds:
  "d div 3600000000000 \<le> f64_ceil (Hours d)" "f64_ceil (Hours d) \<le> d div 3600000000000 + 1"
proof -
  let ?h = "d div 3600000000000"
  have "?h \<le> f64_ceil (Hours d) \<and> f64_ceil (Hours d) \<le> ?h + 1"
  proof (cases "d mod 3600000000000 = 0")
    case True
    then show ?thesis by (simp add: Hours_whole)
  next
    case False
    obtain m j where mj: "f64_of_frac (d mod 3600000000000) 3600000000000 = (m, j)" by fastforce
    define k where "k = f64_scale (?h * 2 ^ j + m) (2 ^ j)"
    define M where "M = round_half_even (?h * 2 ^ k * 2 ^ j + m * 2 ^ k) (2 ^ j)"
    have H: "Hours d = (M, k)" unfolding M_def by (rule Hours_parts [OF mj k_def])
    have up: "M \<le> (?h + 1) * 2 ^ k"
      unfolding M_def using f64_frac_of_hour(2) [OF _ _ mj] False
      by (intro round_half_even_le) (auto simp: algebra_simps)
    have "?h * 2 ^ k \<le> (?h * 2 ^ k * 2 ^ j + m * 2 ^ k) div 2 ^ j"
      by (simp add: less_eq_div_iff_mult_less_eq)
    then have "?h * 2 ^ k \<le> M"
      using round_half_even_bounds unfolding M_def by (meson le_trans)
    then consider "M = ?h * 2 ^ k" | "?h * 2 ^ k < M" by linarith
    then show ?thesis
      by cases (simp_all add: H f64_ceil_whole f64_ceil_between [OF _ up])
  qed
  then show "?h \<le> f64_ceil (Hours d)" "f64_ceil (Hours d) \<le> ?h + 1" by blast+
qed

lemma sint_ceil_hours:
  assumes "0 \<le> sint d"
  shows "sint (ceil_hours d) = int (f64_ceil (Hours (nat (sint d))))"
proof -
  let ?n = "nat (sint d)"
  have "?n < 9223372036854775808" using assms int64_ok_sint [of d] by (simp add: int64_ok_def)
  then have "?n < 2562049 * 3600000000000" by simp
  then have "?n div 3600000000000 < 2562049" by (rule less_mult_imp_div_less)
  then have "f64_ceil (Hours ?n) \<le> 2562049" using f64_ceil_Hours_bounds(2) [of ?n] by linarith
  then have "int64_ok (int (f64_ceil (Hours ?n)))" by (simp add: int64_ok_def)
  from sint_word_of_int64 [OF this] show ?thesis by (simp add: ceil_hours_def)
qed

text \<open>Below 4096 hours the binary64 computation is the exact ceiling of the hours.\<close>

lemma ceil_hours_exact:
  assumes "0 \<le> sint d" and "sint d < 4096 * hour_ns"
  shows "sint (ceil_hours d) = (sint d + (hour_ns - 1)) div hour_ns"
proof -
  have "nat (sint d) < 4096 * 3600000000000" using assms by simp
  from f64_ceil_Hours [OF this] show ?thesis
    unfolding sint_ceil_hours [OF assms(1)] using assms(1) by (simp add: zdiv_int nat_add_distrib)
qed

lemma Hours_loses_a_nanosecond: "f64_ceil (Hours (4096 * 3600000000000 + 1)) = 4096"
  by (simp add: Hours_def f64_add_nat_def f64_of_frac_def f64_ceil_def round_half_even_def Let_def f64_scale.simps)

end
