(* ===== verification/Pricing.thy ===== *)
theory Pricing
  imports Go_Time
begin

text \<open>
  \<^verbatim>\<open>pkg/pricing\<close>: the session, the five rules, and the engine that runs them in order
  (\<^verbatim>\<open>types.go\<close>, \<^verbatim>\<open>rules.go\<close>, \<^verbatim>\<open>engine.go\<close>). A rule reads the session and the lines earlier rules
  emitted. A rule's result is a sum because \<open>In(nil)\<close> panics when no time zone could be loaded.
\<close>

section \<open>Types\<close>

text \<open>Go's string types with constants: a constructor per constant, and one for any other string.\<close>

datatype LineKind =
    LineBooking | LineHourly | LineOvernight | LineCancellation | LineNoShow | LineKindOther string

datatype VehicleType = VehicleCar | VehicleMotorcycle | VehicleTypeOther string

record Session =
  ConfirmedAt :: Time
  CheckedInAt :: Time
  CheckedOutAt :: Time
  CancelledAt :: "Time option"
  NoShow :: bool
  VehicleTypeOf :: VehicleType
  Timezone :: "Location option"

record LineItem =
  Kind :: LineKind
  AmountIDR :: int64
  Note :: string

record Config =
  BookingFeeIDR :: int64
  HourlyRateIDR :: int64
  OvernightFlatIDR :: int64
  CancelFeeIDR :: int64
  NoShowFeeIDR :: int64
  CancelGrace :: Duration

definition DefaultConfig :: Config where
  "DefaultConfig = \<lparr>BookingFeeIDR = 5000, HourlyRateIDR = 5000, OvernightFlatIDR = 20000,
     CancelFeeIDR = 5000, NoShowFeeIDR = 5000, CancelGrace = 2 * Minute\<rparr>"

type_synonym Rule = "Session \<Rightarrow> LineItem list \<Rightarrow> Config \<Rightarrow> goerror + LineItem list"

section \<open>Rules\<close>

fun hasKind :: "LineItem list \<Rightarrow> LineKind \<Rightarrow> bool" where
  "hasKind [] k = False"
| "hasKind (li # prior) k = (if Kind li = k then True else hasKind prior k)"

definition cancellationRule :: Rule where
  "cancellationRule s prior cfg =
     (case CancelledAt s of
        None \<Rightarrow> Inr []
      | Some cancelledAt \<Rightarrow>
          let since = Sub cancelledAt (ConfirmedAt s)
          in if sint since \<le> sint (CancelGrace cfg)
             then Inr [\<lparr>Kind = LineCancellation, AmountIDR = 0, Note = ''within grace''\<rparr>]
             else Inr [\<lparr>Kind = LineCancellation, AmountIDR = CancelFeeIDR cfg,
                        Note = ''post-grace cancel''\<rparr>])"

definition noShowRule :: Rule where
  "noShowRule s prior cfg =
     (if \<not> NoShow s then Inr []
      else if hasKind prior LineCancellation then Inr []
      else Inr [\<lparr>Kind = LineNoShow, AmountIDR = NoShowFeeIDR cfg, Note = ''no-show fee''\<rparr>])"

definition bookingRule :: Rule where
  "bookingRule s prior cfg =
     (if hasKind prior LineCancellation then Inr []
      else if hasKind prior LineNoShow
      then Inr [\<lparr>Kind = LineBooking, AmountIDR = BookingFeeIDR cfg, Note = ''booking fee (no-show)''\<rparr>]
      else Inr [\<lparr>Kind = LineBooking, AmountIDR = BookingFeeIDR cfg, Note = ''booking fee''\<rparr>])"

definition overnightRule :: Rule where
  "overnightRule s prior cfg =
     (if IsZero (CheckedInAt s) \<or> IsZero (CheckedOutAt s) then Inr []
      else if hasKind prior LineCancellation \<or> hasKind prior LineNoShow then Inr []
      else case Timezone s of
        None \<Rightarrow> Inl (GoPanic ''time: missing Location in call to Time.In'')
      | Some tz \<Rightarrow>
          let nextMid = Date (Year tz (CheckedInAt s)) (Month tz (CheckedInAt s))
                          (Day tz (CheckedInAt s) + 1) 0 0 0 0 tz
          in if \<not> After (CheckedOutAt s) nextMid \<and> \<not> Equal (CheckedOutAt s) nextMid then Inr []
             else Inr [\<lparr>Kind = LineOvernight, AmountIDR = OvernightFlatIDR cfg,
                        Note = ''overnight flat''\<rparr>])"

definition formatHours :: "int64 \<Rightarrow> string" where
  "formatHours h =
     (if h = 2 then ''2h'' else if h = 3 then ''3h'' else if h = 4 then ''4h''
      else if h = 5 then ''5h'' else ''Nh'')"

definition durLabel :: "Duration \<Rightarrow> int64 \<Rightarrow> string" where
  "durLabel d hours =
     (if sint d < sint Hour then ''1h (rounded up)''
      else if hours = 1 then ''1h'' else formatHours hours)"

definition hourlyRule :: Rule where
  "hourlyRule s prior cfg =
     (if IsZero (CheckedInAt s) \<or> IsZero (CheckedOutAt s) then Inr []
      else if hasKind prior LineCancellation \<or> hasKind prior LineNoShow \<or>
              hasKind prior LineOvernight then Inr []
      else let dur = Sub (CheckedOutAt s) (CheckedInAt s)
           in if sint dur \<le> 0 then Inr []
              else let hours0 = ceil_hours dur;
                       hours = (if sint hours0 < 1 then 1 else hours0)
                   in Inr [\<lparr>Kind = LineHourly, AmountIDR = hours * HourlyRateIDR cfg,
                            Note = durLabel dur hours\<rparr>])"

section \<open>Engine\<close>

record Engine =
  eng_cfg :: Config
  rules :: "Rule list"

definition NewDefaultEngine :: "Config \<Rightarrow> Engine" where
  "NewDefaultEngine cfg = \<lparr>eng_cfg = cfg,
     rules = [cancellationRule, noShowRule, bookingRule, overnightRule, hourlyRule]\<rparr>"

text \<open>The loop of \<open>Apply\<close>: each rule sees the lines collected so far.\<close>

fun run_rules :: "Session \<Rightarrow> Config \<Rightarrow> LineItem list \<Rightarrow> Rule list \<Rightarrow> goerror + LineItem list" where
  "run_rules s cfg out [] = Inr out"
| "run_rules s cfg out (r # rs) =
     (case r s out cfg of Inl e \<Rightarrow> Inl e | Inr lines \<Rightarrow> run_rules s cfg (out @ lines) rs)"

text \<open>
  \<open>Apply\<close>. The first argument is what \<open>time.LoadLocation("Asia/Jakarta")\<close> yields on the host:
  \<open>None\<close> when the host has no zone database (the code drops the error and keeps a nil zone).
\<close>

definition Apply :: "Location option \<Rightarrow> Engine \<Rightarrow> Session \<Rightarrow> goerror + LineItem list" where
  "Apply tzdb e s =
     (let s' = (if Timezone s = None then s\<lparr>Timezone := tzdb\<rparr> else s)
      in run_rules s' (eng_cfg e) [] (rules e))"

text \<open>The sum of the amounts of a list of lines, in \<open>int64\<close>.\<close>

definition total :: "LineItem list \<Rightarrow> int64" where
  "total lines = sum_list (map AmountIDR lines)"

section \<open>Reference price table\<close>

text \<open>
  What a session costs, by cases, without rule order or floating point: a cancellation line alone,
  or a no-show fee and the booking fee, or the booking fee and what parking adds. \<open>parking_lines\<close>
  charges the overnight flat when the local calendar day changes and otherwise every started hour.
\<close>

definition cancel_line :: "Config \<Rightarrow> Time \<Rightarrow> Time \<Rightarrow> LineItem" where
  "cancel_line cfg confirmed cancelled =
     (if min (2 ^ 63 - 1) (cancelled - confirmed) \<le> sint (CancelGrace cfg)
      then \<lparr>Kind = LineCancellation, AmountIDR = 0, Note = ''within grace''\<rparr>
      else \<lparr>Kind = LineCancellation, AmountIDR = CancelFeeIDR cfg, Note = ''post-grace cancel''\<rparr>)"

definition whole_hours :: "Time \<Rightarrow> Time \<Rightarrow> int" where
  "whole_hours t u = (u - t + (hour_ns - 1)) div hour_ns"

definition parking_lines :: "Config \<Rightarrow> int \<Rightarrow> Time \<Rightarrow> Time \<Rightarrow> LineItem list" where
  "parking_lines cfg off t u =
     (if IsZero t \<or> IsZero u then []
      else if local_day (FixedZone off) t < local_day (FixedZone off) u
      then [\<lparr>Kind = LineOvernight, AmountIDR = OvernightFlatIDR cfg, Note = ''overnight flat''\<rparr>]
      else if u \<le> t then []
      else [\<lparr>Kind = LineHourly, AmountIDR = word_of_int (whole_hours t u) * HourlyRateIDR cfg,
             Note = durLabel (Sub u t) (word_of_int (whole_hours t u))\<rparr>])"

definition expected_lines :: "Config \<Rightarrow> int \<Rightarrow> Session \<Rightarrow> LineItem list" where
  "expected_lines cfg off s =
     (case CancelledAt s of
        Some c \<Rightarrow> [cancel_line cfg (ConfirmedAt s) c]
      | None \<Rightarrow>
          if NoShow s
          then [\<lparr>Kind = LineNoShow, AmountIDR = NoShowFeeIDR cfg, Note = ''no-show fee''\<rparr>,
                \<lparr>Kind = LineBooking, AmountIDR = BookingFeeIDR cfg, Note = ''booking fee (no-show)''\<rparr>]
          else \<lparr>Kind = LineBooking, AmountIDR = BookingFeeIDR cfg, Note = ''booking fee''\<rparr> #
               parking_lines cfg off (CheckedInAt s) (CheckedOutAt s))"

text \<open>The same price as an integer, with no lines and no machine arithmetic.\<close>

definition parking_price :: "Config \<Rightarrow> int \<Rightarrow> Time \<Rightarrow> Time \<Rightarrow> int" where
  "parking_price cfg off t u =
     (if IsZero t \<or> IsZero u then 0
      else if local_day (FixedZone off) t < local_day (FixedZone off) u then sint (OvernightFlatIDR cfg)
      else if u \<le> t then 0 else whole_hours t u * sint (HourlyRateIDR cfg))"

definition tariff_price :: "Config \<Rightarrow> int \<Rightarrow> Session \<Rightarrow> int" where
  "tariff_price cfg off s =
     (case CancelledAt s of
        Some c \<Rightarrow> if c - ConfirmedAt s \<le> sint (CancelGrace cfg) then 0 else sint (CancelFeeIDR cfg)
      | None \<Rightarrow>
          if NoShow s then sint (NoShowFeeIDR cfg) + sint (BookingFeeIDR cfg)
          else sint (BookingFeeIDR cfg) + parking_price cfg off (CheckedInAt s) (CheckedOutAt s))"

text \<open>A location that keeps the offset \<open>off\<close> from the Unix second \<open>T\<close> on, as Asia/Jakarta does from 1964.\<close>

definition settled :: "Location \<Rightarrow> int \<Rightarrow> int \<Rightarrow> bool" where
  "settled tz off T \<longleftrightarrow> (\<forall>sec \<ge> T. fst (zone_lookup tz sec) = off)"

text \<open>Tariffs between 0 and \<open>2 ^ 40\<close> IDR: the range in which no sum or product wraps around.\<close>

definition tariff_ok :: "Config \<Rightarrow> bool" where
  "tariff_ok cfg \<longleftrightarrow>
     (\<forall>a \<in> {BookingFeeIDR cfg, HourlyRateIDR cfg, OvernightFlatIDR cfg, CancelFeeIDR cfg, NoShowFeeIDR cfg}.
        0 \<le> sint a \<and> sint a \<le> 2 ^ 40)"

definition priced :: "int64 \<Rightarrow> bool" where
  "priced a \<longleftrightarrow> 0 \<le> sint a \<and> sint a \<le> 2562049 * 2 ^ 40"

section \<open>The contract of a rule\<close>

text \<open>
  What the engine relies on of any implementation of \<open>Rule\<close>: it emits at most one line, of its
  own kind, and it stays silent when an earlier rule emitted a kind it yields to.
\<close>

lemma hasKind_iff [simp]: "hasKind prior k \<longleftrightarrow> k \<in> Kind ` set prior"
  by (induction prior) auto

locale pricing_rule =
  fixes apply_rule :: Rule
    and own :: LineKind
    and yields :: "LineKind set"
  assumes own_kind: "apply_rule s prior cfg = Inr ls \<Longrightarrow> Kind ` set ls \<subseteq> {own}"
    and one_line: "apply_rule s prior cfg = Inr ls \<Longrightarrow> length ls \<le> 1"
    and silent: "apply_rule s prior cfg = Inr ls \<Longrightarrow> yields \<inter> Kind ` set prior \<noteq> {} \<Longrightarrow> ls = []"
begin

lemma emission_cases:
  assumes "apply_rule s prior cfg = Inr ls"
  obtains "ls = []" | l where "ls = [l]" and "Kind l = own" and "yields \<inter> Kind ` set prior = {}"
proof (cases ls)
  case (Cons l ls')
  with one_line [OF assms] have "ls = [l]" by simp
  moreover have "Kind l = own" using own_kind [OF assms] \<open>ls = [l]\<close> by auto
  moreover have "yields \<inter> Kind ` set prior = {}" using silent [OF assms] \<open>ls = [l]\<close> by auto
  ultimately show ?thesis by (rule that(2))
qed (use that in blast)

lemma keeps_distinct:
  assumes "apply_rule s prior cfg = Inr ls"
    and "distinct (map Kind prior)" and "own \<notin> Kind ` set prior"
  shows "distinct (map Kind (prior @ ls))"
  using assms(1) by (rule emission_cases) (use assms in auto)

lemma kinds_after:
  assumes "apply_rule s prior cfg = Inr ls"
  shows "Kind ` set (prior @ ls) \<subseteq> insert own (Kind ` set prior)"
  using own_kind [OF assms] by auto

lemma keeps_conflict_free:
  assumes "apply_rule s prior cfg = Inr ls" and "k \<in> yields" and "k \<noteq> own"
    and "\<not> (k \<in> Kind ` set prior \<and> own \<in> Kind ` set prior)"
  shows "\<not> (k \<in> Kind ` set (prior @ ls) \<and> own \<in> Kind ` set (prior @ ls))"
  using assms(1) by (rule emission_cases) (use assms in auto)

end

interpretation cancellation: pricing_rule cancellationRule LineCancellation "{}"
  by unfold_locales (auto simp: cancellationRule_def Let_def split: option.splits if_splits)

interpretation no_show: pricing_rule noShowRule LineNoShow "{LineCancellation}"
  by unfold_locales (auto simp: noShowRule_def split: if_splits)

interpretation booking: pricing_rule bookingRule LineBooking "{LineCancellation}"
  by unfold_locales (auto simp: bookingRule_def split: if_splits)

interpretation overnight: pricing_rule overnightRule LineOvernight "{LineCancellation, LineNoShow}"
  by unfold_locales (auto simp: overnightRule_def Let_def split: option.splits if_splits)

interpretation hourly: pricing_rule hourlyRule LineHourly
    "{LineCancellation, LineNoShow, LineOvernight}"
  by unfold_locales (auto simp: hourlyRule_def Let_def split: if_splits)

section \<open>The rules compute the table\<close>

lemma expected_lines_zone [simp]:
  "expected_lines cfg off (s\<lparr>Timezone := z\<rparr>) = expected_lines cfg off s"
  by (simp add: expected_lines_def split: option.split)

lemma same_day_short:
  assumes "\<not> local_day (FixedZone off) t < local_day (FixedZone off) u"
  shows "u - t < day_ns"
proof -
  have "u < next_midnight (FixedZone off) t"
    using assms by (simp add: next_midnight_le_iff [symmetric])
  moreover have "next_midnight (FixedZone off) t \<le> t + day_ns"
  proof -
    define p q where "p = t div second_ns" and "q = (p + off) div day_s"
    have "p * second_ns \<le> t" and "q * day_s \<le> p + off"
      by (simp_all add: p_def q_def mult_le_iff_le_div)
    then have "((q + 1) * day_s - off) * second_ns \<le> t + day_ns" by simp
    then show ?thesis
      unfolding next_midnight_FixedZone local_day_FixedZone p_def q_def .
  qed
  ultimately show ?thesis by linarith
qed

lemma whole_hours_bounds: "t < u \<Longrightarrow> 1 \<le> whole_hours t u"
  using zdiv_mono1 [of hour_ns "u - t + (hour_ns - 1)" hour_ns] by (simp add: whole_hours_def)

lemma ceil_hours_Sub:
  assumes "t < u" and "u - t < day_ns"
  shows "ceil_hours (Sub u t) = word_of_int (whole_hours t u)"
    and "1 \<le> whole_hours t u" and "whole_hours t u \<le> 24"
proof -
  have ok: "int64_ok (u - t)" using assms by (intro int64_okI) auto
  have hb: "1 \<le> whole_hours t u" by (rule whole_hours_bounds [OF assms(1)])
  have "u - t + (hour_ns - 1) < 25 * hour_ns" using assms(2) by simp
  then have "(u - t + (hour_ns - 1)) div hour_ns < 25" by linarith
  then have hu: "whole_hours t u \<le> 24" by (simp add: whole_hours_def)
  show "1 \<le> whole_hours t u" "whole_hours t u \<le> 24" by (fact hb, fact hu)
  have "sint (ceil_hours (Sub u t)) = whole_hours t u"
    using assms by (subst ceil_hours_exact) (auto simp: sint_Sub_in_range [OF ok] whole_hours_def)
  moreover have "int64_ok (whole_hours t u)" using hb hu by (intro int64_okI) auto
  ultimately show "ceil_hours (Sub u t) = word_of_int (whole_hours t u)"
    by (intro int64_eqI) (simp add: sint_word_of_int64)
qed

lemma cancellationRule_eq:
  "cancellationRule s prior cfg =
     Inr (case CancelledAt s of None \<Rightarrow> [] | Some c \<Rightarrow> [cancel_line cfg (ConfirmedAt s) c])"
proof -
  have "sint (Sub c u) \<le> sint g \<longleftrightarrow> min (2 ^ 63 - 1) (c - u) \<le> sint g" for c u and g :: int64
    using int64_ok_sint [of g] by (auto simp: sint_Sub int64_ok_def)
  then show ?thesis
    by (auto simp: cancellationRule_def cancel_line_def Let_def split: option.splits)
qed

lemma overnightRule_by_day:
  assumes "\<not> IsZero (CheckedInAt s)" "\<not> IsZero (CheckedOutAt s)"
    and "LineCancellation \<notin> Kind ` set prior" "LineNoShow \<notin> Kind ` set prior"
    and "Timezone s = Some tz"
    and nm: "next_midnight tz (CheckedInAt s) = next_midnight (FixedZone off) (CheckedInAt s)"
  shows "overnightRule s prior cfg =
    Inr (if local_day (FixedZone off) (CheckedInAt s) < local_day (FixedZone off) (CheckedOutAt s)
         then [\<lparr>Kind = LineOvernight, AmountIDR = OvernightFlatIDR cfg, Note = ''overnight flat''\<rparr>]
         else [])"
  using assms(1-5) by (auto simp: overnightRule_def Let_def After_def Equal_def
      next_midnight_le_iff [symmetric] nm [symmetric] next_midnight_def [symmetric])

lemma hourlyRule_same_day:
  assumes "\<not> IsZero (CheckedInAt s)" "\<not> IsZero (CheckedOutAt s)"
    and "LineCancellation \<notin> Kind ` set prior" "LineNoShow \<notin> Kind ` set prior"
      "LineOvernight \<notin> Kind ` set prior"
    and day: "CheckedOutAt s - CheckedInAt s < day_ns"
  shows "hourlyRule s prior cfg =
    Inr (if CheckedOutAt s \<le> CheckedInAt s then []
         else [\<lparr>Kind = LineHourly,
                AmountIDR = word_of_int (whole_hours (CheckedInAt s) (CheckedOutAt s)) * HourlyRateIDR cfg,
                Note = durLabel (Sub (CheckedOutAt s) (CheckedInAt s))
                         (word_of_int (whole_hours (CheckedInAt s) (CheckedOutAt s)))\<rparr>])"
proof (cases "CheckedOutAt s \<le> CheckedInAt s")
  case True
  then have "sint (Sub (CheckedOutAt s) (CheckedInAt s)) \<le> 0" by (simp add: sint_Sub)
  with assms True show ?thesis by (simp add: hourlyRule_def)
next
  case False
  then have lt: "CheckedInAt s < CheckedOutAt s" by simp
  note c = ceil_hours_Sub [OF lt day]
  have "int64_ok (CheckedOutAt s - CheckedInAt s)" using lt day by (intro int64_okI) auto
  then have "0 < sint (Sub (CheckedOutAt s) (CheckedInAt s))" using lt by (simp add: sint_Sub_in_range)
  moreover have "1 \<le> sint (word_of_int (whole_hours (CheckedInAt s) (CheckedOutAt s)) :: int64)"
    using c by (subst sint_word_of_int64) (auto intro!: int64_okI)
  ultimately show ?thesis using assms False by (simp add: hourlyRule_def c(1) Let_def)
qed

lemma hourlyRule_overnight: "LineOvernight \<in> Kind ` set prior \<Longrightarrow> hourlyRule s prior cfg = Inr []"
  by (simp add: hourlyRule_def)

lemma Apply_table:
  assumes "Timezone s = Some tz \<or> Timezone s = None \<and> tzdb = Some tz"
    and nm: "IsZero (CheckedInAt s) \<or>
      next_midnight tz (CheckedInAt s) = next_midnight (FixedZone off) (CheckedInAt s)"
  shows "Apply tzdb (NewDefaultEngine cfg) s = Inr (expected_lines cfg off s)"
proof -
  define s' where "s' = s\<lparr>Timezone := Some tz\<rparr>"
  have A: "Apply tzdb (NewDefaultEngine cfg) s = run_rules s' cfg []
      [cancellationRule, noShowRule, bookingRule, overnightRule, hourlyRule]"
  proof -
    have "(if Timezone s = None then s\<lparr>Timezone := tzdb\<rparr> else s) = s'"
      using assms(1) by (cases s) (auto simp: s'_def)
    then show ?thesis by (simp add: Apply_def NewDefaultEngine_def Let_def del: run_rules.simps)
  qed
  have E: "expected_lines cfg off s = expected_lines cfg off s'"
    by (simp add: s'_def)
  let ?b = "[\<lparr>Kind = LineBooking, AmountIDR = BookingFeeIDR cfg, Note = ''booking fee''\<rparr>]"
  note early_rules = cancellationRule_eq noShowRule_def bookingRule_def cancel_line_def
  consider (cancelled) c where "CancelledAt s' = Some c"
    | (noshow) "CancelledAt s' = None" "NoShow s'"
    | (parked) "CancelledAt s' = None" "\<not> NoShow s'" by blast
  then show ?thesis unfolding A E
  proof cases
    case cancelled
    then show "run_rules s' cfg [] [cancellationRule, noShowRule, bookingRule, overnightRule, hourlyRule] =
        Inr (expected_lines cfg off s')"
      by (simp add: early_rules overnightRule_def hourlyRule_def expected_lines_def)
  next
    case noshow
    then show "run_rules s' cfg [] [cancellationRule, noShowRule, bookingRule, overnightRule, hourlyRule] =
        Inr (expected_lines cfg off s')"
      by (simp add: early_rules overnightRule_def hourlyRule_def expected_lines_def)
  next
    case parked
    then have "run_rules s' cfg [] [cancellationRule, noShowRule, bookingRule, overnightRule, hourlyRule] =
        run_rules s' cfg ?b [overnightRule, hourlyRule]"
      by (simp add: early_rules)
    also have "\<dots> = Inr (?b @ parking_lines cfg off (CheckedInAt s') (CheckedOutAt s'))"
    proof (cases "IsZero (CheckedInAt s') \<or> IsZero (CheckedOutAt s')")
      case True
      then show ?thesis by (auto simp: overnightRule_def hourlyRule_def parking_lines_def)
    next
      case False
      moreover have "next_midnight tz (CheckedInAt s') = next_midnight (FixedZone off) (CheckedInAt s')"
        using nm False by (simp add: s'_def)
      moreover have "Timezone s' = Some tz" by (simp add: s'_def)
      ultimately show ?thesis
        using same_day_short [of off "CheckedInAt s'" "CheckedOutAt s'"]
        by (auto simp: overnightRule_by_day hourlyRule_same_day hourlyRule_overnight parking_lines_def)
    qed
    finally show "run_rules s' cfg [] [cancellationRule, noShowRule, bookingRule, overnightRule, hourlyRule] =
        Inr (expected_lines cfg off s')"
      using parked by (simp add: expected_lines_def)
  qed
qed

lemma Apply_table_fixed:
  "Apply tzdb (NewDefaultEngine cfg) (s\<lparr>Timezone := Some (FixedZone off)\<rparr>) =
     Inr (expected_lines cfg off s)"
  by (subst Apply_table [where tz = "FixedZone off" and off = off]) simp_all

lemma run_rules_ConsE:
  assumes "run_rules s cfg out (r # rs) = Inr ls"
  obtains l where "r s out cfg = Inr l" and "run_rules s cfg (out @ l) rs = Inr ls"
  using assms by (auto split: sum.splits)

lemma run_rules_NilE: "run_rules s cfg out [] = Inr ls \<Longrightarrow> (out = ls \<Longrightarrow> P) \<Longrightarrow> P"
  by simp

lemma default_rulesE:
  assumes "Apply tzdb (NewDefaultEngine cfg) s = Inr ls"
  obtains s' l1 l2 l3 l4 l5 where "s' = (if Timezone s = None then s\<lparr>Timezone := tzdb\<rparr> else s)"
    and "cancellationRule s' [] cfg = Inr l1" and "noShowRule s' l1 cfg = Inr l2"
    and "bookingRule s' (l1 @ l2) cfg = Inr l3" and "overnightRule s' (l1 @ l2 @ l3) cfg = Inr l4"
    and "hourlyRule s' (l1 @ l2 @ l3 @ l4) cfg = Inr l5" and "ls = l1 @ l2 @ l3 @ l4 @ l5"
  using assms unfolding Apply_def NewDefaultEngine_def Let_def
  by (auto simp del: run_rules.simps elim!: run_rules_ConsE run_rules_NilE)

lemma booking_always:
  "bookingRule s prior cfg = Inr ls \<Longrightarrow> LineCancellation \<notin> Kind ` set prior \<Longrightarrow> ls \<noteq> []"
  by (auto simp: bookingRule_def split: if_splits)

lemma default_shape:
  assumes "Apply tzdb (NewDefaultEngine cfg) s = Inr ls"
  shows "map Kind ls \<in> {[LineCancellation], [LineNoShow, LineBooking], [LineBooking],
    [LineBooking, LineOvernight], [LineBooking, LineHourly]}"
proof -
  obtain s' l1 l2 l3 l4 l5 where l: "cancellationRule s' [] cfg = Inr l1" "noShowRule s' l1 cfg = Inr l2"
    "bookingRule s' (l1 @ l2) cfg = Inr l3" "overnightRule s' (l1 @ l2 @ l3) cfg = Inr l4"
    "hourlyRule s' (l1 @ l2 @ l3 @ l4) cfg = Inr l5" and ls: "ls = l1 @ l2 @ l3 @ l4 @ l5"
    using assms by (rule default_rulesE)
  show ?thesis
    unfolding ls
    by (insert booking_always [OF l(3)], rule cancellation.emission_cases [OF l(1)]; rule no_show.emission_cases [OF l(2)];
        rule booking.emission_cases [OF l(3)]; rule overnight.emission_cases [OF l(4)];
        rule hourly.emission_cases [OF l(5)]; simp)
qed

lemma Apply_length: "Apply tzdb (NewDefaultEngine cfg) s = Inr ls \<Longrightarrow> length ls \<le> 2"
  by (drule default_shape) (auto dest!: arg_cong [where f = length])

lemma tariff_priced:
  assumes "tariff_ok cfg"
  shows "priced (BookingFeeIDR cfg)" "priced (OvernightFlatIDR cfg)" "priced (CancelFeeIDR cfg)"
    "priced (NoShowFeeIDR cfg)" "0 \<le> sint (HourlyRateIDR cfg)" "sint (HourlyRateIDR cfg) \<le> 2 ^ 40"
  using assms by (auto simp: tariff_ok_def priced_def)

lemma sint_ceil_hours_bounds:
  assumes "0 \<le> sint d"
  shows "0 \<le> sint (ceil_hours d)" and "sint (ceil_hours d) \<le> 2562049"
proof -
  let ?n = "nat (sint d)"
  have "?n < 9223372036854775808" using assms int64_ok_sint [of d] by (simp add: int64_ok_def)
  then have "?n < 2562049 * 3600000000000" by simp
  then have "?n div 3600000000000 < 2562049" by (rule less_mult_imp_div_less)
  then show "0 \<le> sint (ceil_hours d)" "sint (ceil_hours d) \<le> 2562049"
    using f64_ceil_Hours_bounds(2) [of ?n] by (simp_all add: sint_ceil_hours [OF assms])
qed

lemma hourlyRule_priced:
  assumes "tariff_ok cfg" and "hourlyRule s prior cfg = Inr ls" and "l \<in> set ls"
  shows "priced (AmountIDR l)"
proof -
  define d where "d = Sub (CheckedOutAt s) (CheckedInAt s)"
  define h where "h = (if sint (ceil_hours d) < 1 then 1 else ceil_hours d)"
  have d: "0 < sint d" and l: "AmountIDR l = h * HourlyRateIDR cfg"
    using assms(2,3) by (auto simp: hourlyRule_def Let_def d_def h_def split: if_splits)
  have h: "0 \<le> sint h" "sint h \<le> 2562049" using sint_ceil_hours_bounds [of d] d by (auto simp: h_def)
  note r = tariff_priced(5,6) [OF assms(1)]
  have b: "sint h * sint (HourlyRateIDR cfg) \<le> 2562049 * 2 ^ 40" using h r by (intro mult_mono) auto
  have "0 \<le> sint h * sint (HourlyRateIDR cfg)" using h r by simp
  with b have "int64_ok (sint h * sint (HourlyRateIDR cfg))" by (intro int64_okI) auto
  from sint_mult_int64 [OF this] show ?thesis using l b h r by (simp add: priced_def)
qed

lemma Apply_priced:
  assumes "tariff_ok cfg" and "Apply tzdb (NewDefaultEngine cfg) s = Inr ls" and "l \<in> set ls"
  shows "priced (AmountIDR l)"
proof -
  obtain s' l1 l2 l3 l4 l5 where r: "cancellationRule s' [] cfg = Inr l1" "noShowRule s' l1 cfg = Inr l2"
    "bookingRule s' (l1 @ l2) cfg = Inr l3" "overnightRule s' (l1 @ l2 @ l3) cfg = Inr l4"
    "hourlyRule s' (l1 @ l2 @ l3 @ l4) cfg = Inr l5" and ls: "ls = l1 @ l2 @ l3 @ l4 @ l5"
    using assms(2) by (rule default_rulesE)
  note p = tariff_priced [OF assms(1)]
  have z: "priced 0" by (simp add: priced_def)
  have "l \<in> set l1 \<Longrightarrow> ?thesis" using r(1) p(3) z
    by (auto simp: cancellationRule_eq cancel_line_def split: option.splits if_splits)
  moreover have "l \<in> set l2 \<Longrightarrow> ?thesis" using r(2) p(4) by (auto simp: noShowRule_def split: if_splits)
  moreover have "l \<in> set l3 \<Longrightarrow> ?thesis" using r(3) p(1) by (auto simp: bookingRule_def split: if_splits)
  moreover have "l \<in> set l4 \<Longrightarrow> ?thesis"
    using r(4) p(2) by (auto simp: overnightRule_def Let_def split: if_splits option.splits)
  moreover have "l \<in> set l5 \<Longrightarrow> ?thesis" using hourlyRule_priced [OF assms(1) r(5)] .
  ultimately show ?thesis using assms(3) by (auto simp: ls)
qed

lemma total_priced:
  assumes "\<And>l. l \<in> set ls \<Longrightarrow> priced (AmountIDR l)" and "length ls \<le> 2"
  shows "sint (total ls) = (\<Sum>l\<leftarrow>ls. sint (AmountIDR l))"
proof (cases ls)
  case (Cons a ls')
  show ?thesis
  proof (cases ls')
    case (Cons b ls'')
    with assms(2) \<open>ls = a # ls'\<close> have ls: "ls = [a, b]" by simp
    then have "int64_ok (sint (AmountIDR a) + sint (AmountIDR b))"
      using assms(1) [of a] assms(1) [of b] by (intro int64_okI) (auto simp: priced_def)
    from sint_add_int64 [OF this] ls show ?thesis by (simp add: total_def)
  qed (use Cons in \<open>simp add: total_def\<close>)
qed (simp add: total_def)

lemma whole_hours_mono: "u \<le> v \<Longrightarrow> whole_hours t u \<le> whole_hours t v"
  by (simp add: whole_hours_def zdiv_mono1)


lemma priced_hourly:
  assumes "tariff_ok cfg" and "1 \<le> n" and "n \<le> 24"
  shows "sint (word_of_int n * HourlyRateIDR cfg) = n * sint (HourlyRateIDR cfg)"
proof -
  have n: "sint (word_of_int n :: int64) = n" using assms by (intro sint_word_of_int64 int64_okI) auto
  note r = tariff_priced(5,6) [OF assms(1)]
  have "n * sint (HourlyRateIDR cfg) \<le> 24 * 2 ^ 40" using assms r by (intro mult_mono) auto
  moreover have "0 \<le> n * sint (HourlyRateIDR cfg)" using assms r by simp
  ultimately have "int64_ok (n * sint (HourlyRateIDR cfg))" by (intro int64_okI) auto
  then show ?thesis using n by (metis sint_mult_int64)
qed

lemma parking_amount_same_day:
  assumes "tariff_ok cfg" and "\<not> IsZero t" and "\<not> IsZero u"
    and "\<not> local_day (FixedZone off) t < local_day (FixedZone off) u"
  shows "(\<Sum>l\<leftarrow>parking_lines cfg off t u. sint (AmountIDR l)) =
    (if u \<le> t then 0 else whole_hours t u * sint (HourlyRateIDR cfg))"
  using assms ceil_hours_Sub(2,3) [OF _ same_day_short [OF assms(4)]]
  by (auto simp: parking_lines_def priced_hourly)

lemma expected_price:
  assumes "tariff_ok cfg" "sint (CancelGrace cfg) < 2 ^ 63 - 1"
  shows "(\<Sum>l\<leftarrow>expected_lines cfg off s. sint (AmountIDR l)) = tariff_price cfg off s"
proof -
  have "(\<Sum>l\<leftarrow>parking_lines cfg off t u. sint (AmountIDR l)) = parking_price cfg off t u" for t u
    using parking_amount_same_day [OF assms(1), of t u off] by (auto simp: parking_price_def parking_lines_def)
  then show ?thesis using assms(2)
    by (auto simp: expected_lines_def tariff_price_def cancel_line_def split: option.split)
qed

lemma tariff_price_bounds:
  assumes "tariff_ok cfg"
  shows "0 \<le> tariff_price cfg off s \<and> tariff_price cfg off s \<le> 25 * 2 ^ 40"
proof -
  have t: "0 \<le> sint a \<and> sint a \<le> 2 ^ 40"
    if "a \<in> {BookingFeeIDR cfg, HourlyRateIDR cfg, OvernightFlatIDR cfg, CancelFeeIDR cfg, NoShowFeeIDR cfg}" for a
    using assms that by (auto simp: tariff_ok_def)
  have "0 \<le> parking_price cfg off u v \<and> parking_price cfg off u v \<le> 24 * 2 ^ 40" for u v
  proof (cases "\<not> local_day (FixedZone off) u < local_day (FixedZone off) v \<and> u < v")
    case True
    then have "1 \<le> whole_hours u v" "whole_hours u v \<le> 24"
      using ceil_hours_Sub(2,3) [OF _ same_day_short] by blast+
    then have "0 \<le> whole_hours u v * sint (HourlyRateIDR cfg)"
      "whole_hours u v * sint (HourlyRateIDR cfg) \<le> 24 * 2 ^ 40"
      using t [of "HourlyRateIDR cfg"] mult_mono [of "whole_hours u v" 24 "sint (HourlyRateIDR cfg)" "2 ^ 40"] by auto
    with True show ?thesis by (simp add: parking_price_def)
  next
    case False
    then show ?thesis using t [of "OvernightFlatIDR cfg"] by (auto simp: parking_price_def)
  qed
  note p = this [of "CheckedInAt s" "CheckedOutAt s"]
  show ?thesis using p t [of "BookingFeeIDR cfg"] t [of "CancelFeeIDR cfg"] t [of "NoShowFeeIDR cfg"]
    by (auto simp: tariff_price_def split: option.split)
qed

lemma next_midnight_settled:
  assumes "settled tz off T" and "0 \<le> off" and "T \<le> Unix t"
  shows "next_midnight tz t = next_midnight (FixedZone off) t"
proof -
  have day: "local_day tz t = local_day (FixedZone off) t"
    using assms(1,3) by (simp add: local_day_def zone_offset_def settled_def)
  obtain y m d where c: "civil (local_day (FixedZone off) t) = (y, m, d)" by (metis prod.exhaust)
  define unix where "unix = (local_day (FixedZone off) t + 1) * day_s - unixToInternal"
  have "t div second_ns + off < (local_day (FixedZone off) t + 1) * day_s"
    using mult_le_iff_le_div [of day_s "local_day (FixedZone off) t + 1" "t div second_ns + off"]
    by (simp add: local_day_FixedZone)
  then have "T \<le> unix - off" using assms(3) by (simp add: unix_def Unix_def)
  then have "fst (zone_lookup tz unix) = off" "fst (zone_lookup tz (unix - off)) = off"
    using assms(1,2) by (auto simp: settled_def)
  then show ?thesis
    using days_of_civil [OF c, of 1] unfolding next_midnight_def Year_def Month_def Day_def day c
    by (auto simp: Date_def Let_def unix_def split: prod.splits)
qed

section \<open>Properties\<close>

text \<open>C1: for a session with a time zone (its own, or the one the engine loads as the default) that
  keeps one offset of zero or more from the check-in on, as Asia/Jakarta does since 1964, the engine's rule
  chain with its binary64 hours computes exactly the reference price table, whatever the times and the
  tariff. A session that has no zone and finds none is C25.\<close>

theorem Apply_decision_table:
  assumes "Timezone s = Some tz \<or> Timezone s = None \<and> tzdb = Some tz"
    and "settled tz off T" and "0 \<le> off"
    and "IsZero (CheckedInAt s) \<or> T \<le> Unix (CheckedInAt s)"
  shows "Apply tzdb (NewDefaultEngine cfg) s = Inr (expected_lines cfg off s)"
  using assms next_midnight_settled by (intro Apply_table) auto

theorem Apply_decision_table_witness:
  "Apply (Some \<lparr>zone0 = 27000, trans = [(-189415800, 25200)]\<rparr>) (NewDefaultEngine DefaultConfig)
     \<lparr>ConfirmedAt = 63913937400000000000, CheckedInAt = 63913937400000000000, CheckedOutAt = 63913964400000000000, CancelledAt = None,
      NoShow = False, VehicleTypeOf = VehicleCar, Timezone = None\<rparr> =
   Inr [\<lparr>Kind = LineBooking, AmountIDR = 5000, Note = ''booking fee''\<rparr>,
        \<lparr>Kind = LineOvernight, AmountIDR = 20000, Note = ''overnight flat''\<rparr>]"
proof -
  let ?tz = "\<lparr>zone0 = 27000, trans = [(-189415800, 25200)]\<rparr> :: Location"
  let ?s = "\<lparr>ConfirmedAt = 63913937400000000000, CheckedInAt = 63913937400000000000, CheckedOutAt = 63913964400000000000, CancelledAt = None,
      NoShow = False, VehicleTypeOf = VehicleCar, Timezone = None\<rparr> :: Session"
  have "settled ?tz 25200 (-189415800)" by (simp add: settled_def zone_lookup_def)
  then have "Apply (Some ?tz) (NewDefaultEngine DefaultConfig) ?s = Inr (expected_lines DefaultConfig 25200 ?s)"
    by (intro Apply_decision_table [where tz = ?tz and T = "-189415800"]) (simp_all add: Unix_def)
  also have "expected_lines DefaultConfig 25200 ?s =
     [\<lparr>Kind = LineBooking, AmountIDR = 5000, Note = ''booking fee''\<rparr>,
      \<lparr>Kind = LineOvernight, AmountIDR = 20000, Note = ''overnight flat''\<rparr>]"
    by (simp add: expected_lines_def parking_lines_def local_day_FixedZone IsZero_def DefaultConfig_def)
  finally show ?thesis .
qed

text \<open>The lines of a session never double-charge: each kind occurs at most once, a cancellation
  stands alone, a no-show pays the no-show and booking fees and nothing for parking, and the overnight
  flat and the hourly charge exclude each other. This holds in every zone.\<close>

theorem Apply_exclusive:
  assumes "Apply tzdb (NewDefaultEngine cfg) s = Inr ls"
  shows "distinct (map Kind ls) \<and>
    (LineCancellation \<in> Kind ` set ls \<longrightarrow> Kind ` set ls = {LineCancellation}) \<and>
    (LineNoShow \<in> Kind ` set ls \<longrightarrow> Kind ` set ls = {LineNoShow, LineBooking}) \<and>
    \<not> (LineOvernight \<in> Kind ` set ls \<and> LineHourly \<in> Kind ` set ls)"
proof -
  have "Kind ` set ls = set (map Kind ls)" by simp
  with default_shape [OF assms] show ?thesis by (auto simp del: set_map)
qed

theorem Apply_exclusive_witness:
  "\<exists>ls. Apply None (NewDefaultEngine DefaultConfig)
     \<lparr>ConfirmedAt = 63913892400000000000, CheckedInAt = 0, CheckedOutAt = 0, CancelledAt = None, NoShow = True,
      VehicleTypeOf = VehicleCar, Timezone = None\<rparr> = Inr ls \<and>
     LineNoShow \<in> Kind ` set ls \<and> distinct (map Kind ls) \<and> Kind ` set ls = {LineNoShow, LineBooking}"
proof -
  let ?s = "\<lparr>ConfirmedAt = 63913892400000000000, CheckedInAt = 0, CheckedOutAt = 0, CancelledAt = None, NoShow = True,
      VehicleTypeOf = VehicleCar, Timezone = None\<rparr> :: Session"
  have "\<exists>ls. Apply None (NewDefaultEngine DefaultConfig) ?s = Inr ls \<and> LineNoShow \<in> Kind ` set ls"
    by (simp add: Apply_def NewDefaultEngine_def cancellationRule_def noShowRule_def bookingRule_def
        overnightRule_def hourlyRule_def IsZero_def)
  then obtain ls where ls: "Apply None (NewDefaultEngine DefaultConfig) ?s = Inr ls"
    and n: "LineNoShow \<in> Kind ` set ls" by blast
  from Apply_exclusive [OF ls] n ls show ?thesis by blast
qed

text \<open>C23: the \<open>int64\<close> sum of the lines the engine emits is the price of the session in integer
  arithmetic, with no wrap-around and no rounding: the booking fee and, for parking, the overnight flat when
  the local calendar day changes and otherwise the hourly rate for every started hour; a cancelled session
  pays the cancel fee past the grace period and nothing within it, a no-show the two fees. The bounds: every
  tariff amount lies between 0 and \<open>2 ^ 40\<close> IDR and the grace period below the largest \<open>Duration\<close>; stays
  need none, as a stay within one day has at most 24 started hours. The zone is as in C1.\<close>

theorem Apply_total_exact:
  assumes "tariff_ok cfg" and "sint (CancelGrace cfg) < 2 ^ 63 - 1"
    and "Timezone s = Some tz \<or> Timezone s = None \<and> tzdb = Some tz"
    and "settled tz off T" and "0 \<le> off"
    and "IsZero (CheckedInAt s) \<or> T \<le> Unix (CheckedInAt s)"
  shows "\<exists>ls. Apply tzdb (NewDefaultEngine cfg) s = Inr ls \<and>
    sint (sum_list (map AmountIDR ls)) = tariff_price cfg off s \<and>
    0 \<le> tariff_price cfg off s \<and> tariff_price cfg off s \<le> 25 * 2 ^ 40"
proof -
  have A: "Apply tzdb (NewDefaultEngine cfg) s = Inr (expected_lines cfg off s)"
    using assms(3-6) next_midnight_settled by (intro Apply_table) auto
  have "sint (total (expected_lines cfg off s)) = (\<Sum>l\<leftarrow>expected_lines cfg off s. sint (AmountIDR l))"
    using Apply_priced [OF assms(1) A] Apply_length [OF A] by (rule total_priced)
  with A expected_price [OF assms(1,2), of off s] tariff_price_bounds [OF assms(1), of off s]
  show ?thesis by (simp add: total_def)
qed

theorem Apply_total_exact_witness:
  "\<exists>ls. Apply (Some \<lparr>zone0 = 27000, trans = [(-189415800, 25200)]\<rparr>) (NewDefaultEngine DefaultConfig)
     \<lparr>ConfirmedAt = 63913892400000000000, CheckedInAt = 63913892400000000000, CheckedOutAt = 63913901400000000000,
      CancelledAt = None, NoShow = False, VehicleTypeOf = VehicleCar, Timezone = None\<rparr> = Inr ls \<and>
     sint (sum_list (map AmountIDR ls)) = 5000 + 3 * 5000"
proof -
  let ?tz = "\<lparr>zone0 = 27000, trans = [(-189415800, 25200)]\<rparr> :: Location"
  let ?s = "\<lparr>ConfirmedAt = 63913892400000000000, CheckedInAt = 63913892400000000000, CheckedOutAt = 63913901400000000000,
      CancelledAt = None, NoShow = False, VehicleTypeOf = VehicleCar, Timezone = None\<rparr> :: Session"
  have z: "settled ?tz 25200 (-189415800)" by (simp add: settled_def zone_lookup_def)
  have t: "tariff_ok DefaultConfig" "sint (CancelGrace DefaultConfig) < 2 ^ 63 - 1"
    by (simp_all add: tariff_ok_def DefaultConfig_def Minute_def)
  have "tariff_price DefaultConfig 25200 ?s = 5000 + 3 * 5000"
    by (simp add: tariff_price_def parking_price_def whole_hours_def local_day_FixedZone IsZero_def DefaultConfig_def)
  with Apply_total_exact [OF t _ z, of ?s "Some ?tz"] show ?thesis by (auto simp: Unix_def)
qed

text \<open>C25: the engine panics exactly when a parked, not cancelled, not no-show session brings no zone
  and the host has no zone database; in every other case it returns lines.\<close>

theorem Apply_panics_iff:
  "Apply tzdb (NewDefaultEngine cfg) s = Inl e \<longleftrightarrow>
     e = GoPanic ''time: missing Location in call to Time.In'' \<and>
     Timezone s = None \<and> tzdb = None \<and> CancelledAt s = None \<and> \<not> NoShow s \<and>
     \<not> IsZero (CheckedInAt s) \<and> \<not> IsZero (CheckedOutAt s)"
  by (cases "CancelledAt s"; cases "NoShow s"; cases "Timezone s"; cases tzdb)
    (auto simp: Apply_def NewDefaultEngine_def cancellationRule_eq Let_def noShowRule_def
      bookingRule_def overnightRule_def hourlyRule_def cancel_line_def split: sum.splits if_splits)

text \<open>C24: within a local calendar day, leaving later never costs less.\<close>

theorem same_day_price_mono:
  assumes "tariff_ok cfg" and "u \<le> v" and "0 < v"
    and "\<not> local_day (FixedZone off) (CheckedInAt s) < local_day (FixedZone off) v"
    and "Apply tzdb (NewDefaultEngine cfg) (s\<lparr>CheckedOutAt := u, Timezone := Some (FixedZone off)\<rparr>) = Inr ls"
    and "Apply tzdb (NewDefaultEngine cfg) (s\<lparr>CheckedOutAt := v, Timezone := Some (FixedZone off)\<rparr>) = Inr ls'"
  shows "sint (total ls) \<le> sint (total ls')"
proof -
  let ?t = "CheckedInAt s"
  have e: "ls = expected_lines cfg off (s\<lparr>CheckedOutAt := u\<rparr>)"
    "ls' = expected_lines cfg off (s\<lparr>CheckedOutAt := v\<rparr>)"
    using assms(5,6) Apply_table_fixed [where s = "s\<lparr>CheckedOutAt := u\<rparr>"]
      Apply_table_fixed [where s = "s\<lparr>CheckedOutAt := v\<rparr>"] by simp_all
  have t: "sint (total ls) = (\<Sum>l\<leftarrow>ls. sint (AmountIDR l))"
    "sint (total ls') = (\<Sum>l\<leftarrow>ls'. sint (AmountIDR l))"
    using total_priced Apply_priced Apply_length assms(1,5,6) by metis+
  have day: "local_day (FixedZone off) u \<le> local_day (FixedZone off) v"
    using assms(2) by (simp add: local_day_FixedZone zdiv_mono1)
  have "(\<Sum>l\<leftarrow>parking_lines cfg off ?t u. sint (AmountIDR l)) \<le>
        (\<Sum>l\<leftarrow>parking_lines cfg off ?t v. sint (AmountIDR l))"
  proof (cases "IsZero ?t \<or> IsZero u")
    case True
    then show ?thesis using assms(1,3,4) parking_amount_same_day [of cfg ?t v off]
        tariff_priced(5) [OF assms(1)] whole_hours_bounds [of ?t v]
      by (auto simp: parking_lines_def IsZero_def)
  next
    case False
    then show ?thesis
      using assms(1-4) day whole_hours_mono [OF assms(2), of ?t] tariff_priced(5) [OF assms(1)]
        whole_hours_bounds [of ?t v]
      by (subst (1 2) parking_amount_same_day) (auto simp: IsZero_def intro: mult_right_mono)
  qed
  then show ?thesis unfolding t unfolding e by (simp add: expected_lines_def split: option.splits)
qed

theorem same_day_price_mono_witness:
  "\<exists>ls ls'. Apply None (NewDefaultEngine DefaultConfig)
      \<lparr>ConfirmedAt = 63913892400000000000, CheckedInAt = 63913892400000000000, CheckedOutAt = 63913894200000000000, CancelledAt = None, NoShow = False,
       VehicleTypeOf = VehicleCar, Timezone = Some (FixedZone 25200)\<rparr> = Inr ls \<and>
    Apply None (NewDefaultEngine DefaultConfig)
      \<lparr>ConfirmedAt = 63913892400000000000, CheckedInAt = 63913892400000000000, CheckedOutAt = 63913903500000000000, CancelledAt = None, NoShow = False,
       VehicleTypeOf = VehicleCar, Timezone = Some (FixedZone 25200)\<rparr> = Inr ls' \<and>
    sint (total ls) \<le> sint (total ls')"
proof -
  let ?s = "\<lparr>ConfirmedAt = 63913892400000000000, CheckedInAt = 63913892400000000000, CheckedOutAt = 63913892400000000000, CancelledAt = None, NoShow = False,
       VehicleTypeOf = VehicleCar, Timezone = Some (FixedZone 25200)\<rparr> :: Session"
  have t: "tariff_ok DefaultConfig" by (simp add: tariff_ok_def DefaultConfig_def)
  have d: "\<not> local_day (FixedZone 25200) (CheckedInAt ?s) < local_day (FixedZone 25200) 63913903500000000000"
    by (simp add: local_day_FixedZone)
  have "sint (total (expected_lines DefaultConfig 25200 (?s\<lparr>CheckedOutAt := 63913894200000000000\<rparr>))) \<le>
        sint (total (expected_lines DefaultConfig 25200 (?s\<lparr>CheckedOutAt := 63913903500000000000\<rparr>)))"
    by (rule same_day_price_mono [where tzdb = None, OF t _ _ d])
      (use Apply_table_fixed [of None DefaultConfig 25200 "?s\<lparr>CheckedOutAt := 63913894200000000000\<rparr>"]
         Apply_table_fixed [of None DefaultConfig 25200 "?s\<lparr>CheckedOutAt := 63913903500000000000\<rparr>"] in simp_all)
  with Apply_table_fixed [of None DefaultConfig 25200 "?s\<lparr>CheckedOutAt := 63913894200000000000\<rparr>"]
    Apply_table_fixed [of None DefaultConfig 25200 "?s\<lparr>CheckedOutAt := 63913903500000000000\<rparr>"]
  show ?thesis by auto
qed

end
