(* ===== verification/Model.thy ===== *)
theory Model
  imports Pricing
begin

text \<open>
  \<^verbatim>\<open>internal/billing/model\<close>: invoices, line items, payment requests, and the names of the events the
  service publishes and consumes; and the JSON values its events and rows carry.
\<close>

section \<open>JSON values\<close>

text \<open>
  An event payload, a metadata column or a message body, as the value its text denotes. \<open>JInt\<close> is
  an integer token, \<open>JNum\<close> any other number token.
\<close>

datatype json =
    JNull | JBool bool | JInt int | JNum string | JStr string
  | JArr "json list" | JObj "(string \<times> json) list"

section \<open>Constants\<close>

definition ScopeOpenInvoice :: string where
  "ScopeOpenInvoice = ''/parkirpintar.billing.v1.BillingService/OpenInvoice''"
definition ScopeCloseInvoice :: string where
  "ScopeCloseInvoice = ''/parkirpintar.billing.v1.BillingService/CloseInvoice''"

definition EvtInvoiceOpened :: string where "EvtInvoiceOpened = ''billing.invoice.opened.v1''"
definition EvtInvoiceClosed :: string where "EvtInvoiceClosed = ''billing.invoice.closed.v1''"
definition EvtPaymentPending :: string where "EvtPaymentPending = ''billing.payment.pending.v1''"
definition EvtPaymentSuccess :: string where "EvtPaymentSuccess = ''billing.payment.success.v1''"
definition EvtPaymentFailed :: string where "EvtPaymentFailed = ''billing.payment.failed.v1''"

definition EvtReservationCreated :: string where
  "EvtReservationCreated = ''reservation.created.v1''"
definition EvtReservationCheckedOut :: string where
  "EvtReservationCheckedOut = ''reservation.checked_out.v1''"
definition EvtReservationCancelled :: string where
  "EvtReservationCancelled = ''reservation.cancelled.v1''"
definition EvtReservationExpired :: string where
  "EvtReservationExpired = ''reservation.expired.v1''"

lemmas event_names =
  EvtInvoiceOpened_def EvtInvoiceClosed_def EvtPaymentPending_def EvtPaymentSuccess_def
  EvtPaymentFailed_def EvtReservationCreated_def EvtReservationCheckedOut_def
  EvtReservationCancelled_def EvtReservationExpired_def

section \<open>Invoices\<close>

datatype InvoiceStatus =
    InvoiceOpen | InvoiceClosed | InvoicePaid | InvoiceVoid | InvoiceStatusOther string

datatype MLineKind =
    MLineBooking | MLineHourly | MLineOvernight | MLineCancellation | MLineNoShow
  | MLineKindOther string

text \<open>The conversion \<open>model.LineKind(l.Kind)\<close>: both types are strings with the same constants.\<close>

fun to_MLineKind :: "LineKind \<Rightarrow> MLineKind" where
  "to_MLineKind LineBooking = MLineBooking"
| "to_MLineKind LineHourly = MLineHourly"
| "to_MLineKind LineOvernight = MLineOvernight"
| "to_MLineKind LineCancellation = MLineCancellation"
| "to_MLineKind LineNoShow = MLineNoShow"
| "to_MLineKind (LineKindOther k) = MLineKindOther k"

fun LineKind_string :: "LineKind \<Rightarrow> string" where
  "LineKind_string LineBooking = ''BOOKING''"
| "LineKind_string LineHourly = ''HOURLY''"
| "LineKind_string LineOvernight = ''OVERNIGHT''"
| "LineKind_string LineCancellation = ''CANCELLATION''"
| "LineKind_string LineNoShow = ''NOSHOW''"
| "LineKind_string (LineKindOther k) = k"

fun MLineKind_string :: "MLineKind \<Rightarrow> string" where
  "MLineKind_string MLineBooking = ''BOOKING''"
| "MLineKind_string MLineHourly = ''HOURLY''"
| "MLineKind_string MLineOvernight = ''OVERNIGHT''"
| "MLineKind_string MLineCancellation = ''CANCELLATION''"
| "MLineKind_string MLineNoShow = ''NOSHOW''"
| "MLineKind_string (MLineKindOther k) = k"

fun InvoiceStatus_string :: "InvoiceStatus \<Rightarrow> string" where
  "InvoiceStatus_string InvoiceOpen = ''OPEN''"
| "InvoiceStatus_string InvoiceClosed = ''CLOSED''"
| "InvoiceStatus_string InvoicePaid = ''PAID''"
| "InvoiceStatus_string InvoiceVoid = ''VOID''"
| "InvoiceStatus_string (InvoiceStatusOther s) = s"

text \<open>\<open>Metadata map[string]any\<close>: \<open>None\<close> is the nil map.\<close>

record MLineItem =
  ml_ID :: string
  ml_InvoiceID :: string
  ml_Kind :: MLineKind
  ml_AmountIDR :: int64
  ml_Metadata :: "(string \<times> json) list option"
  ml_CreatedAt :: Time

record Invoice =
  inv_ID :: string
  inv_ReservationID :: string
  inv_DriverID :: string
  inv_Status :: InvoiceStatus
  inv_LineItems :: "MLineItem list"
  inv_BookingFeeIDR :: int64
  inv_ParkingFeeIDR :: int64
  inv_PaymentMethod :: string
  inv_PaymentRef :: string
  inv_TotalIDR :: int64
  inv_IdempotencyKey :: string
  inv_CreatedAt :: Time
  inv_ClosedAt :: "Time option"
  inv_PaidAt :: "Time option"

section \<open>Payment requests\<close>

datatype PaymentMethod = PaymentMethodQRIS | PaymentMethodCC | PaymentMethodOther string

datatype PaymentRequestStatus =
    PaymentRequestPending | PaymentRequestSuccess | PaymentRequestFailed | PaymentRequestExpired
  | PaymentRequestStatusOther string

fun PaymentMethod_string :: "PaymentMethod \<Rightarrow> string" where
  "PaymentMethod_string PaymentMethodQRIS = ''QRIS''"
| "PaymentMethod_string PaymentMethodCC = ''CC''"
| "PaymentMethod_string (PaymentMethodOther s) = s"

text \<open>The conversion \<open>model.PaymentMethod(method)\<close>.\<close>

definition to_PaymentMethod :: "string \<Rightarrow> PaymentMethod" where
  "to_PaymentMethod s =
     (if s = ''QRIS'' then PaymentMethodQRIS else if s = ''CC'' then PaymentMethodCC
      else PaymentMethodOther s)"

fun PaymentRequestStatus_string :: "PaymentRequestStatus \<Rightarrow> string" where
  "PaymentRequestStatus_string PaymentRequestPending = ''PENDING''"
| "PaymentRequestStatus_string PaymentRequestSuccess = ''SUCCESS''"
| "PaymentRequestStatus_string PaymentRequestFailed = ''FAILED''"
| "PaymentRequestStatus_string PaymentRequestExpired = ''EXPIRED''"
| "PaymentRequestStatus_string (PaymentRequestStatusOther s) = s"

record PaymentRequest =
  pr_ID :: string
  pr_ReservationID :: string
  pr_InvoiceID :: string
  pr_AmountIDR :: int64
  pr_Method :: PaymentMethod
  pr_Status :: PaymentRequestStatus
  pr_PaymentRef :: string
  pr_QRISURL :: string
  pr_ExpiresAt :: Time
  pr_CreatedAt :: Time
  pr_UpdatedAt :: Time

text \<open>The line-kind conversion keeps the string, so a stored kind reads back as the engine's.\<close>

lemma to_MLineKind_string [simp]: "MLineKind_string (to_MLineKind k) = LineKind_string k"
  by (cases k) auto

lemma to_MLineKind_eq [simp]:
  "to_MLineKind k = MLineBooking \<longleftrightarrow> k = LineBooking"
  "to_MLineKind k = MLineCancellation \<longleftrightarrow> k = LineCancellation"
  "to_MLineKind k = MLineNoShow \<longleftrightarrow> k = LineNoShow"
  by (cases k; simp)+

lemma PaymentMethod_roundtrip [simp]: "PaymentMethod_string (to_PaymentMethod s) = s"
  by (simp add: to_PaymentMethod_def)

end
