(* ===== verification/Postgres.thy ===== *)
theory Postgres
  imports Model "HOL-Library.Product_Lexorder" "HOL-Library.List_Lexorder" "HOL-Library.Char_ord"
begin

text \<open>
  The database as the service sees it: the tables and constraints of
  \<^verbatim>\<open>data/migrations/001_init.up.sql\<close>, the statements the repositories send, transactions, and failures.
  Every round trip consults a failure script: the call may fail before it has an effect
  (\<open>Fail\<close>), or have its effect and lose the answer (\<open>Lost\<close>). Statements run one at a time;
  concurrent transactions on an invoice are serialised by its row lock. A \<open>uuid\<close> column holds
  the canonical text form PostgreSQL prints: a reservation number that is not in it is refused when a
  statement compares or stores it. The other spellings PostgreSQL reads (upper case, braces, no hyphens) are
  not modelled. The random identifiers PostgreSQL draws are names with no inner form, so a lookup by a
  malformed invoice number finds no row, where PostgreSQL refuses the number; that error is one the script
  can inject.
\<close>

section \<open>Tables\<close>

record invoice_row =
  iv_id :: string
  iv_reservation_id :: string
  iv_driver_id :: string
  iv_status :: InvoiceStatus
  iv_total_idr :: int64
  iv_idempotency_key :: "string option"
  iv_created_at :: Time
  iv_closed_at :: "Time option"
  iv_paid_at :: "Time option"

record line_row =
  ln_id :: string
  ln_invoice_id :: string
  ln_kind :: MLineKind
  ln_amount_idr :: int64
  ln_metadata :: json
  ln_created_at :: Time

record outbox_row =
  ob_id :: int
  ob_aggregate_type :: string
  ob_aggregate_id :: string
  ob_event_type :: string
  ob_payload :: json
  ob_created_at :: Time
  ob_published_at :: "Time option"

record payment_request_row =
  pq_id :: string
  pq_reservation_id :: string
  pq_invoice_id :: string
  pq_amount_idr :: int64
  pq_method :: PaymentMethod
  pq_status :: PaymentRequestStatus
  pq_payment_ref :: string
  pq_qris_url :: string
  pq_expires_at :: "Time option"
  pq_created_at :: "Time option"
  pq_updated_at :: "Time option"

record idempotency_row =
  ik_scope :: string
  ik_key :: string
  ik_response_payload :: string
  ik_created_at :: Time
  ik_expires_at :: Time

record tables =
  t_invoice :: "invoice_row list"
  t_invoice_line :: "line_row list"
  t_outbox_event :: "outbox_row list"
  t_payment_requests :: "payment_request_row list"
  t_idempotency_key :: "idempotency_row list"

section \<open>The world\<close>

text \<open>
  \<open>w_saved\<close> holds the tables at \<open>BEGIN\<close> while a transaction is open. \<open>w_uuid\<close> is the sequence of
  random UUIDs still to be drawn and \<open>w_draws\<close> the number drawn; \<open>w_seq\<close> is the next value of the
  outbox \<open>bigserial\<close>, which a rollback does not give back. \<open>w_now\<close> is the clock, \<open>w_faults\<close> the failure
  script indexed by the number \<open>w_calls\<close> of round trips made. \<open>w_sent\<close> is what the message broker
  accepted, and \<open>w_pub_faults\<close>, \<open>w_pubs\<close> are the script and the counter of publish calls.
  \<open>w_pr_schema\<close> is the definition of the table \<open>payment_requests\<close>, which no migration of the
  repository contains: its unique constraints, the defaults of its timestamps, and the instant its column
  \<open>expires_at\<close> keeps for the one it is given (a \<open>timestamptz\<close> keeps microseconds, Go's clock has
  nanoseconds). Its other columns keep the values they are given.
\<close>

datatype dberror = PqErr string | DriverErr string

fun go_of_dberror :: "dberror \<Rightarrow> goerror" where
  "go_of_dberror (PqErr c) = PqError c"
| "go_of_dberror (DriverErr m) = DriverError m"

datatype fault = Fail dberror | Lost dberror

record payment_schema =
  ps_conflict :: "payment_request_row list \<Rightarrow> payment_request_row \<Rightarrow> bool"
  ps_created_at :: "Time \<Rightarrow> Time option"
  ps_updated_at :: "Time \<Rightarrow> Time option"
  ps_expires_at :: "Time \<Rightarrow> Time"

record world =
  w_tables :: tables
  w_saved :: "tables option"
  w_uuid :: "nat \<Rightarrow> string"
  w_draws :: nat
  w_seq :: int
  w_now :: Time
  w_faults :: "nat \<Rightarrow> fault option"
  w_calls :: nat
  w_sent :: "(string \<times> json) list"
  w_pub_faults :: "nat \<Rightarrow> fault option"
  w_pubs :: nat
  w_pr_schema :: payment_schema

type_synonym 'a dbio = "(world, goerror, 'a) io"

definition set_tables :: "(tables \<Rightarrow> tables) \<Rightarrow> world \<Rightarrow> world" where
  "set_tables f w = w\<lparr>w_tables := f (w_tables w)\<rparr>"

definition tick_call :: "world \<Rightarrow> world" where
  "tick_call w = w\<lparr>w_calls := w_calls w + 1\<rparr>"

text \<open>One round trip for a statement.\<close>

definition db_call :: "'a dbio \<Rightarrow> 'a dbio" where
  "db_call stmt w =
     (case w_faults w (w_calls w) of
        None \<Rightarrow> stmt (tick_call w)
      | Some (Fail e) \<Rightarrow> (Inl (go_of_dberror e), tick_call w)
      | Some (Lost e) \<Rightarrow> (Inl (go_of_dberror e), snd (stmt (tick_call w))))"

section \<open>Transactions\<close>

text \<open>\<open>BeginTxx\<close>; a failure leaves no transaction on the client's side.\<close>

definition BeginTxx :: "unit dbio" where
  "BeginTxx w =
     (case w_faults w (w_calls w) of
        None \<Rightarrow> (Inr (), (tick_call w)\<lparr>w_saved := Some (w_tables w)\<rparr>)
      | Some (Fail e) \<Rightarrow> (Inl (go_of_dberror e), tick_call w)
      | Some (Lost e) \<Rightarrow> (Inl (go_of_dberror e), tick_call w))"

text \<open>\<open>Rollback\<close>, whose error the code drops; after a commit it does nothing.\<close>

definition rollback :: "world \<Rightarrow> world" where
  "rollback w =
     (case w_saved w of None \<Rightarrow> w | Some t \<Rightarrow> w\<lparr>w_tables := t, w_saved := None\<rparr>)"

definition Rollback :: "unit dbio" where
  "Rollback w = (Inr (), rollback w)"

definition Commit :: "unit dbio" where
  "Commit w =
     (case w_faults w (w_calls w) of
        None \<Rightarrow> (Inr (), (tick_call w)\<lparr>w_saved := None\<rparr>)
      | Some (Fail e) \<Rightarrow> (Inl (go_of_dberror e), rollback (tick_call w))
      | Some (Lost e) \<Rightarrow> (Inl (go_of_dberror e), (tick_call w)\<lparr>w_saved := None\<rparr>))"

text \<open>\<open>defer func() { _ = tx.Rollback() }()\<close> around the rest of a function.\<close>

definition deferRollback :: "'a dbio \<Rightarrow> 'a dbio" where
  "deferRollback body w = (case body w of (r, w') \<Rightarrow> (r, rollback w'))"

section \<open>Statements on the invoice tables\<close>

definition codeUniqueViolation :: string where
  "codeUniqueViolation = ''23505''"

text \<open>
  The text form of a UUID: 32 hexadecimal digits in groups of 8, 4, 4, 4 and 12. A parameter of type
  \<open>uuid\<close> that is not one is refused before the statement runs.
\<close>

definition uuid_shape :: "char \<Rightarrow> char" where
  "uuid_shape c =
     (if c \<in> set ''0123456789abcdef'' then CHR ''x'' else if c = CHR ''-'' then c else CHR ''?'')"

definition uuid_text :: "string \<Rightarrow> bool" where
  "uuid_text s \<longleftrightarrow> map uuid_shape s = ''xxxxxxxx-xxxx-xxxx-xxxx-xxxxxxxxxxxx''"

definition codeInvalidText :: string where
  "codeInvalidText = ''22P02''"

definition uuid_param :: "string \<Rightarrow> 'a dbio \<Rightarrow> 'a dbio" where
  "uuid_param s stmt w = (if uuid_text s then stmt w else (Inl (PqError codeInvalidText), w))"

text \<open>\<open>insertInvoiceSQL\<close>: the reservation must be a UUID, and the primary key and the two unique columns
  are checked.\<close>

definition sql_insert_invoice ::
    "string \<Rightarrow> string \<Rightarrow> int64 \<Rightarrow> string \<Rightarrow> (string \<times> Time) dbio" where
  "sql_insert_invoice reservation_id driver_id total_idr idem = uuid_param reservation_id (\<lambda>w.
     (let id = w_uuid w (w_draws w); w1 = w\<lparr>w_draws := w_draws w + 1\<rparr>;
          row = \<lparr>iv_id = id, iv_reservation_id = reservation_id, iv_driver_id = driver_id,
                 iv_status = InvoiceOpen, iv_total_idr = total_idr,
                 iv_idempotency_key = Some idem, iv_created_at = w_now w,
                 iv_closed_at = None, iv_paid_at = None\<rparr>
      in if \<exists>r \<in> set (t_invoice (w_tables w)).
              iv_id r = id \<or> iv_reservation_id r = reservation_id \<or> iv_idempotency_key r = Some idem
         then (Inl (PqError codeUniqueViolation), w1)
         else (Inr (id, w_now w), set_tables (\<lambda>t. t\<lparr>t_invoice := t_invoice t @ [row]\<rparr>) w1)))"

text \<open>
  \<open>insertLineSQL\<close>: the kind must be a value of the enum \<open>line_kind\<close>, the invoice must exist, and an
  invoice has at most one CANCELLATION and one NOSHOW line (the partial index \<open>uq_line_one_off\<close>).
\<close>

definition one_off :: "MLineKind \<Rightarrow> bool" where
  "one_off k \<longleftrightarrow> k = MLineCancellation \<or> k = MLineNoShow"

definition line_error :: "tables \<Rightarrow> string \<Rightarrow> string \<Rightarrow> MLineKind \<Rightarrow> goerror option" where
  "line_error t iid invoice_id k =
     (case k of
        MLineKindOther _ \<Rightarrow> Some (PqError codeInvalidText)
      | _ \<Rightarrow>
        if (\<exists>l \<in> set (t_invoice_line t). ln_id l = iid \<or>
              one_off k \<and> ln_invoice_id l = invoice_id \<and> ln_kind l = k)
        then Some (PqError codeUniqueViolation)
        else if \<forall>r \<in> set (t_invoice t). iv_id r \<noteq> invoice_id then Some (PqError ''23503'')
        else None)"

definition sql_insert_line :: "string \<Rightarrow> MLineKind \<Rightarrow> int64 \<Rightarrow> json \<Rightarrow> unit dbio" where
  "sql_insert_line invoice_id k amount metadata w =
     (let id = w_uuid w (w_draws w); w1 = w\<lparr>w_draws := w_draws w + 1\<rparr>;
          row = \<lparr>ln_id = id, ln_invoice_id = invoice_id, ln_kind = k, ln_amount_idr = amount,
                 ln_metadata = metadata, ln_created_at = w_now w\<rparr>
      in case line_error (w_tables w) id invoice_id k of
           Some e \<Rightarrow> (Inl e, w1)
         | None \<Rightarrow>
             (Inr (), set_tables (\<lambda>t. t\<lparr>t_invoice_line := t_invoice_line t @ [row]\<rparr>) w1))"

text \<open>\<open>insertOutboxSQL\<close>; a nil payload is SQL NULL and violates \<open>NOT NULL\<close>.\<close>

definition sql_insert_outbox :: "string \<Rightarrow> string \<Rightarrow> json option \<Rightarrow> unit dbio" where
  "sql_insert_outbox aggregate_id event_type payload w =
     (case payload of
        None \<Rightarrow> (Inl (PqError ''23502''), w\<lparr>w_seq := w_seq w + 1\<rparr>)
      | Some p \<Rightarrow>
          let row = \<lparr>ob_id = w_seq w, ob_aggregate_type = ''invoice'', ob_aggregate_id = aggregate_id,
                     ob_event_type = event_type, ob_payload = p, ob_created_at = w_now w,
                     ob_published_at = None\<rparr>
          in (Inr (), set_tables (\<lambda>t. t\<lparr>t_outbox_event := t_outbox_event t @ [row]\<rparr>)
                        (w\<lparr>w_seq := w_seq w + 1\<rparr>)))"

text \<open>The single-row reads; no row is \<open>sql.ErrNoRows\<close>.\<close>

definition select_row :: "('r \<Rightarrow> bool) \<Rightarrow> (tables \<Rightarrow> 'r list) \<Rightarrow> 'r dbio" where
  "select_row P tab w =
     (case find P (tab (w_tables w)) of None \<Rightarrow> (Inl ErrNoRows, w) | Some r \<Rightarrow> (Inr r, w))"

definition sql_invoice_by_id :: "string \<Rightarrow> invoice_row dbio" where
  "sql_invoice_by_id iid = select_row (\<lambda>r. iv_id r = iid) t_invoice"

definition sql_invoice_by_idem :: "string \<Rightarrow> invoice_row dbio" where
  "sql_invoice_by_idem idem = select_row (\<lambda>r. iv_idempotency_key r = Some idem) t_invoice"

definition sql_invoice_by_reservation :: "string \<Rightarrow> invoice_row dbio" where
  "sql_invoice_by_reservation res = uuid_param res (select_row (\<lambda>r. iv_reservation_id r = res) t_invoice)"

text \<open>\<open>getLinesSQL\<close>, with its \<open>ORDER BY created_at, id\<close>.\<close>

definition lines_of :: "tables \<Rightarrow> string \<Rightarrow> line_row list" where
  "lines_of t iid = filter (\<lambda>l. ln_invoice_id l = iid) (t_invoice_line t)"

definition sql_lines :: "string \<Rightarrow> line_row list dbio" where
  "sql_lines iid w =
     (Inr (sort_key (\<lambda>l. (ln_created_at l, ln_id l)) (lines_of (w_tables w) iid)), w)"

text \<open>\<open>closeInvoiceSQL\<close>, and the total update of \<open>AppendLine\<close>, where SQL's \<open>+\<close> checks its range.\<close>

definition close_row :: "Time \<Rightarrow> string \<Rightarrow> int64 \<Rightarrow> invoice_row \<Rightarrow> invoice_row" where
  "close_row now iid tot r =
     (if iv_id r = iid \<and> iv_status r = InvoiceOpen
      then r\<lparr>iv_status := InvoiceClosed, iv_total_idr := tot, iv_closed_at := Some now\<rparr> else r)"

definition sql_close_invoice :: "string \<Rightarrow> int64 \<Rightarrow> unit dbio" where
  "sql_close_invoice iid tot w =
     (Inr (), set_tables (\<lambda>t. t\<lparr>t_invoice := map (close_row (w_now w) iid tot) (t_invoice t)\<rparr>) w)"

definition add_row :: "string \<Rightarrow> int64 \<Rightarrow> invoice_row \<Rightarrow> invoice_row" where
  "add_row iid amount r =
     (if iv_id r = iid then r\<lparr>iv_total_idr := iv_total_idr r + amount\<rparr> else r)"

definition sql_add_total :: "string \<Rightarrow> int64 \<Rightarrow> unit dbio" where
  "sql_add_total iid amount w =
     (if \<exists>r \<in> set (t_invoice (w_tables w)). iv_id r = iid \<and>
           \<not> int64_ok (sint (iv_total_idr r) + sint amount)
      then (Inl (PqError ''22003''), w)
      else (Inr (), set_tables (\<lambda>t. t\<lparr>t_invoice := map (add_row iid amount) (t_invoice t)\<rparr>) w))"

section \<open>Facts about round trips and transactions\<close>

lemma tick_call_simps [simp]:
  "w_tables (tick_call w) = w_tables w" "w_saved (tick_call w) = w_saved w"
  "w_uuid (tick_call w) = w_uuid w" "w_draws (tick_call w) = w_draws w"
  "w_seq (tick_call w) = w_seq w" "w_now (tick_call w) = w_now w"
  "w_faults (tick_call w) = w_faults w" "w_calls (tick_call w) = w_calls w + 1"
  "w_sent (tick_call w) = w_sent w" "w_pr_schema (tick_call w) = w_pr_schema w"
  "w_pubs (tick_call w) = w_pubs w" "w_pub_faults (tick_call w) = w_pub_faults w"
  by (simp_all add: tick_call_def)

lemma set_tables_simps [simp]:
  "w_tables (set_tables f w) = f (w_tables w)" "w_saved (set_tables f w) = w_saved w"
  "w_uuid (set_tables f w) = w_uuid w" "w_draws (set_tables f w) = w_draws w"
  "w_seq (set_tables f w) = w_seq w" "w_now (set_tables f w) = w_now w"
  "w_faults (set_tables f w) = w_faults w" "w_calls (set_tables f w) = w_calls w"
  "w_sent (set_tables f w) = w_sent w" "w_pr_schema (set_tables f w) = w_pr_schema w"
  "w_pubs (set_tables f w) = w_pubs w" "w_pub_faults (set_tables f w) = w_pub_faults w"
  by (simp_all add: set_tables_def)

lemma db_call_Inr: "db_call stmt w = (Inr x, w') \<Longrightarrow> stmt (tick_call w) = (Inr x, w')"
  by (auto simp: db_call_def split: option.splits fault.splits)

lemma db_call_quiet: "w_faults w (w_calls w) = None \<Longrightarrow> db_call stmt w = stmt (tick_call w)"
  by (simp add: db_call_def)

lemma db_call_world: "db_call stmt w = (r, w') \<Longrightarrow> w' = tick_call w \<or> w' = snd (stmt (tick_call w))"
  by (auto simp: db_call_def split: option.splits fault.splits)

text \<open>A fact about worlds that ticking and every outcome of a statement keep, a call keeps.\<close>

lemma keeps_db_call [inv_intros]:
  assumes "\<And>w. I w \<Longrightarrow> I (tick_call w)" and "keeps I stmt"
  shows "keeps I (db_call stmt)"
proof (rule keepsI)
  fix w r w'
  assume "I w" and "db_call stmt w = (r, w')"
  then show "I w'" using db_call_world [of stmt w r w'] assms keeps_snd by metis
qed

text \<open>\<open>rel R m\<close>: every run of \<open>m\<close> relates the world before to the world after by \<open>R\<close>.\<close>

definition rel :: "('w \<Rightarrow> 'w \<Rightarrow> bool) \<Rightarrow> ('w, 'e, 'a) io \<Rightarrow> bool" where
  "rel R m \<longleftrightarrow> (\<forall>w. R w (snd (m w)))"

lemma relD: "rel R m \<Longrightarrow> m w = (r, w') \<Longrightarrow> R w w'"
  unfolding rel_def by (metis snd_conv)

text \<open>Frames: \<open>same_tx\<close> leaves the open transaction alone, \<open>reads_only\<close> also the tables.\<close>

definition same_tx :: "world \<Rightarrow> world \<Rightarrow> bool" where
  "same_tx w w' \<longleftrightarrow> w_saved w' = w_saved w \<and> w_uuid w' = w_uuid w \<and> w_now w' = w_now w \<and>
     w_faults w' = w_faults w \<and> w_sent w' = w_sent w \<and> w_pub_faults w' = w_pub_faults w \<and>
     w_pubs w' = w_pubs w \<and> w_pr_schema w' = w_pr_schema w \<and>
     w_seq w \<le> w_seq w' \<and> w_draws w \<le> w_draws w'"

definition reads_only :: "world \<Rightarrow> world \<Rightarrow> bool" where
  "reads_only w w' \<longleftrightarrow> same_tx w w' \<and> w_tables w' = w_tables w \<and>
     w_seq w' = w_seq w \<and> w_draws w' = w_draws w"

named_theorems frame_intros \<open>frame lemmas of statements and functions\<close>

lemma same_tx_refl [simp, intro]: "same_tx w w"
  by (simp add: same_tx_def)

lemma same_tx_trans [trans]: "same_tx w w1 \<Longrightarrow> same_tx w1 w2 \<Longrightarrow> same_tx w w2"
  by (auto simp: same_tx_def)

lemma reads_only_refl [simp, intro]: "reads_only w w"
  by (simp add: reads_only_def)

lemma reads_only_trans [trans]: "reads_only w w1 \<Longrightarrow> reads_only w1 w2 \<Longrightarrow> reads_only w w2"
  by (auto simp: reads_only_def intro: same_tx_trans)

lemma reads_only_tick [simp, intro, frame_intros]: "reads_only w (tick_call w)"
  by (auto simp: reads_only_def same_tx_def)

lemma reads_only_same_tx: "reads_only w w' \<Longrightarrow> same_tx w w'"
  by (simp add: reads_only_def)

lemma same_txD:
  assumes "same_tx w w'"
  shows "w_saved w' = w_saved w" "w_uuid w' = w_uuid w" "w_now w' = w_now w"
    "w_faults w' = w_faults w" "w_sent w' = w_sent w"
  using assms by (simp_all add: same_tx_def)

lemma rel_ret [frame_intros]: "reflp R \<Longrightarrow> rel R (ret x)"
  by (simp add: rel_def reflp_def)

lemma rel_throw [frame_intros]: "reflp R \<Longrightarrow> rel R (throw e)"
  by (simp add: rel_def reflp_def)

lemma rel_andThen [frame_intros]:
  "transp R \<Longrightarrow> rel R m \<Longrightarrow> (\<And>x. rel R (k x)) \<Longrightarrow> rel R (andThen m k)"
  unfolding rel_def andThen_def transp_def
  by (auto split: prod.splits sum.splits) (metis snd_conv)+

lemma rel_attempt [frame_intros]:
  "transp R \<Longrightarrow> rel R m \<Longrightarrow> (\<And>r. rel R (k r)) \<Longrightarrow> rel R (attempt m k)"
  unfolding rel_def attempt_def transp_def
  by (auto split: prod.splits) (metis snd_conv)

lemma rel_db_call [frame_intros]:
  "transp R \<Longrightarrow> (\<And>w. R w (tick_call w)) \<Longrightarrow> rel R stmt \<Longrightarrow> rel R (db_call stmt)"
  unfolding rel_def db_call_def by (auto split: option.splits fault.splits intro: transpD)

lemma frame_rels [simp, intro, frame_intros]:
  "reflp same_tx" "transp same_tx" "reflp reads_only" "transp reads_only"
  "same_tx w (tick_call w)"
  by (auto simp: reflp_def transp_def intro: same_tx_trans reads_only_trans reads_only_same_tx)

lemma rel_weaken: "rel reads_only m \<Longrightarrow> rel same_tx m"
  by (auto simp: rel_def intro: reads_only_same_tx)

lemma uuid_param_ok [simp]: "uuid_text s \<Longrightarrow> uuid_param s stmt = stmt"
  by (simp add: uuid_param_def fun_eq_iff)

lemma uuid_param_bad [simp]: "\<not> uuid_text s \<Longrightarrow> uuid_param s stmt w = (Inl (PqError codeInvalidText), w)"
  by (simp add: uuid_param_def)

lemma uuid_param_InrD: "uuid_param s stmt w = (Inr x, w') \<Longrightarrow> uuid_text s \<and> stmt w = (Inr x, w')"
  by (simp add: uuid_param_def split: if_splits)

lemma uuid_param_frame [frame_intros]: "reflp R \<Longrightarrow> rel R stmt \<Longrightarrow> rel R (uuid_param s stmt)"
  by (simp add: rel_def uuid_param_def reflp_def)

lemma select_row_frame [frame_intros]: "rel reads_only (select_row P tab)"
  by (auto simp: rel_def select_row_def split: option.split)

lemma sql_read_frames [frame_intros]:
  "rel reads_only (sql_invoice_by_id i)" "rel reads_only (sql_invoice_by_idem i)"
  "rel reads_only (sql_invoice_by_reservation i)" "rel reads_only (sql_lines i)"
  by (auto simp: sql_invoice_by_id_def sql_invoice_by_idem_def sql_invoice_by_reservation_def
      sql_lines_def rel_def select_row_def uuid_param_def split: option.split)

lemma sql_write_frames [frame_intros]:
  "rel same_tx (sql_insert_invoice res drv fee idem)" "rel same_tx (sql_insert_line i k a m)"
  "rel same_tx (sql_insert_outbox i n p)" "rel same_tx (sql_close_invoice i n')"
  "rel same_tx (sql_add_total i n')"
  by (auto simp: sql_insert_invoice_def sql_insert_line_def sql_insert_outbox_def
      sql_close_invoice_def sql_add_total_def rel_def same_tx_def set_tables_def Let_def uuid_param_def
      split: option.split)

text \<open>A transaction whose body ends without a commit leaves the tables as they were.\<close>

lemma BeginTxx_E:
  assumes "BeginTxx w = (r, w')"
  obtains (failed) e where "r = Inl e" and "reads_only w w'"
  | (begun) "r = Inr ()" and "w' = (tick_call w)\<lparr>w_saved := Some (w_tables w)\<rparr>"
  using assms by (auto simp: BeginTxx_def split: option.splits fault.splits)

lemma rollback_saved [simp]: "w_saved (rollback w) = None"
  by (simp add: rollback_def split: option.split)

lemma rollback_None [simp]: "w_saved w = None \<Longrightarrow> rollback w = w"
  by (simp add: rollback_def)

lemma rollback_tables: "w_saved w = Some t \<Longrightarrow> w_tables (rollback w) = t"
  by (simp add: rollback_def)

lemma rollback_frame [simp]:
  "w_uuid (rollback w) = w_uuid w" "w_draws (rollback w) = w_draws w" "w_seq (rollback w) = w_seq w"
  "w_now (rollback w) = w_now w" "w_faults (rollback w) = w_faults w"
  "w_calls (rollback w) = w_calls w" "w_sent (rollback w) = w_sent w"
  "w_pub_faults (rollback w) = w_pub_faults w" "w_pubs (rollback w) = w_pubs w"
  "w_pr_schema (rollback w) = w_pr_schema w"
  by (simp_all add: rollback_def split: option.split)

lemma Commit_E:
  assumes "Commit w = (r, w')"
  obtains (committed) "r = Inr ()" and "w' = (tick_call w)\<lparr>w_saved := None\<rparr>"
  | (lost) e where "r = Inl e" and "w' = (tick_call w)\<lparr>w_saved := None\<rparr>"
  | (refused) e where "r = Inl e" and "w' = rollback (tick_call w)"
  using assms by (auto simp: Commit_def split: option.splits fault.splits)

text \<open>A world with no failure ahead.\<close>

definition quiet :: "world \<Rightarrow> bool" where
  "quiet w \<longleftrightarrow> w_faults w = (\<lambda>_. None)"

lemma quiet_simps:
  assumes "quiet w"
  shows "db_call stmt w = stmt (tick_call w)"
    "BeginTxx w = (Inr (), (tick_call w)\<lparr>w_saved := Some (w_tables w)\<rparr>)"
    "Commit w = (Inr (), (tick_call w)\<lparr>w_saved := None\<rparr>)" "quiet (tick_call w)"
  using assms by (simp_all add: quiet_def db_call_def BeginTxx_def Commit_def)

end
