(* ===== verification/Invoice_Repo.thy ===== *)
theory Invoice_Repo
  imports Postgres "HOL-Library.Multiset"
begin

text \<open>
  \<^verbatim>\<open>internal/billing/repository/postgres/invoice.go\<close>: the PostgreSQL invoice repository, statement by
  statement, and the interface \<open>InvoiceRepository\<close> of \<^verbatim>\<open>repository/type.go\<close> as a record of functions.
\<close>

section \<open>The interface\<close>

record 'w InvoiceRepository =
  ir_Open :: "string \<Rightarrow> string \<Rightarrow> string \<Rightarrow> int64 \<Rightarrow> json option \<Rightarrow> ('w, goerror, Invoice) io"
  ir_Close :: "string \<Rightarrow> MLineItem list \<Rightarrow> json option \<Rightarrow> ('w, goerror, Invoice) io"
  ir_GetByID :: "string \<Rightarrow> ('w, goerror, Invoice) io"
  ir_GetByReservationID :: "string \<Rightarrow> ('w, goerror, Invoice) io"
  ir_AppendLine :: "string \<Rightarrow> MLineItem \<Rightarrow> json option \<Rightarrow> ('w, goerror, Invoice) io"

section \<open>Rows\<close>

definition invoiceRow_toModel :: "invoice_row \<Rightarrow> Invoice" where
  "invoiceRow_toModel r =
     \<lparr>inv_ID = iv_id r, inv_ReservationID = iv_reservation_id r, inv_DriverID = iv_driver_id r,
      inv_Status = iv_status r, inv_LineItems = [], inv_BookingFeeIDR = 0, inv_ParkingFeeIDR = 0,
      inv_PaymentMethod = [], inv_PaymentRef = [], inv_TotalIDR = iv_total_idr r,
      inv_IdempotencyKey = (case iv_idempotency_key r of None \<Rightarrow> [] | Some k \<Rightarrow> k),
      inv_CreatedAt = iv_created_at r, inv_ClosedAt = iv_closed_at r, inv_PaidAt = iv_paid_at r\<rparr>"

text \<open>Metadata that is not a JSON object leaves the Go map nil.\<close>

definition lineRow_toModel :: "line_row \<Rightarrow> MLineItem" where
  "lineRow_toModel l =
     \<lparr>ml_ID = ln_id l, ml_InvoiceID = ln_invoice_id l, ml_Kind = ln_kind l,
      ml_AmountIDR = ln_amount_idr l,
      ml_Metadata = (case ln_metadata l of JObj kvs \<Rightarrow> Some kvs | _ \<Rightarrow> None),
      ml_CreatedAt = ln_created_at l\<rparr>"

section \<open>Operations\<close>

text \<open>The idiom \<open>if errors.Is(err, sql.ErrNoRows) { return nil, apperror.ErrNotFound }\<close>.\<close>

definition orNotFound :: "('w, goerror, 'a) io \<Rightarrow> ('w, goerror, 'a) io" where
  "orNotFound m =
     attempt m (\<lambda>r. case r of
       Inl err \<Rightarrow> if errors_Is err ErrNoRows then throw ErrNotFound else throw err
     | Inr x \<Rightarrow> ret x)"

definition fetchLines :: "string \<Rightarrow> MLineItem list dbio" where
  "fetchLines invoiceID =
     andThen (db_call (sql_lines invoiceID)) (\<lambda>rows. ret (map lineRow_toModel rows))"

definition invoiceRepo_GetByID :: "string \<Rightarrow> Invoice dbio" where
  "invoiceRepo_GetByID iid =
     andThen (orNotFound (db_call (sql_invoice_by_id iid))) (\<lambda>iv.
     andThen (fetchLines iid) (\<lambda>ls. ret ((invoiceRow_toModel iv)\<lparr>inv_LineItems := ls\<rparr>)))"

definition invoiceRepo_findByIdem :: "string \<Rightarrow> Invoice dbio" where
  "invoiceRepo_findByIdem idem =
     andThen (orNotFound (db_call (sql_invoice_by_idem idem))) (\<lambda>r. invoiceRepo_GetByID (iv_id r))"

definition invoiceRepo_GetByReservationID :: "string \<Rightarrow> Invoice dbio" where
  "invoiceRepo_GetByReservationID reservationID =
     andThen (orNotFound (db_call (sql_invoice_by_reservation reservationID)))
       (\<lambda>r. invoiceRepo_GetByID (iv_id r))"

definition invoiceRepo_Open ::
    "string \<Rightarrow> string \<Rightarrow> string \<Rightarrow> int64 \<Rightarrow> json option \<Rightarrow> Invoice dbio" where
  "invoiceRepo_Open reservationID driverID idem bookingFee evt =
     andThen BeginTxx (\<lambda>_. deferRollback (
       attempt (db_call (sql_insert_invoice reservationID driverID bookingFee idem)) (\<lambda>r.
         case r of
           Inl err \<Rightarrow>
             if errors_As_PqError err = Some codeUniqueViolation
             then andThen Rollback (\<lambda>_. invoiceRepo_findByIdem idem)
             else throw err
         | Inr (iid, _) \<Rightarrow>
             andThen (db_call (sql_insert_line iid MLineBooking bookingFee (JObj []))) (\<lambda>_.
             andThen (db_call (sql_insert_outbox iid EvtInvoiceOpened evt)) (\<lambda>_.
             andThen Commit (\<lambda>_. invoiceRepo_GetByID iid))))))"

definition insertLine :: "string \<Rightarrow> MLineItem \<Rightarrow> unit dbio" where
  "insertLine invoiceID l =
     (let md = (case ml_Metadata l of None \<Rightarrow> [] | Some m \<Rightarrow> m)
      in db_call (sql_insert_line invoiceID (ml_Kind l) (ml_AmountIDR l) (JObj md)))"

text \<open>The loop of \<open>Close\<close> over the priced lines, with \<open>newLineTotal\<close> as its accumulator.\<close>

fun closeLines :: "string \<Rightarrow> MLineItem list \<Rightarrow> int64 \<Rightarrow> int64 dbio" where
  "closeLines invoiceID [] newLineTotal = ret newLineTotal"
| "closeLines invoiceID (l # ls) newLineTotal =
     (if ml_Kind l = MLineBooking then closeLines invoiceID ls newLineTotal
      else andThen (insertLine invoiceID l) (\<lambda>_.
           closeLines invoiceID ls (newLineTotal + ml_AmountIDR l)))"

definition invoiceRepo_Close :: "string \<Rightarrow> MLineItem list \<Rightarrow> json option \<Rightarrow> Invoice dbio" where
  "invoiceRepo_Close invoiceID lines evt =
     andThen BeginTxx (\<lambda>_. deferRollback (
       andThen (orNotFound (db_call (sql_invoice_by_id invoiceID))) (\<lambda>row.
         if iv_status row \<noteq> InvoiceOpen
         then andThen Rollback (\<lambda>_. invoiceRepo_GetByID invoiceID)
         else
           andThen (closeLines invoiceID lines 0) (\<lambda>newLineTotal.
           andThen (db_call (sql_close_invoice invoiceID (iv_total_idr row + newLineTotal))) (\<lambda>_.
           andThen (db_call (sql_insert_outbox invoiceID EvtInvoiceClosed evt)) (\<lambda>_.
           andThen Commit (\<lambda>_. invoiceRepo_GetByID invoiceID)))))))"

definition invoiceRepo_AppendLine :: "string \<Rightarrow> MLineItem \<Rightarrow> json option \<Rightarrow> Invoice dbio" where
  "invoiceRepo_AppendLine invoiceID line evt =
     andThen BeginTxx (\<lambda>_. deferRollback (
       andThen (insertLine invoiceID line) (\<lambda>_.
       andThen (db_call (sql_add_total invoiceID (ml_AmountIDR line))) (\<lambda>_.
       andThen (if evt \<noteq> None
                then db_call (sql_insert_outbox invoiceID EvtInvoiceClosed evt) else ret ()) (\<lambda>_.
       andThen Commit (\<lambda>_. invoiceRepo_GetByID invoiceID))))))"

definition NewInvoiceRepository :: "world InvoiceRepository" where
  "NewInvoiceRepository =
     \<lparr>ir_Open = invoiceRepo_Open, ir_Close = invoiceRepo_Close, ir_GetByID = invoiceRepo_GetByID,
      ir_GetByReservationID = invoiceRepo_GetByReservationID,
      ir_AppendLine = invoiceRepo_AppendLine\<rparr>"

section \<open>What a committed operation does to the tables\<close>

definition outbox_row_of :: "int \<Rightarrow> string \<Rightarrow> string \<Rightarrow> json \<Rightarrow> Time \<Rightarrow> outbox_row" where
  "outbox_row_of n agg evtype p now =
     \<lparr>ob_id = n, ob_aggregate_type = ''invoice'', ob_aggregate_id = agg, ob_event_type = evtype,
      ob_payload = p, ob_created_at = now, ob_published_at = None\<rparr>"

definition add_outbox :: "outbox_row \<Rightarrow> tables \<Rightarrow> tables" where
  "add_outbox o1 t = t\<lparr>t_outbox_event := t_outbox_event t @ [o1]\<rparr>"

definition add_lines :: "line_row list \<Rightarrow> tables \<Rightarrow> tables" where
  "add_lines ls t = t\<lparr>t_invoice_line := t_invoice_line t @ ls\<rparr>"

definition add_invoice :: "invoice_row \<Rightarrow> tables \<Rightarrow> tables" where
  "add_invoice r t = t\<lparr>t_invoice := t_invoice t @ [r]\<rparr>"

definition map_invoices :: "(invoice_row \<Rightarrow> invoice_row) \<Rightarrow> tables \<Rightarrow> tables" where
  "map_invoices f t = t\<lparr>t_invoice := map f (t_invoice t)\<rparr>"

lemmas table_ops = add_outbox_def add_lines_def add_invoice_def map_invoices_def

definition line_of :: "string \<Rightarrow> Time \<Rightarrow> MLineItem \<Rightarrow> string \<Rightarrow> line_row" where
  "line_of iid now l lid =
     \<lparr>ln_id = lid, ln_invoice_id = iid, ln_kind = ml_Kind l, ln_amount_idr = ml_AmountIDR l,
      ln_metadata = JObj (case ml_Metadata l of None \<Rightarrow> [] | Some m \<Rightarrow> m), ln_created_at = now\<rparr>"

text \<open>Rows a table accepts one after the other: the constraints on the lines of one transaction.\<close>

fun lines_accepted :: "tables \<Rightarrow> line_row list \<Rightarrow> bool" where
  "lines_accepted t [] \<longleftrightarrow> True"
| "lines_accepted t (l # ls) \<longleftrightarrow>
     line_error t (ln_id l) (ln_invoice_id l) (ln_kind l) = None \<and> lines_accepted (add_lines [l] t) ls"

definition booking_item :: "int64 \<Rightarrow> MLineItem" where
  "booking_item fee =
     \<lparr>ml_ID = [], ml_InvoiceID = [], ml_Kind = MLineBooking, ml_AmountIDR = fee,
      ml_Metadata = None, ml_CreatedAt = 0\<rparr>"

definition opened_row ::
    "string \<Rightarrow> string \<Rightarrow> string \<Rightarrow> string \<Rightarrow> int64 \<Rightarrow> Time \<Rightarrow> invoice_row" where
  "opened_row iid res drv idem fee now =
     \<lparr>iv_id = iid, iv_reservation_id = res, iv_driver_id = drv, iv_status = InvoiceOpen,
      iv_total_idr = fee, iv_idempotency_key = Some idem, iv_created_at = now,
      iv_closed_at = None, iv_paid_at = None\<rparr>"

definition opens :: "string \<Rightarrow> string \<Rightarrow> string \<Rightarrow> int64 \<Rightarrow> json option \<Rightarrow> Time \<Rightarrow> string \<Rightarrow> int \<Rightarrow>
    tables \<Rightarrow> tables \<Rightarrow> bool" where
  "opens res drv idem fee evt now iid n t t' \<longleftrightarrow>
     (\<exists>lid p. evt = Some p \<and> uuid_text res \<and>
       (\<forall>r \<in> set (t_invoice t). iv_id r \<noteq> iid \<and> iv_reservation_id r \<noteq> res \<and>
          iv_idempotency_key r \<noteq> Some idem) \<and>
       (\<forall>l \<in> set (t_invoice_line t). ln_id l \<noteq> lid) \<and>
       t' = add_outbox (outbox_row_of n iid EvtInvoiceOpened p now)
              (add_lines [line_of iid now (booking_item fee) lid]
                (add_invoice (opened_row iid res drv idem fee now) t)))"

definition closes :: "string \<Rightarrow> MLineItem list \<Rightarrow> json option \<Rightarrow> Time \<Rightarrow> int \<Rightarrow> tables \<Rightarrow> tables \<Rightarrow> bool" where
  "closes iid items evt now n t t' \<longleftrightarrow>
     (\<exists>r ids p. evt = Some p \<and> find (\<lambda>r. iv_id r = iid) (t_invoice t) = Some r \<and>
        iv_status r = InvoiceOpen \<and>
        length ids = length (filter (\<lambda>l. ml_Kind l \<noteq> MLineBooking) items) \<and>
        lines_accepted t (map2 (line_of iid now) (filter (\<lambda>l. ml_Kind l \<noteq> MLineBooking) items) ids) \<and>
        t' = add_outbox (outbox_row_of n iid EvtInvoiceClosed p now)
               (map_invoices (close_row now iid (iv_total_idr r +
                   sum_list (map ml_AmountIDR (filter (\<lambda>l. ml_Kind l \<noteq> MLineBooking) items))))
                 (add_lines (map2 (line_of iid now) (filter (\<lambda>l. ml_Kind l \<noteq> MLineBooking) items) ids) t)))"

definition appends :: "string \<Rightarrow> MLineItem \<Rightarrow> json option \<Rightarrow> Time \<Rightarrow> int \<Rightarrow> tables \<Rightarrow> tables \<Rightarrow> bool" where
  "appends iid item evt now n t t' \<longleftrightarrow>
     (\<exists>lid. lines_accepted t [line_of iid now item lid] \<and>
        (\<forall>r \<in> set (t_invoice t). iv_id r = iid \<longrightarrow>
           int64_ok (sint (iv_total_idr r) + sint (ml_AmountIDR item))) \<and>
        t' = (case evt of None \<Rightarrow> (\<lambda>t. t) | Some p \<Rightarrow> add_outbox (outbox_row_of n iid EvtInvoiceClosed p now))
               (map_invoices (add_row iid (ml_AmountIDR item))
                 (add_lines [line_of iid now item lid] t)))"

section \<open>Frames and single statements\<close>

lemma orNotFound_frame [frame_intros]: "reflp R \<Longrightarrow> transp R \<Longrightarrow> rel R m \<Longrightarrow> rel R (orNotFound m)"
  unfolding orNotFound_def by (rule rel_attempt) (auto split: sum.split intro!: frame_intros)

lemma read_frames [frame_intros]:
  "rel reads_only (fetchLines i)" "rel reads_only (invoiceRepo_GetByID i)"
  "rel reads_only (invoiceRepo_findByIdem i)" "rel reads_only (invoiceRepo_GetByReservationID i)"
  unfolding fetchLines_def invoiceRepo_GetByID_def invoiceRepo_findByIdem_def
    invoiceRepo_GetByReservationID_def
  by (intro frame_intros; auto intro: frame_intros)+

lemma insertLine_frame [frame_intros]: "rel same_tx (insertLine i l)"
  unfolding insertLine_def Let_def by (intro frame_intros; simp)

lemma closeLines_frame [frame_intros]: "rel same_tx (closeLines i ls acc)"
  by (induction ls arbitrary: acc) (auto intro!: frame_intros)

section \<open>Reads\<close>

text \<open>The invoice a row and its lines denote.\<close>

definition invoice_of :: "tables \<Rightarrow> invoice_row \<Rightarrow> Invoice" where
  "invoice_of t r = (invoiceRow_toModel r)\<lparr>inv_LineItems :=
     map lineRow_toModel (sort_key (\<lambda>l. (ln_created_at l, ln_id l)) (lines_of t (iv_id r)))\<rparr>"

lemma invoice_of_sel [simp]:
  "inv_ID (invoice_of t r) = iv_id r" "inv_Status (invoice_of t r) = iv_status r"
  "inv_ReservationID (invoice_of t r) = iv_reservation_id r"
  "inv_DriverID (invoice_of t r) = iv_driver_id r" "inv_TotalIDR (invoice_of t r) = iv_total_idr r"
  "inv_ClosedAt (invoice_of t r) = iv_closed_at r"
  by (simp_all add: invoice_of_def invoiceRow_toModel_def)

lemma db_error_not_Is [simp]:
  "\<not> errors_Is (go_of_dberror e) ErrNoRows \<and> \<not> errors_Is (go_of_dberror e) ErrNotFound"
  by (cases e) (simp_all add: ErrNotFound_def)

lemma select_E:
  assumes "orNotFound (db_call (select_row P tab)) w = (r, w')"
  obtains (row) x where "r = Inr x" "find P (tab (w_tables w)) = Some x"
  | (none) "r = Inl ErrNotFound" "find P (tab (w_tables w)) = None"
  | (fault) e where "r = Inl (go_of_dberror e)"
  using assms
  by (auto simp: orNotFound_def attempt_def db_call_def select_row_def
      split: option.splits fault.splits if_splits)

lemma GetByID_Inr:
  assumes "invoiceRepo_GetByID iid w = (Inr ivc, w')"
  shows "\<exists>r. find (\<lambda>r. iv_id r = iid) (t_invoice (w_tables w)) = Some r \<and> ivc = invoice_of (w_tables w) r"
proof -
  obtain r w1 ls where 1: "orNotFound (db_call (sql_invoice_by_id iid)) w = (Inr r, w1)"
    and 2: "fetchLines iid w1 = (Inr ls, w')" and 3: "ivc = (invoiceRow_toModel r)\<lparr>inv_LineItems := ls\<rparr>"
    using assms by (auto simp: invoiceRepo_GetByID_def elim!: andThen_InrE)
  have f: "find (\<lambda>r. iv_id r = iid) (t_invoice (w_tables w)) = Some r"
    using select_E [OF 1 [unfolded sql_invoice_by_id_def]] by auto
  have "rel reads_only (orNotFound (db_call (sql_invoice_by_id iid)))" by (intro frame_intros)
  then have "w_tables w1 = w_tables w" using relD 1 by (fastforce simp: reads_only_def)
  moreover have "iv_id r = iid" using find_Some_mem [OF f] by simp
  ultimately have "ivc = invoice_of (w_tables w) r" using 2 3
    by (auto simp: fetchLines_def invoice_of_def sql_lines_def elim!: andThen_InrE dest!: db_call_Inr)
  with f show ?thesis by blast
qed

lemma find_row_Inr:
  assumes "andThen (orNotFound (db_call (select_row P t_invoice))) (\<lambda>r. invoiceRepo_GetByID (iv_id r)) w
             = (Inr ivc, w')"
    and "distinct (map iv_id (t_invoice (w_tables w)))"
  shows "\<exists>r. find P (t_invoice (w_tables w)) = Some r \<and> ivc = invoice_of (w_tables w) r"
proof -
  obtain r w1 where 1: "orNotFound (db_call (select_row P t_invoice)) w = (Inr r, w1)"
    and 2: "invoiceRepo_GetByID (iv_id r) w1 = (Inr ivc, w')" using assms by (auto elim!: andThen_InrE)
  have f: "find P (t_invoice (w_tables w)) = Some r" using select_E [OF 1] by auto
  have "rel reads_only (orNotFound (db_call (select_row P t_invoice)))" by (intro frame_intros)
  then have "w_tables w1 = w_tables w" using relD 1 by (fastforce simp: reads_only_def)
  moreover have "find (\<lambda>q. iv_id q = iv_id r) (t_invoice (w_tables w)) = Some r"
    using find_distinct_map [OF assms(2)] find_Some_mem [OF f] by blast
  ultimately show ?thesis using GetByID_Inr [OF 2] f by auto
qed

text \<open>A reservation number that is not a UUID is refused; the error is not the absence of a row.\<close>

lemma GetByReservation_bad:
  assumes "invoiceRepo_GetByReservationID res w = (r, w')" "\<not> uuid_text res"
  shows "\<exists>e. r = Inl e \<and> \<not> errors_Is e ErrNotFound"
proof -
  have "\<not> errors_Is (PqError codeInvalidText) ErrNotFound" by (simp add: ErrNotFound_def)
  then show ?thesis using assms
    by (auto simp: invoiceRepo_GetByReservationID_def sql_invoice_by_reservation_def orNotFound_def andThen_def
        attempt_def db_call_def split: option.splits fault.splits)
qed

lemma GetByID_total:
  assumes "quiet w" "find (\<lambda>r. iv_id r = iid) (t_invoice (w_tables w)) = Some r"
  shows "\<exists>w'. invoiceRepo_GetByID iid w = (Inr (invoice_of (w_tables w) r), w')"
proof -
  have "iv_id r = iid" using find_Some_mem [OF assms(2)] by simp
  with assms show ?thesis
    by (simp add: invoiceRepo_GetByID_def orNotFound_def fetchLines_def andThen_def attempt_def
        quiet_simps sql_invoice_by_id_def select_row_def sql_lines_def invoice_of_def)
qed

text \<open>Every error of a read is the absence of the row or a failure of the database.\<close>

lemma GetByID_NotFound:
  assumes "invoiceRepo_GetByID iid w = (Inl e, w')" "errors_Is e ErrNotFound"
  shows "find (\<lambda>r. iv_id r = iid) (t_invoice (w_tables w)) = None"
  using assms
  by (auto simp: invoiceRepo_GetByID_def fetchLines_def sql_invoice_by_id_def
      sql_lines_def db_call_def split: option.splits fault.splits elim!: andThen_E select_E)

section \<open>Transactions: all or nothing\<close>

lemma insertLine_Inr:
  assumes "insertLine iid l w = (Inr x, w')"
  shows "\<exists>lid. lines_accepted (w_tables w) [line_of iid (w_now w) l lid] \<and>
           w_tables w' = add_lines [line_of iid (w_now w) l lid] (w_tables w)"
  using assms
  by (intro exI [of _ "w_uuid w (w_draws w)"])
    (auto simp: insertLine_def Let_def sql_insert_line_def line_of_def add_lines_def
      split: option.splits dest!: db_call_Inr)

lemma add_lines_append: "add_lines (ls @ ms) t = add_lines ms (add_lines ls t)"
  by (simp add: add_lines_def)

lemma add_lines_Nil [simp]: "add_lines [] t = t"
  by (simp add: add_lines_def)

lemma closeLines_Inr:
  assumes "closeLines iid ls acc w = (Inr tot, w')"
  shows "\<exists>ids. length ids = length (filter (\<lambda>l. ml_Kind l \<noteq> MLineBooking) ls) \<and>
     lines_accepted (w_tables w)
       (map2 (line_of iid (w_now w)) (filter (\<lambda>l. ml_Kind l \<noteq> MLineBooking) ls) ids) \<and>
     w_tables w' = add_lines
       (map2 (line_of iid (w_now w)) (filter (\<lambda>l. ml_Kind l \<noteq> MLineBooking) ls) ids) (w_tables w) \<and>
     tot = acc + sum_list (map ml_AmountIDR (filter (\<lambda>l. ml_Kind l \<noteq> MLineBooking) ls))"
  using assms
proof (induction ls arbitrary: acc w)
  case Nil
  then show ?case by simp
next
  case (Cons l ls)
  show ?case
  proof (cases "ml_Kind l = MLineBooking")
    case True
    with Cons show ?thesis by simp
  next
    case False
    then obtain w1 where 1: "insertLine iid l w = (Inr (), w1)"
      and 2: "closeLines iid ls (acc + ml_AmountIDR l) w1 = (Inr tot, w')"
      using Cons.prems by (auto elim!: andThen_InrE)
    have now: "w_now w1 = w_now w"
      using relD [OF insertLine_frame 1] by (simp add: same_tx_def)
    obtain lid where lid: "lines_accepted (w_tables w) [line_of iid (w_now w) l lid]"
      "w_tables w1 = add_lines [line_of iid (w_now w) l lid] (w_tables w)"
      using insertLine_Inr [OF 1] by blast
    obtain ids where ids: "length ids = length (filter (\<lambda>l. ml_Kind l \<noteq> MLineBooking) ls)"
      "lines_accepted (w_tables w1)
         (map2 (line_of iid (w_now w)) (filter (\<lambda>l. ml_Kind l \<noteq> MLineBooking) ls) ids)"
      "w_tables w' = add_lines
         (map2 (line_of iid (w_now w)) (filter (\<lambda>l. ml_Kind l \<noteq> MLineBooking) ls) ids) (w_tables w1)"
      "tot = acc + ml_AmountIDR l +
         sum_list (map ml_AmountIDR (filter (\<lambda>l. ml_Kind l \<noteq> MLineBooking) ls))"
      using Cons.IH [OF 2] unfolding now by blast
    show ?thesis
      using False lid ids add_lines_append [of "[line_of iid (w_now w) l lid]"
          "map2 (line_of iid (w_now w)) (filter (\<lambda>l. ml_Kind l \<noteq> MLineBooking) ls) ids" "w_tables w"]
      by (intro exI [of _ "lid # ids"]) (simp add: add.assoc)
  qed
qed

text \<open>
  A run of a transactional function: the transaction does not begin, or its body runs in it. While
  no statement fails, \<open>in_tx\<close> holds of the world at \<open>BEGIN\<close> and the current one.
\<close>

definition in_tx :: "world \<Rightarrow> world \<Rightarrow> bool" where
  "in_tx w w1 \<longleftrightarrow> w_saved w = None \<and> w_saved w1 = Some (w_tables w) \<and> same_tx w (w1\<lparr>w_saved := None\<rparr>)"

lemma in_tx_step: "in_tx w w1 \<Longrightarrow> same_tx w1 w2 \<Longrightarrow> in_tx w w2"
  by (auto simp: in_tx_def same_tx_def)

lemma in_txD: "in_tx w w1 \<Longrightarrow> w_now w1 = w_now w \<and> w_seq w \<le> w_seq w1"
  by (auto simp: in_tx_def same_tx_def)

lemma in_tx_rollback: "in_tx w w1 \<Longrightarrow> same_tx w (rollback w1) \<and> w_tables (rollback w1) = w_tables w"
  by (auto simp: in_tx_def same_tx_def rollback_def)

lemma tx_E:
  assumes "andThen BeginTxx (\<lambda>_. deferRollback body) w = (r, w')" and "w_saved w = None"
  obtains (no_tx) e where "r = Inl e" and "reads_only w w'"
  | (ran) w1 w2 where "body w1 = (r, w2)" and "w' = rollback w2" and "in_tx w w1"
      and "w_tables w1 = w_tables w"
  using assms(1)
proof (cases rule: andThen_E)
  case (failed e)
  then show ?thesis using no_tx by (auto elim: BeginTxx_E)
next
  case (went_on x w1)
  then obtain w2 where "body w1 = (r, w2)" "w' = rollback w2"
    by (auto simp: deferRollback_def split: prod.splits)
  moreover have "w1 = (tick_call w)\<lparr>w_saved := Some (w_tables w)\<rparr>"
    using went_on(1) by (auto elim: BeginTxx_E)
  ultimately show ?thesis using ran assms(2) by (auto simp: same_tx_def in_tx_def)
qed

text \<open>The next statement: the body stops at its error, or goes on inside the transaction.\<close>

lemma tx_bind:
  assumes "andThen m k w1 = (r, w2)" and "in_tx w w1" and "rel same_tx m"
    and "\<not> ((\<exists>e. r = Inl e) \<and> in_tx w w2)"
  obtains x w3 where "m w1 = (Inr x, w3)" and "in_tx w w3" and "k x w3 = (r, w2)"
  using assms(1)
proof (cases rule: andThen_E)
  case (failed e)
  then show ?thesis using assms(2-4) relD in_tx_step by metis
next
  case (went_on x w3)
  then show ?thesis using that assms(2,3) relD in_tx_step by metis
qed

lemma tx_bind_unit:
  assumes "andThen m (\<lambda>_ :: unit. k) w1 = (r, w2)" and "in_tx w w1" and "rel same_tx m"
    and "\<not> ((\<exists>e. r = Inl e) \<and> in_tx w w2)"
  obtains w3 where "m w1 = (Inr (), w3)" and "in_tx w w3" and "k w3 = (r, w2)"
  by (rule tx_bind [OF assms]) simp

text \<open>\<open>x\<close> is what the read \<open>k\<close> returned on the tables \<open>t\<close>.\<close>

definition returned :: "'a dbio \<Rightarrow> 'a \<Rightarrow> tables \<Rightarrow> bool" where
  "returned k x t \<longleftrightarrow> (\<exists>w w'. k w = (Inr x, w') \<and> w_tables w = t)"

lemma tx_commit_read:
  assumes "andThen Commit (\<lambda>_. k) w2 = (r, w3)" and "rel reads_only k" and "in_tx w w2"
  shows "same_tx w (rollback w3) \<and> w_seq w2 \<le> w_seq (rollback w3) \<and>
    (w_tables (rollback w3) = w_tables w \<and> (\<exists>e. r = Inl e) \<or>
     w_tables (rollback w3) = w_tables w2 \<and>
       (\<forall>x. r = Inr x \<longrightarrow> returned k x (w_tables w2)))"
  using assms(1)
proof (cases rule: andThen_E)
  case (failed e)
  then show ?thesis using assms(3)
    by (auto simp: same_tx_def rollback_def in_tx_def elim!: Commit_E)
next
  case (went_on x w4)
  have w4: "w4 = (tick_call w2)\<lparr>w_saved := None\<rparr>" using went_on(1) by (auto elim!: Commit_E)
  have "reads_only w4 w3" using relD [OF assms(2) went_on(2)] .
  then have "rollback w3 = w3" "w_tables w3 = w_tables w2" "same_tx w w3" "w_seq w3 = w_seq w2"
    using w4 assms(3) by (auto simp: reads_only_def same_tx_def in_tx_def)
  then show ?thesis using went_on(2) w4 by (auto simp: returned_def)
qed

text \<open>The replay branches: \<open>tx.Rollback()\<close>, then a read outside the transaction.\<close>

lemma tx_rollback_read:
  assumes "andThen Rollback (\<lambda>_. k) w2 = (r, w3)" and "rel reads_only k" and "in_tx w w2"
  shows "same_tx w (rollback w3) \<and> w_tables (rollback w3) = w_tables w \<and>
    (\<forall>x. r = Inr x \<longrightarrow> returned k x (w_tables w))"
proof -
  have k: "k (rollback w2) = (r, w3)" using assms(1) by (simp add: Rollback_def andThen_def)
  have "reads_only (rollback w2) w3" using relD [OF assms(2) k] .
  then show ?thesis using k in_tx_rollback [OF assms(3)]
    by (auto simp: reads_only_def same_tx_def returned_def)
qed

lemma insert_invoice_Inr:
  assumes "db_call (sql_insert_invoice res drv fee idem) w = (Inr (iid, c), w')"
  shows "uuid_text res \<and> (\<forall>r \<in> set (t_invoice (w_tables w)). iv_id r \<noteq> iid \<and> iv_reservation_id r \<noteq> res \<and>
            iv_idempotency_key r \<noteq> Some idem) \<and>
         w_tables w' = add_invoice (opened_row iid res drv idem fee (w_now w)) (w_tables w)"
  using assms
  by (auto simp: sql_insert_invoice_def Let_def add_invoice_def opened_row_def
      split: if_splits dest!: db_call_Inr uuid_param_InrD)

lemma insert_outbox_Inr:
  assumes "db_call (sql_insert_outbox agg n evt) w = (Inr x, w')"
  shows "\<exists>p. evt = Some p \<and> w_seq w' = w_seq w + 1 \<and>
    w_tables w' = add_outbox (outbox_row_of (w_seq w) agg n p (w_now w)) (w_tables w)"
  using assms
  by (auto simp: sql_insert_outbox_def Let_def add_outbox_def outbox_row_of_def
      split: option.splits dest!: db_call_Inr)

lemma insert_booking_Inr:
  assumes "db_call (sql_insert_line iid MLineBooking fee (JObj [])) w = (Inr x, w')"
  shows "\<exists>lid. (\<forall>l \<in> set (t_invoice_line (w_tables w)). ln_id l \<noteq> lid) \<and>
    w_tables w' = add_lines [line_of iid (w_now w) (booking_item fee) lid] (w_tables w)"
  using assms
  by (intro exI [of _ "w_uuid w (w_draws w)"])
    (auto simp: sql_insert_line_def Let_def add_lines_def line_of_def booking_item_def line_error_def
      split: option.splits if_splits dest!: db_call_Inr)

lemma close_invoice_Inr:
  "db_call (sql_close_invoice iid tot) w = (Inr x, w') \<Longrightarrow>
   w_tables w' = map_invoices (close_row (w_now w) iid tot) (w_tables w)"
  by (auto simp: sql_close_invoice_def map_invoices_def dest!: db_call_Inr)

lemma add_total_Inr:
  "db_call (sql_add_total iid a) w = (Inr x, w') \<Longrightarrow>
   (\<forall>r \<in> set (t_invoice (w_tables w)). iv_id r = iid \<longrightarrow> int64_ok (sint (iv_total_idr r) + sint a)) \<and>
   w_tables w' = map_invoices (add_row iid a) (w_tables w)"
  by (auto simp: sql_add_total_def map_invoices_def split: if_splits dest!: db_call_Inr)

lemmas statement_frames =
  sql_write_frames [THEN rel_db_call [OF frame_rels(2) frame_rels(5)]]

text \<open>
  Whatever fails on the way, \<open>Open\<close> leaves the tables alone or has committed the invoice, its
  booking line and its event together; a value it returns was read back from the tables.
\<close>

lemma Open_effect:
  assumes "invoiceRepo_Open res drv idem fee evt w = (r, w')" and "w_saved w = None"
  shows "same_tx w w' \<and>
    (w_tables w' = w_tables w \<and>
       (\<forall>x. r = Inr x \<longrightarrow> returned (invoiceRepo_findByIdem idem) x (w_tables w)) \<or>
     (\<exists>iid n. w_seq w \<le> n \<and> n < w_seq w' \<and>
        opens res drv idem fee evt (w_now w) iid n (w_tables w) (w_tables w') \<and>
        (\<forall>x. r = Inr x \<longrightarrow> returned (invoiceRepo_GetByID iid) x (w_tables w'))))"
  using assms unfolding invoiceRepo_Open_def
proof (cases rule: tx_E)
  case (no_tx e)
  then show ?thesis by (auto simp: reads_only_def)
next
  case (ran w1 w2)
  show ?thesis
  proof (cases "(\<exists>e. r = Inl e) \<and> in_tx w w2")
    case True
    then show ?thesis using ran(2) in_tx_rollback by auto
  next
    case go_on: False
    from ran(1) obtain s w3 where ins: "db_call (sql_insert_invoice res drv fee idem) w1 = (s, w3)"
      and k: "(case s of
           Inl err \<Rightarrow>
             if errors_As_PqError err = Some codeUniqueViolation
             then andThen Rollback (\<lambda>_. invoiceRepo_findByIdem idem)
             else throw err
         | Inr (iid, _) \<Rightarrow>
             andThen (db_call (sql_insert_line iid MLineBooking fee (JObj []))) (\<lambda>_.
             andThen (db_call (sql_insert_outbox iid EvtInvoiceOpened evt)) (\<lambda>_.
             andThen Commit (\<lambda>_. invoiceRepo_GetByID iid)))) w3 = (r, w2)"
      by (auto elim: attempt_E)
    have t3: "in_tx w w3" using in_tx_step [OF ran(3) relD [OF statement_frames(1) ins]] .
    show ?thesis
    proof (cases s)
      case (Inl err)
      with k go_on t3 have "andThen Rollback (\<lambda>_. invoiceRepo_findByIdem idem) w3 = (r, w2)"
        by (auto split: if_splits)
      from tx_rollback_read [OF this read_frames(3) t3] show ?thesis using ran(2) by auto
    next
      case (Inr p)
      obtain iid c where p: "p = (iid, c)" by force
      have i: "uuid_text res" "\<forall>r \<in> set (t_invoice (w_tables w)). iv_id r \<noteq> iid \<and> iv_reservation_id r \<noteq> res \<and>
            iv_idempotency_key r \<noteq> Some idem"
        "w_tables w3 = add_invoice (opened_row iid res drv idem fee (w_now w)) (w_tables w)"
        using insert_invoice_Inr ins Inr p ran(4) in_txD [OF ran(3)] by metis+
      from k Inr p have "andThen (db_call (sql_insert_line iid MLineBooking fee (JObj []))) (\<lambda>_.
             andThen (db_call (sql_insert_outbox iid EvtInvoiceOpened evt)) (\<lambda>_.
             andThen Commit (\<lambda>_. invoiceRepo_GetByID iid))) w3 = (r, w2)" by simp
      then obtain w4 where l4: "db_call (sql_insert_line iid MLineBooking fee (JObj [])) w3 = (Inr (), w4)"
        and t4: "in_tx w w4" and k4: "andThen (db_call (sql_insert_outbox iid EvtInvoiceOpened evt)) (\<lambda>_.
             andThen Commit (\<lambda>_. invoiceRepo_GetByID iid)) w4 = (r, w2)"
        by (rule tx_bind_unit [OF _ t3 statement_frames(2) go_on])
      obtain w5 where o5: "db_call (sql_insert_outbox iid EvtInvoiceOpened evt) w4 = (Inr (), w5)"
        and t5: "in_tx w w5" and k5: "andThen Commit (\<lambda>_. invoiceRepo_GetByID iid) w5 = (r, w2)"
        by (rule tx_bind_unit [OF k4 t4 statement_frames(3) go_on])
      have "opens res drv idem fee evt (w_now w) iid (w_seq w4) (w_tables w) (w_tables w5) \<and>
          w_seq w5 = w_seq w4 + 1"
        using i insert_booking_Inr [OF l4] insert_outbox_Inr [OF o5] in_txD [OF t3] in_txD [OF t4]
        by (auto simp: opens_def add_invoice_def)
      moreover have "w_seq w \<le> w_seq w4" using in_txD [OF t4] by simp
      ultimately show ?thesis using tx_commit_read [OF k5 read_frames(2) t5] unfolding ran(2)
        by (smt (verit, del_insts) Inl_Inr_False)
    qed
  qed
qed

lemma returned_GetByID:
  "returned (invoiceRepo_GetByID iid) x t \<Longrightarrow>
   \<exists>r. find (\<lambda>r. iv_id r = iid) (t_invoice t) = Some r \<and> x = invoice_of t r"
  unfolding returned_def using GetByID_Inr by blast

lemma lookup_frame: "rel reads_only (orNotFound (db_call (sql_invoice_by_id iid)))"
  by (intro frame_intros)

lemma Close_effect:
  assumes "invoiceRepo_Close iid items evt w = (r, w')" and "w_saved w = None"
  shows "same_tx w w' \<and>
    (w_tables w' = w_tables w \<and>
       (\<forall>x. r = Inr x \<longrightarrow> returned (invoiceRepo_GetByID iid) x (w_tables w) \<and> inv_Status x \<noteq> InvoiceOpen) \<or>
     (\<exists>n. w_seq w \<le> n \<and> n < w_seq w' \<and>
        closes iid items evt (w_now w) n (w_tables w) (w_tables w') \<and>
        (\<forall>x. r = Inr x \<longrightarrow> returned (invoiceRepo_GetByID iid) x (w_tables w'))))"
  using assms unfolding invoiceRepo_Close_def
proof (cases rule: tx_E)
  case (no_tx e)
  then show ?thesis by (auto simp: reads_only_def)
next
  case (ran w1 w2)
  show ?thesis
  proof (cases "(\<exists>e. r = Inl e) \<and> in_tx w w2")
    case True
    then show ?thesis using ran(2) in_tx_rollback by auto
  next
    case go_on: False
    obtain row w3 where sel: "orNotFound (db_call (sql_invoice_by_id iid)) w1 = (Inr row, w3)"
      and t3: "in_tx w w3" and k3: "(if iv_status row \<noteq> InvoiceOpen
         then andThen Rollback (\<lambda>_. invoiceRepo_GetByID iid)
         else andThen (closeLines iid items 0) (\<lambda>newLineTotal.
           andThen (db_call (sql_close_invoice iid (iv_total_idr row + newLineTotal))) (\<lambda>_.
           andThen (db_call (sql_insert_outbox iid EvtInvoiceClosed evt)) (\<lambda>_.
           andThen Commit (\<lambda>_. invoiceRepo_GetByID iid))))) w3 = (r, w2)"
      using tx_bind [OF ran(1,3) rel_weaken [OF lookup_frame] go_on] by blast
    have f: "find (\<lambda>r. iv_id r = iid) (t_invoice (w_tables w)) = Some row"
      using select_E [OF sel [unfolded sql_invoice_by_id_def]] ran(4) by auto
    have tab3: "w_tables w3 = w_tables w"
      using relD [OF lookup_frame sel] ran(4) by (simp add: reads_only_def)
    show ?thesis
    proof (cases "iv_status row = InvoiceOpen")
      case False
      then have "andThen Rollback (\<lambda>_. invoiceRepo_GetByID iid) w3 = (r, w2)" using k3 by simp
      from tx_rollback_read [OF this read_frames(2) t3] have
        "same_tx w w'" "w_tables w' = w_tables w"
        "\<forall>x. r = Inr x \<longrightarrow> returned (invoiceRepo_GetByID iid) x (w_tables w)"
        by (auto simp: ran(2))
      moreover have "inv_Status x \<noteq> InvoiceOpen"
        if "returned (invoiceRepo_GetByID iid) x (w_tables w)" for x
        using returned_GetByID [OF that] False f by auto
      ultimately show ?thesis by (intro conjI disjI1 allI impI) auto
    next
      case True
      from k3 True obtain tot w4 where c4: "closeLines iid items 0 w3 = (Inr tot, w4)" and t4: "in_tx w w4"
        and k4: "andThen (db_call (sql_close_invoice iid (iv_total_idr row + tot))) (\<lambda>_.
           andThen (db_call (sql_insert_outbox iid EvtInvoiceClosed evt)) (\<lambda>_.
           andThen Commit (\<lambda>_. invoiceRepo_GetByID iid))) w4 = (r, w2)"
        by (auto elim: tx_bind [OF _ t3 closeLines_frame go_on])
      obtain w5 where c5: "db_call (sql_close_invoice iid (iv_total_idr row + tot)) w4 = (Inr (), w5)"
        and t5: "in_tx w w5" and k5: "andThen (db_call (sql_insert_outbox iid EvtInvoiceClosed evt)) (\<lambda>_.
           andThen Commit (\<lambda>_. invoiceRepo_GetByID iid)) w5 = (r, w2)"
        by (rule tx_bind_unit [OF k4 t4 statement_frames(4) go_on])
      obtain w6 where c6: "db_call (sql_insert_outbox iid EvtInvoiceClosed evt) w5 = (Inr (), w6)"
        and t6: "in_tx w w6" and k6: "andThen Commit (\<lambda>_. invoiceRepo_GetByID iid) w6 = (r, w2)"
        by (rule tx_bind_unit [OF k5 t5 statement_frames(3) go_on])
      have "closes iid items evt (w_now w) (w_seq w5) (w_tables w) (w_tables w6) \<and> w_seq w6 = w_seq w5 + 1"
        using closeLines_Inr [OF c4] close_invoice_Inr [OF c5] insert_outbox_Inr [OF c6] f True tab3
          in_txD [OF t3] in_txD [OF t4] in_txD [OF t5]
        unfolding closes_def by fastforce
      moreover have "w_seq w \<le> w_seq w5" using in_txD [OF t5] by simp
      ultimately show ?thesis using tx_commit_read [OF k6 read_frames(2) t6] unfolding ran(2)
        by (smt (verit, del_insts) Inl_Inr_False)
    qed
  qed
qed

lemma AppendLine_effect:
  assumes "invoiceRepo_AppendLine iid item evt w = (r, w')" and "w_saved w = None"
  shows "same_tx w w' \<and>
    (w_tables w' = w_tables w \<and> (\<exists>e. r = Inl e) \<or>
     (\<exists>n. w_seq w \<le> n \<and> (evt \<noteq> None \<longrightarrow> n < w_seq w') \<and>
        appends iid item evt (w_now w) n (w_tables w) (w_tables w') \<and>
        (\<forall>x. r = Inr x \<longrightarrow> returned (invoiceRepo_GetByID iid) x (w_tables w'))))"
  using assms unfolding invoiceRepo_AppendLine_def
proof (cases rule: tx_E)
  case (no_tx e)
  then show ?thesis by (auto simp: reads_only_def)
next
  case (ran w1 w2)
  show ?thesis
  proof (cases "(\<exists>e. r = Inl e) \<and> in_tx w w2")
    case True
    then show ?thesis using ran(2) in_tx_rollback by auto
  next
    case go_on: False
    let ?ev = "if evt \<noteq> None then db_call (sql_insert_outbox iid EvtInvoiceClosed evt) else ret ()"
    have evf: "rel same_tx ?ev" by (auto intro!: frame_intros)
    obtain w3 where c3: "insertLine iid item w1 = (Inr (), w3)" and t3: "in_tx w w3"
      and k3: "andThen (db_call (sql_add_total iid (ml_AmountIDR item))) (\<lambda>_. andThen ?ev (\<lambda>_.
         andThen Commit (\<lambda>_. invoiceRepo_GetByID iid))) w3 = (r, w2)"
      by (rule tx_bind_unit [OF ran(1,3) insertLine_frame go_on])
    obtain w4 where c4: "db_call (sql_add_total iid (ml_AmountIDR item)) w3 = (Inr (), w4)"
      and t4: "in_tx w w4" and k4: "andThen ?ev (\<lambda>_.
         andThen Commit (\<lambda>_. invoiceRepo_GetByID iid)) w4 = (r, w2)"
      by (rule tx_bind_unit [OF k3 t3 statement_frames(5) go_on])
    obtain w5 where c5: "?ev w4 = (Inr (), w5)"
      and t5: "in_tx w w5" and k5: "andThen Commit (\<lambda>_. invoiceRepo_GetByID iid) w5 = (r, w2)"
      by (rule tx_bind_unit [OF k4 t4 evf go_on])
    have ev: "w_tables w5 = (case evt of None \<Rightarrow> (\<lambda>t. t)
         | Some p \<Rightarrow> add_outbox (outbox_row_of (w_seq w4) iid EvtInvoiceClosed p (w_now w))) (w_tables w4) \<and>
        (evt \<noteq> None \<longrightarrow> w_seq w5 = w_seq w4 + 1)"
      using c5 insert_outbox_Inr [of iid EvtInvoiceClosed evt w4 "()" w5] in_txD [OF t4]
      by (cases evt) auto
    have "appends iid item evt (w_now w) (w_seq w4) (w_tables w) (w_tables w5)"
      using insertLine_Inr [OF c3] add_total_Inr [OF c4] ev ran(4) in_txD [OF ran(3)]
      unfolding appends_def by (auto simp: add_lines_def)
    moreover have "w_seq w \<le> w_seq w4" using in_txD [OF t4] by simp
    moreover note ev tx_commit_read [OF k5 read_frames(2) t5]
    ultimately show ?thesis unfolding ran(2) by (smt (verit, del_insts) Inl_Inr_False)
  qed
qed

end
