(* ===== verification/Ledger.thy ===== *)
theory Ledger
  imports Invoice_Repo
begin

text \<open>
  What the invoice tables mean: the ledger of invoices a client of \<open>InvoiceRepository\<close> sees, the
  invariants of the tables, the contract of the repository as a locale, and its interpretation on
  the PostgreSQL repository.
\<close>

section \<open>Invariants of the tables\<close>

text \<open>The constraints of the schema.\<close>

definition one_off_ok :: "line_row list \<Rightarrow> bool" where
  "one_off_ok ls \<longleftrightarrow> (\<forall>l \<in> set ls. one_off (ln_kind l) \<longrightarrow>
     length (filter (\<lambda>m. ln_invoice_id m = ln_invoice_id l \<and> ln_kind m = ln_kind l) ls) = 1)"

definition keys_ok :: "tables \<Rightarrow> bool" where
  "keys_ok t \<longleftrightarrow> distinct (map iv_id (t_invoice t)) \<and> distinct (map iv_reservation_id (t_invoice t)) \<and>
     distinct (map iv_idempotency_key (t_invoice t)) \<and> None \<notin> iv_idempotency_key ` set (t_invoice t) \<and>
     (\<forall>r \<in> set (t_invoice t). uuid_text (iv_reservation_id r))"

definition lines_ok :: "tables \<Rightarrow> bool" where
  "lines_ok t \<longleftrightarrow> distinct (map ln_id (t_invoice_line t)) \<and> one_off_ok (t_invoice_line t) \<and>
     (\<forall>l \<in> set (t_invoice_line t). \<exists>r \<in> set (t_invoice t). iv_id r = ln_invoice_id l)"

text \<open>
  Every total is the sum of its lines, with a single BOOKING line among them (as \<open>bigint\<close>, modulo
  \<open>2 ^ 64\<close>: the sum in \<open>Close\<close> is Go's).
\<close>

definition totals_ok :: "tables \<Rightarrow> bool" where
  "totals_ok t \<longleftrightarrow> (\<forall>r \<in> set (t_invoice t).
     iv_total_idr r = sum_list (map ln_amount_idr (lines_of t (iv_id r))) \<and>
     length (filter (\<lambda>l. ln_kind l = MLineBooking) (lines_of t (iv_id r))) = 1)"

text \<open>An invoice is OPEN with no closing time or CLOSED with one; nothing ever pays or voids it.\<close>

definition status_ok :: "tables \<Rightarrow> bool" where
  "status_ok t \<longleftrightarrow> (\<forall>r \<in> set (t_invoice t). iv_paid_at r = None \<and>
     (iv_status r = InvoiceOpen \<and> iv_closed_at r = None \<or>
      iv_status r = InvoiceClosed \<and> iv_closed_at r \<noteq> None))"

text \<open>The outbox tells of every invoice: one opened event, and a closed event once it is closed.\<close>

definition events_of :: "tables \<Rightarrow> string \<Rightarrow> string \<Rightarrow> outbox_row list" where
  "events_of t iid n = filter (\<lambda>o1. ob_aggregate_id o1 = iid \<and> ob_event_type o1 = n) (t_outbox_event t)"

definition events_ok :: "tables \<Rightarrow> bool" where
  "events_ok t \<longleftrightarrow> (\<forall>r \<in> set (t_invoice t). length (events_of t (iv_id r) EvtInvoiceOpened) = 1 \<and>
       (iv_status r = InvoiceClosed \<longrightarrow> events_of t (iv_id r) EvtInvoiceClosed \<noteq> [])) \<and>
     (\<forall>o1 \<in> set (t_outbox_event t). ob_event_type o1 = EvtInvoiceOpened \<longrightarrow>
       (\<exists>r \<in> set (t_invoice t). iv_id r = ob_aggregate_id o1))"

definition books_ok :: "tables \<Rightarrow> bool" where
  "books_ok t \<longleftrightarrow> keys_ok t \<and> lines_ok t \<and> totals_ok t \<and> status_ok t \<and> events_ok t"

text \<open>The outbox serial numbers increase in the order of insertion.\<close>

definition serials_ok :: "world \<Rightarrow> bool" where
  "serials_ok w \<longleftrightarrow> sorted_wrt (<) (map ob_id (t_outbox_event (w_tables w))) \<and>
     (\<forall>o1 \<in> set (t_outbox_event (w_tables w)). ob_id o1 < w_seq w)"

section \<open>The operations keep them\<close>

lemma table_op_sel [simp]:
  "t_invoice (add_outbox o1 t) = t_invoice t" "t_invoice_line (add_outbox o1 t) = t_invoice_line t"
  "t_outbox_event (add_outbox o1 t) = t_outbox_event t @ [o1]"
  "t_invoice (add_lines ls t) = t_invoice t" "t_invoice_line (add_lines ls t) = t_invoice_line t @ ls"
  "t_outbox_event (add_lines ls t) = t_outbox_event t"
  "t_invoice (add_invoice r t) = t_invoice t @ [r]"
  "t_invoice_line (add_invoice r t) = t_invoice_line t"
  "t_outbox_event (add_invoice r t) = t_outbox_event t"
  "t_invoice (map_invoices f t) = map f (t_invoice t)"
  "t_invoice_line (map_invoices f t) = t_invoice_line t"
  "t_outbox_event (map_invoices f t) = t_outbox_event t"
  by (simp_all add: table_ops)

lemma row_sel [simp]:
  "iv_id (opened_row i a b c d e) = i" "iv_reservation_id (opened_row i a b c d e) = a"
  "iv_idempotency_key (opened_row i a b c d e) = Some c" "iv_total_idr (opened_row i a b c d e) = d"
  "iv_status (opened_row i a b c d e) = InvoiceOpen" "iv_closed_at (opened_row i a b c d e) = None"
  "iv_paid_at (opened_row i a b c d e) = None"
  "ln_id (line_of i e l lid) = lid" "ln_invoice_id (line_of i e l lid) = i"
  "ln_kind (line_of i e l lid) = ml_Kind l" "ln_amount_idr (line_of i e l lid) = ml_AmountIDR l"
  "ml_Kind (booking_item d) = MLineBooking" "ml_AmountIDR (booking_item d) = d"
  "ob_aggregate_id (outbox_row_of n a ty p e) = a" "ob_event_type (outbox_row_of n a ty p e) = ty"
  "ob_id (outbox_row_of n a ty p e) = n" "ob_published_at (outbox_row_of n a ty p e) = None"
  by (simp_all add: opened_row_def line_of_def booking_item_def outbox_row_of_def)

lemma close_row_sel [simp]:
  "iv_id (close_row now i tot r) = iv_id r" "iv_reservation_id (close_row now i tot r) = iv_reservation_id r"
  "iv_idempotency_key (close_row now i tot r) = iv_idempotency_key r"
  "iv_driver_id (close_row now i tot r) = iv_driver_id r"
  "iv_paid_at (close_row now i tot r) = iv_paid_at r"
  "iv_created_at (close_row now i tot r) = iv_created_at r"
  by (simp_all add: close_row_def)

lemma close_row_status [simp]:
  "iv_status (close_row now i tot r) =
     (if iv_id r = i \<and> iv_status r = InvoiceOpen then InvoiceClosed else iv_status r)"
  by (simp add: close_row_def)

lemma event_names_distinct [simp]:
  "EvtInvoiceClosed \<noteq> EvtInvoiceOpened" "EvtInvoiceOpened \<noteq> EvtInvoiceClosed"
  "EvtPaymentSuccess \<noteq> EvtInvoiceOpened" "EvtPaymentFailed \<noteq> EvtInvoiceOpened"
  by (simp_all add: event_names)

lemma add_row_sel [simp]:
  "iv_id (add_row i a r) = iv_id r" "iv_reservation_id (add_row i a r) = iv_reservation_id r"
  "iv_idempotency_key (add_row i a r) = iv_idempotency_key r"
  "iv_driver_id (add_row i a r) = iv_driver_id r" "iv_status (add_row i a r) = iv_status r"
  "iv_paid_at (add_row i a r) = iv_paid_at r" "iv_closed_at (add_row i a r) = iv_closed_at r"
  "iv_created_at (add_row i a r) = iv_created_at r"
  by (simp_all add: add_row_def)

lemma lines_of_op [simp]:
  "lines_of (add_outbox o1 t) i = lines_of t i" "lines_of (add_invoice r t) i = lines_of t i"
  "lines_of (map_invoices f t) i = lines_of t i"
  "lines_of (add_lines ls t) i = lines_of t i @ filter (\<lambda>l. ln_invoice_id l = i) ls"
  by (simp_all add: lines_of_def)

lemma events_of_op [simp]:
  "events_of (add_lines ls t) i n = events_of t i n" "events_of (add_invoice r t) i n = events_of t i n"
  "events_of (map_invoices f t) i n = events_of t i n"
  "events_of (add_outbox o1 t) i n = events_of t i n @
     (if ob_aggregate_id o1 = i \<and> ob_event_type o1 = n then [o1] else [])"
  by (simp_all add: events_of_def)

lemma lines_accepted_ok:
  assumes "lines_accepted t ls" "lines_ok t"
  shows "lines_ok (add_lines ls t)"
  using assms
proof (induction ls arbitrary: t)
  case (Cons l ls)
  have "lines_ok (add_lines [l] t)"
    using Cons.prems
    by (auto simp: lines_ok_def one_off_ok_def line_error_def filter_empty_conv
        split: MLineKind.splits if_splits)
  with Cons show ?case using add_lines_append [of "[l]" ls t] by simp
qed simp

lemma no_lines_of_fresh:
  "lines_ok t \<Longrightarrow> \<forall>r \<in> set (t_invoice t). iv_id r \<noteq> iid \<Longrightarrow> lines_of t iid = []"
  by (auto simp: lines_ok_def lines_of_def filter_empty_conv)

lemma no_events_of_fresh:
  "events_ok t \<Longrightarrow> \<forall>r \<in> set (t_invoice t). iv_id r \<noteq> iid \<Longrightarrow> events_of t iid EvtInvoiceOpened = []"
  by (auto simp: events_ok_def events_of_def filter_empty_conv)

lemma opens_books_ok:
  assumes "opens res drv idem fee evt now iid n t t'" and "books_ok t"
  shows "books_ok t'"
proof -
  obtain lid p where uuid: "uuid_text res" and fresh: "\<forall>r \<in> set (t_invoice t). iv_id r \<noteq> iid \<and> iv_reservation_id r \<noteq> res \<and>
      iv_idempotency_key r \<noteq> Some idem" "\<forall>l \<in> set (t_invoice_line t). ln_id l \<noteq> lid"
    and t': "t' = add_outbox (outbox_row_of n iid EvtInvoiceOpened p now)
              (add_lines [line_of iid now (booking_item fee) lid]
                (add_invoice (opened_row iid res drv idem fee now) t))"
    using assms(1) by (auto simp: opens_def)
  have ok: "keys_ok t" "lines_ok t" "totals_ok t" "status_ok t" "events_ok t"
    using assms(2) by (simp_all add: books_ok_def)
  have nol: "lines_of t iid = []" and noe: "events_of t iid EvtInvoiceOpened = []"
    using no_lines_of_fresh [OF ok(2)] no_events_of_fresh [OF ok(5)] fresh(1) by auto
  have "keys_ok t'" using ok(1) fresh(1) uuid by (auto simp: t' keys_ok_def)
  moreover have "lines_ok t'" using ok(2) fresh(2)
    by (auto simp: t' lines_ok_def one_off_ok_def one_off_def)
  moreover have "totals_ok t'" using ok(3) fresh(1) nol
    by (auto simp: t' totals_ok_def)
  moreover have "status_ok t'" using ok(4) by (auto simp: t' status_ok_def)
  moreover have "events_ok t'" using ok(5) fresh(1) noe by (auto simp: t' events_ok_def)
  ultimately show ?thesis by (simp add: books_ok_def)
qed

lemma find_unique:
  "distinct (map f xs) \<Longrightarrow> find (\<lambda>x. f x = k) xs = Some y \<Longrightarrow> x \<in> set xs \<Longrightarrow> f x = k \<Longrightarrow> x = y"
  using find_distinct_map by fastforce

lemma filter_map2_line_of:
  assumes "length items = length ids"
  shows "filter (\<lambda>l. ln_invoice_id l = i) (map2 (line_of iid now) items ids) =
      (if i = iid then map2 (line_of iid now) items ids else [])"
    "map ln_amount_idr (map2 (line_of iid now) items ids) = map ml_AmountIDR items"
    "map ln_kind (map2 (line_of iid now) items ids) = map ml_Kind items"
  using assms by (induction items ids rule: list_induct2) auto

lemma filter_kind_map2:
  assumes "length items = length ids" "\<forall>l \<in> set items. ml_Kind l \<noteq> k"
  shows "filter (\<lambda>l. ln_kind l = k) (map2 (line_of iid now) items ids) = []"
  using assms by (induction items ids rule: list_induct2) auto

lemma closes_books_ok:
  assumes "closes iid items evt now n t t'" and "books_ok t"
  shows "books_ok t'"
proof -
  let ?items = "filter (\<lambda>l. ml_Kind l \<noteq> MLineBooking) items"
  obtain r ids p where r: "find (\<lambda>r. iv_id r = iid) (t_invoice t) = Some r" "iv_status r = InvoiceOpen"
    and len': "length ids = length ?items" and acc: "lines_accepted t (map2 (line_of iid now) ?items ids)"
    and t': "t' = add_outbox (outbox_row_of n iid EvtInvoiceClosed p now)
               (map_invoices (close_row now iid (iv_total_idr r + sum_list (map ml_AmountIDR ?items)))
                 (add_lines (map2 (line_of iid now) ?items ids) t))"
    using assms(1) unfolding closes_def by blast
  note len = len' [symmetric]
  have ok: "keys_ok t" "lines_ok t" "totals_ok t" "status_ok t" "events_ok t"
    using assms(2) by (simp_all add: books_ok_def)
  have uniq: "q = r" if "q \<in> set (t_invoice t)" "iv_id q = iid" for q
    using find_unique [OF _ r(1)] that ok(1) by (auto simp: keys_ok_def)
  note lf = filter_map2_line_of [OF len] filter_kind_map2 [OF len]
  have "keys_ok t'" using ok(1) by (simp add: t' keys_ok_def comp_def image_image)
  moreover have "lines_ok t'" using lines_accepted_ok [OF acc ok(2)] by (simp add: t' lines_ok_def)
  moreover have "totals_ok t'" using ok(3) uniq r(2)
    by (auto simp: t' totals_ok_def lf close_row_def simp del: map_map)
  moreover have "status_ok t'" using ok(4) by (auto simp: t' status_ok_def close_row_def)
  moreover have "events_ok t'" using ok(5) by (simp add: t' events_ok_def)
  ultimately show ?thesis by (simp add: books_ok_def)
qed

lemma appends_books_ok:
  assumes "appends iid item evt now n t t'" and "books_ok t" and "ml_Kind item \<noteq> MLineBooking"
  shows "books_ok t'"
proof -
  obtain lid where acc: "lines_accepted t [line_of iid now item lid]"
    and t': "t' = (case evt of None \<Rightarrow> (\<lambda>t. t)
         | Some p \<Rightarrow> add_outbox (outbox_row_of n iid EvtInvoiceClosed p now))
               (map_invoices (add_row iid (ml_AmountIDR item)) (add_lines [line_of iid now item lid] t))"
    using assms(1) unfolding appends_def by fastforce
  have ok: "keys_ok t" "lines_ok t" "totals_ok t" "status_ok t" "events_ok t"
    using assms(2) by (simp_all add: books_ok_def)
  have "keys_ok t'" using ok(1) by (cases evt) (simp_all add: t' keys_ok_def comp_def image_image)
  moreover have "lines_ok t'" using lines_accepted_ok [OF acc ok(2)]
    by (cases evt) (simp_all add: t' lines_ok_def)
  moreover have "totals_ok t'" using ok(3) assms(3)
    by (cases evt) (auto simp: t' totals_ok_def add_row_def)
  moreover have "status_ok t'" using ok(4) by (cases evt) (auto simp: t' status_ok_def)
  moreover have "events_ok t'" using ok(5) by (cases evt) (auto simp: t' events_ok_def)
  ultimately show ?thesis by (simp add: books_ok_def)
qed

lemma serials_append:
  assumes "serials_ok w" "w_seq w \<le> n" "n < w_seq w'"
    "\<exists>o1. ob_id o1 = n \<and> t_outbox_event (w_tables w') = t_outbox_event (w_tables w) @ [o1]"
  shows "serials_ok w'"
  using assms by (force simp: serials_ok_def sorted_wrt_append)

lemma serials_same:
  assumes "serials_ok w" "w_seq w \<le> w_seq w'"
    "t_outbox_event (w_tables w') = t_outbox_event (w_tables w)"
  shows "serials_ok w'"
  using assms by (force simp: serials_ok_def)

section \<open>The ledger a client sees\<close>

text \<open>
  The specification: a map from invoice numbers to entries, with the charges of an invoice as a
  multiset (the order in which \<open>getLinesSQL\<close> lists the lines of one transaction is that of their
  random identifiers).
\<close>

record entry =
  e_reservation :: string
  e_driver :: string
  e_key :: string
  e_status :: InvoiceStatus
  e_total :: int64
  e_closed_at :: "Time option"
  e_charges :: "(MLineKind \<times> int64) multiset"

type_synonym ledger = "string \<Rightarrow> entry option"

definition charge :: "MLineItem \<Rightarrow> MLineKind \<times> int64" where
  "charge l = (ml_Kind l, ml_AmountIDR l)"

definition entry_of :: "Invoice \<Rightarrow> entry" where
  "entry_of i =
     \<lparr>e_reservation = inv_ReservationID i, e_driver = inv_DriverID i, e_key = inv_IdempotencyKey i,
      e_status = inv_Status i, e_total = inv_TotalIDR i, e_closed_at = inv_ClosedAt i,
      e_charges = mset (map charge (inv_LineItems i))\<rparr>"

definition view :: "tables \<Rightarrow> ledger" where
  "view t iid = map_option (entry_of \<circ> invoice_of t) (find (\<lambda>r. iv_id r = iid) (t_invoice t))"

definition new_entry :: "string \<Rightarrow> string \<Rightarrow> string \<Rightarrow> int64 \<Rightarrow> entry" where
  "new_entry res drv key fee =
     \<lparr>e_reservation = res, e_driver = drv, e_key = key, e_status = InvoiceOpen, e_total = fee,
      e_closed_at = None, e_charges = {#(MLineBooking, fee)#}\<rparr>"

definition charged :: "MLineItem list \<Rightarrow> entry \<Rightarrow> entry" where
  "charged items e = e\<lparr>e_total := e_total e + sum_list (map ml_AmountIDR items),
                      e_charges := e_charges e + mset (map charge items)\<rparr>"

definition closed_entry :: "Time \<Rightarrow> MLineItem list \<Rightarrow> entry \<Rightarrow> entry" where
  "closed_entry now items e =
     (charged (filter (\<lambda>l. ml_Kind l \<noteq> MLineBooking) items) e)
       \<lparr>e_status := InvoiceClosed, e_closed_at := Some now\<rparr>"

lemma entry_of_sel [simp]:
  "e_status (entry_of i) = inv_Status i" "e_total (entry_of i) = inv_TotalIDR i"
  "e_reservation (entry_of i) = inv_ReservationID i" "e_key (entry_of i) = inv_IdempotencyKey i"
  "e_driver (entry_of i) = inv_DriverID i"
  by (simp_all add: entry_of_def)

lemma new_entry_sel [simp]:
  "e_reservation (new_entry res drv key fee) = res" "e_key (new_entry res drv key fee) = key"
  "e_status (new_entry res drv key fee) = InvoiceOpen"
  by (simp_all add: new_entry_def)

lemma charged_sel [simp]:
  "e_status (charged items e) = e_status e" "e_reservation (charged items e) = e_reservation e"
  "e_key (charged items e) = e_key e" "e_closed_at (charged items e) = e_closed_at e"
  "e_status (closed_entry now items e) = InvoiceClosed"
  "e_reservation (closed_entry now items e) = e_reservation e"
  "e_key (closed_entry now items e) = e_key e" "e_closed_at (closed_entry now items e) = Some now"
  by (simp_all add: charged_def closed_entry_def)

lemma invoice_of_key [simp]:
  "inv_IdempotencyKey (invoice_of t r) = (case iv_idempotency_key r of None \<Rightarrow> [] | Some k \<Rightarrow> k)"
  by (simp add: invoice_of_def invoiceRow_toModel_def)

lemma entry_of_invoice_of:
  "entry_of (invoice_of t r) =
     \<lparr>e_reservation = iv_reservation_id r, e_driver = iv_driver_id r,
      e_key = (case iv_idempotency_key r of None \<Rightarrow> [] | Some k \<Rightarrow> k), e_status = iv_status r,
      e_total = iv_total_idr r, e_closed_at = iv_closed_at r,
      e_charges = mset (map (\<lambda>l. (ln_kind l, ln_amount_idr l)) (lines_of t (iv_id r)))\<rparr>"
proof -
  have "mset (map f (sort_key g ls)) = mset (map f ls)" for f :: "line_row \<Rightarrow> MLineKind \<times> int64" and
    g :: "line_row \<Rightarrow> Time \<times> string" and ls by simp
  then show ?thesis
    by (simp add: entry_of_def invoice_of_def invoiceRow_toModel_def lineRow_toModel_def charge_def
        comp_def del: mset_map)
qed

lemma view_None: "view t iid = None \<longleftrightarrow> (\<forall>r \<in> set (t_invoice t). iv_id r \<noteq> iid)"
  by (auto simp: view_def find_None_iff)

lemma view_Some:
  "view t iid = Some e \<longleftrightarrow>
     (\<exists>r. find (\<lambda>r. iv_id r = iid) (t_invoice t) = Some r \<and> e = entry_of (invoice_of t r))"
  by (auto simp: view_def)

lemma view_row:
  "keys_ok t \<Longrightarrow> r \<in> set (t_invoice t) \<Longrightarrow> view t (iv_id r) = Some (entry_of (invoice_of t r))"
  by (simp add: view_def keys_ok_def find_distinct_map)

lemma view_map_invoices:
  assumes "\<And>r. iv_id (f r) = iv_id r"
  shows "view (map_invoices f t) j =
    map_option (\<lambda>r. entry_of (invoice_of t (f r))) (find (\<lambda>r. iv_id r = j) (t_invoice t))"
  by (simp add: view_def find_map_eq comp_def assms option.map_comp invoice_of_def)

lemma view_outbox [simp]: "view (add_outbox o1 t) = view t"
  by (simp add: fun_eq_iff view_def comp_def invoice_of_def)

lemma opens_view:
  assumes "opens res drv idem fee evt now iid n t t'" and "books_ok t"
  shows "view t iid = None \<and> view t' = (view t)(iid \<mapsto> new_entry res drv idem fee)"
proof -
  obtain lid p where fresh: "\<forall>r \<in> set (t_invoice t). iv_id r \<noteq> iid"
    and t': "t' = add_outbox (outbox_row_of n iid EvtInvoiceOpened p now)
              (add_lines [line_of iid now (booking_item fee) lid]
                (add_invoice (opened_row iid res drv idem fee now) t))"
    using assms(1) by (auto simp: opens_def)
  have nol: "lines_of t iid = []" using no_lines_of_fresh fresh assms(2) by (auto simp: books_ok_def)
  have none: "find (\<lambda>r. iv_id r = iid) (t_invoice t) = None" using fresh by (simp add: find_None_iff)
  have "view t' j = ((view t)(iid \<mapsto> new_entry res drv idem fee)) j" for j
    using none nol
    by (cases "j = iid"; cases "find (\<lambda>r. iv_id r = j) (t_invoice t)")
      (auto simp: t' view_def find_append entry_of_invoice_of new_entry_def opened_row_def
        dest!: find_Some_mem)
  then show ?thesis using fresh by (auto simp: view_None)
qed

lemma charges_map2:
  assumes "length items = length ids"
  shows "map (\<lambda>l. (ln_kind l, ln_amount_idr l)) (map2 (line_of iid now) items ids) = map charge items"
  using assms by (induction items ids rule: list_induct2) (auto simp: charge_def)

lemma closes_view:
  assumes "closes iid items evt now n t t'" and "books_ok t"
  shows "\<exists>e. view t iid = Some e \<and> e_status e = InvoiceOpen \<and>
    view t' = (view t)(iid \<mapsto> closed_entry now items e)"
proof -
  let ?items = "filter (\<lambda>l. ml_Kind l \<noteq> MLineBooking) items"
  obtain r ids p where r: "find (\<lambda>r. iv_id r = iid) (t_invoice t) = Some r" "iv_status r = InvoiceOpen"
    and len': "length ids = length ?items"
    and t': "t' = add_outbox (outbox_row_of n iid EvtInvoiceClosed p now)
               (map_invoices (close_row now iid (iv_total_idr r + sum_list (map ml_AmountIDR ?items)))
                 (add_lines (map2 (line_of iid now) ?items ids) t))"
    using assms(1) unfolding closes_def by blast
  note len = len' [symmetric]
  have id: "iv_id r = iid" using find_Some_mem [OF r(1)] by simp
  have "view t' j = ((view t)(iid \<mapsto> closed_entry now items (entry_of (invoice_of t r)))) j" for j
    using r id
    by (cases "j = iid"; cases "find (\<lambda>r. iv_id r = j) (t_invoice t)")
      (auto simp: t' view_map_invoices view_def [of t] entry_of_invoice_of closed_entry_def
        charged_def close_row_def filter_map2_line_of(1) [OF len] charges_map2 [OF len]
        dest!: find_Some_mem simp del: map_map mset_map)
  then show ?thesis using r by (auto simp: view_def)
qed

lemma appends_view:
  assumes "appends iid item evt now n t t'" and "books_ok t"
  shows "\<exists>e. view t iid = Some e \<and> int64_ok (sint (e_total e) + sint (ml_AmountIDR item)) \<and>
    view t' = (view t)(iid \<mapsto> charged [item] e)"
proof -
  obtain lid where acc: "lines_accepted t [line_of iid now item lid]"
    and rng: "\<forall>r \<in> set (t_invoice t). iv_id r = iid \<longrightarrow>
           int64_ok (sint (iv_total_idr r) + sint (ml_AmountIDR item))"
    and t': "t' = (case evt of None \<Rightarrow> (\<lambda>t. t)
         | Some p \<Rightarrow> add_outbox (outbox_row_of n iid EvtInvoiceClosed p now))
               (map_invoices (add_row iid (ml_AmountIDR item)) (add_lines [line_of iid now item lid] t))"
    using assms(1) unfolding appends_def by fastforce
  obtain r where r: "find (\<lambda>r. iv_id r = iid) (t_invoice t) = Some r"
    using acc by (cases "find (\<lambda>r. iv_id r = iid) (t_invoice t)")
      (auto simp: line_error_def find_None_iff split: MLineKind.splits if_splits)
  have id: "iv_id r = iid" "r \<in> set (t_invoice t)" using find_Some_mem [OF r] by auto
  have "view t' j = ((view t)(iid \<mapsto> charged [item] (entry_of (invoice_of t r)))) j" for j
    using r id
    by (cases "j = iid"; cases "find (\<lambda>r. iv_id r = j) (t_invoice t)"; cases evt)
      (auto simp: t' view_map_invoices view_def [of t] entry_of_invoice_of charged_def charge_def
        add_row_def dest!: find_Some_mem)
  then show ?thesis using r rng id by (auto simp: view_def)
qed

section \<open>The contract of the repository\<close>

definition balanced :: "entry \<Rightarrow> bool" where
  "balanced e \<longleftrightarrow> e_total e = sum_mset (image_mset snd (e_charges e)) \<and>
     size (filter_mset (\<lambda>c. fst c = MLineBooking) (e_charges e)) = 1 \<and>
     (e_status e = InvoiceOpen \<and> e_closed_at e = None \<or> e_status e = InvoiceClosed \<and> e_closed_at e \<noteq> None)"

text \<open>
  What \<open>InvoiceRepository\<close> promises to its clients: \<open>ok\<close> is its invariant, \<open>book\<close> the ledger it
  stores. Each law holds whatever the operation returns: an error leaves the ledger as it was or
  with the whole effect of the operation, never with a part of it.
\<close>

locale invoice_store =
  fixes R :: "'w InvoiceRepository" and ok :: "'w \<Rightarrow> bool" and book :: "'w \<Rightarrow> ledger"
    and clock :: "'w \<Rightarrow> Time"
  assumes Open_law: "ok w \<Longrightarrow> ir_Open R res drv key fee evt w = (r, w') \<Longrightarrow>
      ok w' \<and> clock w' = clock w \<and>
      (book w' = book w \<and>
         (\<forall>x. r = Inr x \<longrightarrow> book w (inv_ID x) = Some (entry_of x) \<and> inv_IdempotencyKey x = key) \<or>
       (\<exists>iid. book w iid = None \<and> (\<forall>e \<in> ran (book w). e_reservation e \<noteq> res \<and> e_key e \<noteq> key) \<and>
          book w' = (book w)(iid \<mapsto> new_entry res drv key fee) \<and>
          (\<forall>x. r = Inr x \<longrightarrow> inv_ID x = iid \<and> entry_of x = new_entry res drv key fee)))"
    and Close_law: "ok w \<Longrightarrow> ir_Close R iid items evt w = (r, w') \<Longrightarrow>
      ok w' \<and> clock w' = clock w \<and>
      (book w' = book w \<and>
         (\<forall>x. r = Inr x \<longrightarrow> inv_ID x = iid \<and> book w iid = Some (entry_of x) \<and> inv_Status x \<noteq> InvoiceOpen) \<or>
       (\<exists>e. book w iid = Some e \<and> e_status e = InvoiceOpen \<and>
          book w' = (book w)(iid \<mapsto> closed_entry (clock w) items e) \<and>
          (\<forall>x. r = Inr x \<longrightarrow> inv_ID x = iid \<and> entry_of x = closed_entry (clock w) items e)))"
    and Append_law: "ok w \<Longrightarrow> ml_Kind item \<noteq> MLineBooking \<Longrightarrow> ir_AppendLine R iid item evt w = (r, w') \<Longrightarrow>
      ok w' \<and> clock w' = clock w \<and>
      (book w' = book w \<and> (\<exists>e. r = Inl e) \<or>
       (\<exists>e. book w iid = Some e \<and> int64_ok (sint (e_total e) + sint (ml_AmountIDR item)) \<and>
          book w' = (book w)(iid \<mapsto> charged [item] e) \<and>
          (\<forall>x. r = Inr x \<longrightarrow> inv_ID x = iid \<and> entry_of x = charged [item] e)))"
    and Get_law: "ok w \<Longrightarrow> ir_GetByID R iid w = (r, w') \<Longrightarrow>
      ok w' \<and> clock w' = clock w \<and> book w' = book w \<and>
      (case r of Inr x \<Rightarrow> inv_ID x = iid \<and> book w iid = Some (entry_of x)
       | Inl e \<Rightarrow> errors_Is e ErrNotFound \<longrightarrow> book w iid = None)"
    and GetByReservation_law: "ok w \<Longrightarrow> ir_GetByReservationID R res w = (r, w') \<Longrightarrow>
      ok w' \<and> clock w' = clock w \<and> book w' = book w \<and>
      (case r of Inr x \<Rightarrow> inv_ReservationID x = res \<and> book w (inv_ID x) = Some (entry_of x)
       | Inl e \<Rightarrow> errors_Is e ErrNotFound \<longrightarrow> (\<forall>e \<in> ran (book w). e_reservation e \<noteq> res))"
    and one_per_reservation: "ok w \<Longrightarrow> book w i = Some e \<Longrightarrow> book w j = Some f \<Longrightarrow>
      e_reservation e = e_reservation f \<Longrightarrow> i = j"
    and all_balanced: "ok w \<Longrightarrow> book w i = Some e \<Longrightarrow> balanced e"

text \<open>The invariant and the ledger of the PostgreSQL repository.\<close>

definition pg_ok :: "world \<Rightarrow> bool" where
  "pg_ok w \<longleftrightarrow> w_saved w = None \<and> books_ok (w_tables w) \<and> serials_ok w"

definition pg_book :: "world \<Rightarrow> ledger" where
  "pg_book w = view (w_tables w)"

definition outbox :: "world \<Rightarrow> outbox_row list" where
  "outbox w = t_outbox_event (w_tables w)"

lemma pg_ok_reads: "pg_ok w \<Longrightarrow> reads_only w w' \<Longrightarrow> pg_ok w' \<and> w_now w' = w_now w \<and> pg_book w' = pg_book w"
  by (auto simp: pg_ok_def pg_book_def reads_only_def same_tx_def serials_ok_def)

lemma pg_ok_same:
  "pg_ok w \<Longrightarrow> same_tx w w' \<Longrightarrow> w_tables w' = w_tables w \<Longrightarrow>
   pg_ok w' \<and> w_now w' = w_now w \<and> pg_book w' = pg_book w"
  by (force simp: pg_ok_def pg_book_def same_tx_def serials_ok_def)

lemma book_returned:
  assumes "returned (invoiceRepo_GetByID iid) x t"
  shows "inv_ID x = iid \<and> view t iid = Some (entry_of x)"
  using returned_GetByID [OF assms] by (auto simp: view_def dest: find_Some_mem)

lemma findByIdem_returned:
  assumes "returned (invoiceRepo_findByIdem key) x t" "keys_ok t"
  shows "view t (inv_ID x) = Some (entry_of x) \<and> inv_IdempotencyKey x = key"
proof -
  obtain w w' where "invoiceRepo_findByIdem key w = (Inr x, w')" and w: "w_tables w = t"
    using assms(1) by (auto simp: returned_def)
  then obtain r where r: "find (\<lambda>r. iv_idempotency_key r = Some key) (t_invoice t) = Some r"
    "x = invoice_of t r"
    using find_row_Inr [of "\<lambda>r. iv_idempotency_key r = Some key" w x w'] assms(2)
    by (auto simp: invoiceRepo_findByIdem_def sql_invoice_by_idem_def keys_ok_def)
  then show ?thesis using find_Some_mem [OF r(1)] view_row [OF assms(2)] by auto
qed

lemma opens_fresh:
  assumes "opens res drv key fee evt now iid n t t'" "keys_ok t" "e \<in> ran (view t)"
  shows "e_reservation e \<noteq> res \<and> e_key e \<noteq> key"
proof -
  obtain r where "r \<in> set (t_invoice t)" "e = entry_of (invoice_of t r)"
    using assms(3) by (auto simp: ran_def view_def dest: find_Some_mem)
  then show ?thesis using assms(1,2)
    by (cases "iv_idempotency_key r") (auto simp: opens_def keys_ok_def rev_image_eqI)
qed

lemma pg_Open_law:
  assumes "pg_ok w" "invoiceRepo_Open res drv key fee evt w = (r, w')"
  shows "pg_ok w' \<and> w_now w' = w_now w \<and>
      (w_tables w' = w_tables w \<and>
         (\<forall>x. r = Inr x \<longrightarrow> pg_book w (inv_ID x) = Some (entry_of x) \<and> inv_IdempotencyKey x = key) \<or>
       (\<exists>iid. pg_book w iid = None \<and> (\<forall>e \<in> ran (pg_book w). e_reservation e \<noteq> res \<and> e_key e \<noteq> key) \<and>
          pg_book w' = (pg_book w)(iid \<mapsto> new_entry res drv key fee) \<and>
          (\<exists>n p. evt = Some p \<and> outbox w' = outbox w @ [outbox_row_of n iid EvtInvoiceOpened p (w_now w)]) \<and>
          (\<forall>x. r = Inr x \<longrightarrow> inv_ID x = iid \<and> entry_of x = new_entry res drv key fee)))"
proof -
  have ok: "w_saved w = None" "books_ok (w_tables w)" "keys_ok (w_tables w)" "serials_ok w"
    using assms(1) by (auto simp: pg_ok_def books_ok_def)
  note eff = Open_effect [OF assms(2) ok(1)]
  then consider (same) "w_tables w' = w_tables w" "\<forall>x. r = Inr x \<longrightarrow>
        returned (invoiceRepo_findByIdem key) x (w_tables w)"
    | (new) iid n where "w_seq w \<le> n" "n < w_seq w'"
        "opens res drv key fee evt (w_now w) iid n (w_tables w) (w_tables w')"
        "\<forall>x. r = Inr x \<longrightarrow> returned (invoiceRepo_GetByID iid) x (w_tables w')" by blast
  then show ?thesis
  proof cases
    case same
    then show ?thesis using pg_ok_same [OF assms(1) _ same(1)] eff findByIdem_returned [OF _ ok(3)]
      by (auto simp: pg_book_def)
  next
    case new
    have "serials_ok w'" using new(3) by (intro serials_append [OF ok(4) new(1,2)]) (auto simp: opens_def)
    then have "pg_ok w'" "w_now w' = w_now w"
      using eff opens_books_ok [OF new(3) ok(2)] ok(1) by (auto simp: pg_ok_def same_tx_def)
    moreover have "\<exists>n p. evt = Some p \<and> outbox w' = outbox w @ [outbox_row_of n iid EvtInvoiceOpened p (w_now w)]"
      using new(3) by (auto simp: opens_def outbox_def)
    ultimately show ?thesis using opens_view [OF new(3) ok(2)] opens_fresh [OF new(3) ok(3)] new(4) book_returned
      by (intro conjI disjI2 exI [of _ iid]) (fastforce simp: pg_book_def)+
  qed
qed

lemma pg_Close_law:
  assumes "pg_ok w" "invoiceRepo_Close iid items evt w = (r, w')"
  shows "pg_ok w' \<and> w_now w' = w_now w \<and>
      (w_tables w' = w_tables w \<and>
         (\<forall>x. r = Inr x \<longrightarrow> inv_ID x = iid \<and> pg_book w iid = Some (entry_of x) \<and> inv_Status x \<noteq> InvoiceOpen) \<or>
       (\<exists>e. pg_book w iid = Some e \<and> e_status e = InvoiceOpen \<and>
          pg_book w' = (pg_book w)(iid \<mapsto> closed_entry (w_now w) items e) \<and>
          (\<exists>n p. evt = Some p \<and> outbox w' = outbox w @ [outbox_row_of n iid EvtInvoiceClosed p (w_now w)]) \<and>
          (\<forall>x. r = Inr x \<longrightarrow> inv_ID x = iid \<and> entry_of x = closed_entry (w_now w) items e)))"
proof -
  have ok: "w_saved w = None" "books_ok (w_tables w)" "serials_ok w" using assms(1) by (auto simp: pg_ok_def)
  note eff = Close_effect [OF assms(2) ok(1)]
  then consider (same) "w_tables w' = w_tables w" "\<forall>x. r = Inr x \<longrightarrow>
        returned (invoiceRepo_GetByID iid) x (w_tables w) \<and> inv_Status x \<noteq> InvoiceOpen"
    | (new) n where "w_seq w \<le> n" "n < w_seq w'"
        "closes iid items evt (w_now w) n (w_tables w) (w_tables w')"
        "\<forall>x. r = Inr x \<longrightarrow> returned (invoiceRepo_GetByID iid) x (w_tables w')" by blast
  then show ?thesis
  proof cases
    case same
    then show ?thesis using pg_ok_same [OF assms(1) _ same(1)] eff book_returned
      by (intro conjI disjI1) (auto simp: pg_book_def)
  next
    case new
    have "serials_ok w'" using new(3) by (intro serials_append [OF ok(3) new(1,2)]) (auto simp: closes_def)
    then have "pg_ok w'" "w_now w' = w_now w"
      using eff closes_books_ok [OF new(3) ok(2)] ok(1) by (auto simp: pg_ok_def same_tx_def)
    moreover have "\<exists>n p. evt = Some p \<and> outbox w' = outbox w @ [outbox_row_of n iid EvtInvoiceClosed p (w_now w)]"
      using new(3) by (auto simp: closes_def outbox_def)
    ultimately show ?thesis using closes_view [OF new(3) ok(2)] new(4) book_returned
      by (intro conjI disjI2) (fastforce simp: pg_book_def)+
  qed
qed

lemma pg_Append_law:
  assumes "pg_ok w" "ml_Kind item \<noteq> MLineBooking" "invoiceRepo_AppendLine iid item evt w = (r, w')"
  shows "pg_ok w' \<and> w_now w' = w_now w \<and>
      (w_tables w' = w_tables w \<and> (\<exists>e. r = Inl e) \<or>
       (\<exists>e. pg_book w iid = Some e \<and> int64_ok (sint (e_total e) + sint (ml_AmountIDR item)) \<and>
          pg_book w' = (pg_book w)(iid \<mapsto> charged [item] e) \<and>
          (\<exists>n. outbox w' = outbox w @ (case evt of None \<Rightarrow> []
             | Some p \<Rightarrow> [outbox_row_of n iid EvtInvoiceClosed p (w_now w)])) \<and>
          (\<forall>x. r = Inr x \<longrightarrow> inv_ID x = iid \<and> entry_of x = charged [item] e)))"
proof -
  have ok: "w_saved w = None" "books_ok (w_tables w)" "serials_ok w" using assms(1) by (auto simp: pg_ok_def)
  note eff = AppendLine_effect [OF assms(3) ok(1)]
  then consider (same) "w_tables w' = w_tables w" "\<exists>e. r = Inl e"
    | (new) n where "w_seq w \<le> n" "evt \<noteq> None \<longrightarrow> n < w_seq w'"
        "appends iid item evt (w_now w) n (w_tables w) (w_tables w')"
        "\<forall>x. r = Inr x \<longrightarrow> returned (invoiceRepo_GetByID iid) x (w_tables w')" by blast
  then show ?thesis
  proof cases
    case same
    then show ?thesis using pg_ok_same [OF assms(1) _ same(1)] eff by auto
  next
    case new
    have "serials_ok w'"
    proof (cases evt)
      case None
      then show ?thesis using new(3) eff
        by (intro serials_same [OF ok(3)]) (auto simp: appends_def same_tx_def)
    next
      case (Some p)
      then show ?thesis using new(2,3)
        by (intro serials_append [OF ok(3) new(1)]) (auto simp: appends_def)
    qed
    then have "pg_ok w'" "w_now w' = w_now w"
      using eff appends_books_ok [OF new(3) ok(2) assms(2)] ok(1) by (auto simp: pg_ok_def same_tx_def)
    moreover have "\<exists>n. outbox w' = outbox w @ (case evt of None \<Rightarrow> []
             | Some p \<Rightarrow> [outbox_row_of n iid EvtInvoiceClosed p (w_now w)])"
      using new(3) by (cases evt) (auto simp: appends_def outbox_def)
    ultimately show ?thesis using appends_view [OF new(3) ok(2)] new(4) book_returned
      by (intro conjI disjI2) (fastforce simp: pg_book_def)+
  qed
qed

lemma pg_GetByReservation_law:
  assumes "pg_ok w" "invoiceRepo_GetByReservationID res w = (r, w')"
  shows "pg_ok w' \<and> w_now w' = w_now w \<and> pg_book w' = pg_book w \<and>
      (case r of Inr x \<Rightarrow> inv_ReservationID x = res \<and> pg_book w (inv_ID x) = Some (entry_of x)
       | Inl e \<Rightarrow> errors_Is e ErrNotFound \<longrightarrow> (\<forall>e \<in> ran (pg_book w). e_reservation e \<noteq> res))"
proof -
  let ?P = "\<lambda>r. iv_reservation_id r = res"
  have k: "keys_ok (w_tables w)" using assms(1) by (auto simp: pg_ok_def books_ok_def)
  have run: "andThen (orNotFound (db_call (select_row ?P t_invoice))) (\<lambda>r. invoiceRepo_GetByID (iv_id r)) w
      = (r, w')" if "uuid_text res"
    using assms(2) that by (simp add: invoiceRepo_GetByReservationID_def sql_invoice_by_reservation_def)
  have fr: "rel reads_only (orNotFound (db_call (select_row ?P t_invoice)))" by (intro frame_intros)
  have "case r of Inr x \<Rightarrow> inv_ReservationID x = res \<and> view (w_tables w) (inv_ID x) = Some (entry_of x)
       | Inl e \<Rightarrow> errors_Is e ErrNotFound \<longrightarrow> (\<forall>e \<in> ran (view (w_tables w)). e_reservation e \<noteq> res)"
  proof (cases r)
    case (Inr x)
    then have u: "uuid_text res" using GetByReservation_bad [OF assms(2)] by auto
    obtain q where q: "find ?P (t_invoice (w_tables w)) = Some q" "x = invoice_of (w_tables w) q"
      using find_row_Inr [OF run [OF u, unfolded Inr]] k unfolding keys_ok_def by blast
    then show ?thesis using Inr find_Some_mem [OF q(1)] view_row [OF k] by auto
  next
    case (Inl e)
    have u: "uuid_text res" if "errors_Is e ErrNotFound" using GetByReservation_bad [OF assms(2)] Inl that by auto
    have "find ?P (t_invoice (w_tables w)) = None" if "errors_Is e ErrNotFound"
      using run [OF u [OF that]]
    proof (cases rule: andThen_E)
      case (failed e')
      then show ?thesis using that Inl by (auto elim!: select_E)
    next
      case (went_on q w1)
      have q: "find ?P (t_invoice (w_tables w)) = Some q" using went_on(1) by (auto elim: select_E)
      have "w_tables w1 = w_tables w" using relD [OF fr went_on(1)] by (simp add: reads_only_def)
      then show ?thesis
        using GetByID_NotFound [of "iv_id q" w1 e w'] went_on(2) Inl that find_Some_mem [OF q]
        by (auto simp: find_None_iff)
    qed
    then show ?thesis using Inl
      by (auto simp: ran_def view_def find_None_iff dest!: find_Some_mem)
  qed
  then show ?thesis using pg_ok_reads [OF assms(1) relD [OF read_frames(4) assms(2)]]
    unfolding pg_book_def by blast
qed

lemma books_balanced:
  assumes "books_ok t" "view t i = Some e"
  shows "balanced e"
proof -
  obtain r where r: "r \<in> set (t_invoice t)" "e = entry_of (invoice_of t r)"
    using assms(2) by (auto simp: view_def dest: find_Some_mem)
  have sz: "size {#c \<in># mset (map (\<lambda>l. (ln_kind l, ln_amount_idr l)) ls). fst c = MLineBooking#} =
      length (filter (\<lambda>l. ln_kind l = MLineBooking) ls)" for ls by (induction ls) auto
  have sm: "sum_mset (image_mset snd (mset (map (\<lambda>l. (ln_kind l, ln_amount_idr l)) ls))) =
      sum_list (map ln_amount_idr ls)" for ls by (induction ls) auto
  show ?thesis using r assms(1) unfolding balanced_def r(2) entry_of_invoice_of
    by (auto simp: books_ok_def totals_ok_def status_ok_def sz sm simp del: mset_map)
qed

lemma one_row_per_reservation:
  assumes "keys_ok t" "view t i = Some e" "view t j = Some f" "e_reservation e = e_reservation f"
  shows "i = j"
proof -
  obtain r q where "r \<in> set (t_invoice t)" "q \<in> set (t_invoice t)" "iv_id r = i" "iv_id q = j"
    "iv_reservation_id r = iv_reservation_id q"
    using assms(2-4) by (auto simp: view_def dest!: find_Some_mem)
  then show ?thesis using assms(1) by (auto simp: keys_ok_def distinct_map dest: inj_onD)
qed

lemma pg_Get_law:
  assumes "pg_ok w" "invoiceRepo_GetByID iid w = (r, w')"
  shows "pg_ok w' \<and> w_now w' = w_now w \<and> pg_book w' = pg_book w \<and>
      (case r of Inr x \<Rightarrow> inv_ID x = iid \<and> pg_book w iid = Some (entry_of x)
       | Inl e \<Rightarrow> errors_Is e ErrNotFound \<longrightarrow> pg_book w iid = None)"
  using pg_ok_reads [OF assms(1) relD [OF read_frames(2) assms(2)]] assms(2)
    book_returned [of iid _ "w_tables w"] GetByID_NotFound [of iid w]
  by (cases r) (auto simp: pg_book_def returned_def view_def)

interpretation pg: invoice_store NewInvoiceRepository pg_ok pg_book w_now
proof (unfold_locales, goal_cases)
  case (1 w res drv key fee evt r w')
  then show ?case using pg_Open_law [of w res drv key fee evt r w']
    by (auto simp: NewInvoiceRepository_def pg_book_def)
next
  case (2 w iid items evt r w')
  then show ?case using pg_Close_law [of w iid items evt r w']
    by (auto simp: NewInvoiceRepository_def pg_book_def)
next
  case (3 w item iid evt r w')
  then show ?case using pg_Append_law [of w item iid evt r w']
    by (auto simp: NewInvoiceRepository_def pg_book_def)
next
  case (4 w iid r w')
  then show ?case using pg_Get_law by (simp add: NewInvoiceRepository_def)
next
  case (5 w res r w')
  then show ?case using pg_GetByReservation_law by (simp add: NewInvoiceRepository_def)
next
  case (6 w i e j f)
  then show ?case using one_row_per_reservation by (auto simp: pg_ok_def books_ok_def pg_book_def)
next
  case (7 w i e)
  then show ?case using books_balanced by (auto simp: pg_ok_def pg_book_def)
qed

end
