(* ===== verification/Repo_Progress.thy ===== *)
theory Repo_Progress
  imports Ledger
begin

text \<open>
  What the invoice repository returns when the database answers: every call succeeds or replays, and
  a call repeated after any failure ends with the effect of a single call.
\<close>

section \<open>Fresh identifiers\<close>

text \<open>\<open>gen_random_uuid()\<close> yields no identifier twice and none that is in use.\<close>

definition fresh_uuids :: "world \<Rightarrow> bool" where
  "fresh_uuids w \<longleftrightarrow>
     (\<forall>i \<ge> w_draws w. (\<forall>j > i. w_uuid w i \<noteq> w_uuid w j) \<and>
        (\<forall>r \<in> set (t_invoice (w_tables w)). iv_id r \<noteq> w_uuid w i) \<and>
        (\<forall>l \<in> set (t_invoice_line (w_tables w)). ln_id l \<noteq> w_uuid w i))"

definition chargeable :: "tables \<Rightarrow> string \<Rightarrow> MLineItem list \<Rightarrow> bool" where
  "chargeable t iid items \<longleftrightarrow>
     (\<forall>l \<in> set items. (\<forall>s. ml_Kind l \<noteq> MLineKindOther s) \<and>
        (one_off (ml_Kind l) \<longrightarrow> (\<forall>m \<in> set (lines_of t iid). ln_kind m \<noteq> ml_Kind l))) \<and>
     distinct (filter one_off (map ml_Kind items))"

lemma line_error_None:
  assumes "\<forall>l \<in> set (t_invoice_line t). ln_id l \<noteq> lid" "\<exists>r \<in> set (t_invoice t). iv_id r = iid"
    "\<forall>s. k \<noteq> MLineKindOther s" "one_off k \<longrightarrow> (\<forall>m \<in> set (lines_of t iid). ln_kind m \<noteq> k)"
  shows "line_error t lid iid k = None"
  using assms by (auto simp: line_error_def lines_of_def split: MLineKind.split)

section \<open>Open\<close>

lemma Open_new_total:
  assumes "quiet w" "fresh_uuids w" "w_saved w = None" and uuid: "uuid_text res" and
    "\<forall>r \<in> set (t_invoice (w_tables w)). iv_reservation_id r \<noteq> res \<and> iv_idempotency_key r \<noteq> Some key"
  shows "\<exists>x w'. invoiceRepo_Open res drv key fee (Some p) w = (Inr x, w')"
proof -
  let ?i = "w_uuid w (w_draws w)" and ?l = "w_uuid w (Suc (w_draws w))"
  have f: "\<forall>r \<in> set (t_invoice (w_tables w)). iv_id r \<noteq> ?i"
    "\<forall>l \<in> set (t_invoice_line (w_tables w)). ln_id l \<noteq> ?l"
    using assms(2) by (auto simp: fresh_uuids_def)
  have none: "find (\<lambda>r. iv_id r = ?i) (t_invoice (w_tables w)) = None" using f(1) by (simp add: find_None_iff)
  have line: "line_error (t\<lparr>t_invoice := t_invoice t @ [q]\<rparr>) ?l ?i MLineBooking = None"
    if "t = w_tables w" "iv_id q = ?i" for t q
    using that f by (intro line_error_None) (auto simp: one_off_def)
  show ?thesis using assms(1,3,5) uuid f none
    by (auto simp: quiet_def invoiceRepo_Open_def andThen_def attempt_def BeginTxx_def db_call_def
        deferRollback_def sql_insert_invoice_def Let_def sql_insert_line_def line sql_insert_outbox_def
        Commit_def invoiceRepo_GetByID_def orNotFound_def sql_invoice_by_id_def select_row_def
        find_append fetchLines_def sql_lines_def)
qed

lemma Open_replay_total:
  assumes "quiet w" "pg_ok w" "r \<in> set (t_invoice (w_tables w))" "iv_idempotency_key r = Some key"
    "uuid_text res"
  shows "\<exists>w'. invoiceRepo_Open res drv key fee evt w = (Inr (invoice_of (w_tables w) r), w')"
proof -
  have k: "keys_ok (w_tables w)" "w_saved w = None" using assms(2) by (auto simp: pg_ok_def books_ok_def)
  have 1: "find (\<lambda>q. iv_idempotency_key q = Some key) (t_invoice (w_tables w)) = Some r"
    using find_distinct_map [of iv_idempotency_key] assms(3,4) k(1) by (fastforce simp: keys_ok_def)
  have 2: "find (\<lambda>q. iv_id q = iv_id r) (t_invoice (w_tables w)) = Some r"
    using find_distinct_map [of iv_id] assms(3) k(1) by (fastforce simp: keys_ok_def)
  show ?thesis using assms(1,3-5) k(2) 1 2
    by (auto simp: quiet_def invoiceRepo_Open_def andThen_def attempt_def BeginTxx_def db_call_def
        deferRollback_def sql_insert_invoice_def Let_def codeUniqueViolation_def Rollback_def
        rollback_def invoiceRepo_findByIdem_def sql_invoice_by_idem_def
        invoiceRepo_GetByID_def orNotFound_def sql_invoice_by_id_def select_row_def
        fetchLines_def sql_lines_def invoice_of_def)
qed

section \<open>Close and AppendLine\<close>

lemma insertLine_total:
  assumes "quiet w" "fresh_uuids w" "\<exists>r \<in> set (t_invoice (w_tables w)). iv_id r = iid"
    "\<forall>s. ml_Kind l \<noteq> MLineKindOther s"
    "one_off (ml_Kind l) \<longrightarrow> (\<forall>m \<in> set (lines_of (w_tables w) iid). ln_kind m \<noteq> ml_Kind l)"
  shows "\<exists>w'. insertLine iid l w = (Inr (), w') \<and> quiet w' \<and> fresh_uuids w' \<and>
    t_invoice (w_tables w') = t_invoice (w_tables w) \<and>
    (\<exists>m. ln_kind m = ml_Kind l \<and> ln_invoice_id m = iid \<and>
       t_invoice_line (w_tables w') = t_invoice_line (w_tables w) @ [m])"
proof -
  have f: "\<forall>m \<in> set (t_invoice_line (w_tables w)). ln_id m \<noteq> w_uuid w (w_draws w)"
    using assms(2) by (auto simp: fresh_uuids_def)
  have e: "line_error (w_tables w) (w_uuid w (w_draws w)) iid (ml_Kind l) = None"
    using line_error_None [OF f assms(3-5)] .
  show ?thesis using assms(1,2) e
    by (auto simp: insertLine_def Let_def db_call_def quiet_def sql_insert_line_def fresh_uuids_def
        Suc_le_eq)
qed

lemma closeLines_total:
  assumes "quiet w" "fresh_uuids w" "\<exists>r \<in> set (t_invoice (w_tables w)). iv_id r = iid"
    "chargeable (w_tables w) iid (filter (\<lambda>l. ml_Kind l \<noteq> MLineBooking) items)"
  shows "\<exists>tot w'. closeLines iid items acc w = (Inr tot, w') \<and> quiet w' \<and>
    t_invoice (w_tables w') = t_invoice (w_tables w)"
  using assms
proof (induction items arbitrary: acc w)
  case (Cons l ls)
  show ?case
  proof (cases "ml_Kind l = MLineBooking")
    case True
    then show ?thesis using Cons by simp
  next
    case False
    then have kind: "\<forall>s. ml_Kind l \<noteq> MLineKindOther s"
      "one_off (ml_Kind l) \<longrightarrow> (\<forall>m \<in> set (lines_of (w_tables w) iid). ln_kind m \<noteq> ml_Kind l)"
      using Cons.prems(4) by (auto simp: chargeable_def)
    obtain w1 m where w1: "insertLine iid l w = (Inr (), w1)" "quiet w1" "fresh_uuids w1"
      "t_invoice (w_tables w1) = t_invoice (w_tables w)" "ln_kind m = ml_Kind l" "ln_invoice_id m = iid"
      "t_invoice_line (w_tables w1) = t_invoice_line (w_tables w) @ [m]"
      using insertLine_total [OF Cons.prems(1-3) kind] by blast
    have "chargeable (w_tables w1) iid (filter (\<lambda>l. ml_Kind l \<noteq> MLineBooking) ls)"
      using Cons.prems(4) False w1(5-7)
      by (auto simp: chargeable_def lines_of_def split: if_splits)
    then show ?thesis using Cons.IH [OF w1(2,3)] Cons.prems(3) False w1(1,4) by (simp add: andThen_def)
  qed
qed simp

lemma Close_new_total:
  assumes "quiet w" "fresh_uuids w" "w_saved w = None"
    "find (\<lambda>r. iv_id r = iid) (t_invoice (w_tables w)) = Some r" "iv_status r = InvoiceOpen"
    "chargeable (w_tables w) iid (filter (\<lambda>l. ml_Kind l \<noteq> MLineBooking) items)"
  shows "\<exists>x w'. invoiceRepo_Close iid items (Some p) w = (Inr x, w')"
proof -
  let ?w = "(tick_call w)\<lparr>w_saved := Some (w_tables w)\<rparr>"
  have f: "quiet (tick_call ?w)" "fresh_uuids (tick_call ?w)"
    "\<exists>r \<in> set (t_invoice (w_tables (tick_call ?w))). iv_id r = iid"
    "chargeable (w_tables (tick_call ?w)) iid (filter (\<lambda>l. ml_Kind l \<noteq> MLineBooking) items)"
    using assms find_Some_mem [OF assms(4)] by (auto simp: quiet_def fresh_uuids_def)
  obtain tot w2 where c: "closeLines iid items 0 (tick_call ?w) = (Inr tot, w2)" "quiet w2"
    "t_invoice (w_tables w2) = t_invoice (w_tables w)"
    using closeLines_total [OF f, of 0] by auto
  have find2: "find (\<lambda>q. iv_id q = iid) (map (close_row now iid tt) (t_invoice (w_tables w))) =
      Some (close_row now iid tt r)" for now tt
    using assms(4) by (simp add: find_map_eq comp_def)
  show ?thesis using assms(1,3-5) c find2
    by (auto simp: quiet_def invoiceRepo_Close_def andThen_def attempt_def BeginTxx_def db_call_def
        deferRollback_def orNotFound_def sql_invoice_by_id_def select_row_def sql_close_invoice_def
        sql_insert_outbox_def Let_def Commit_def invoiceRepo_GetByID_def fetchLines_def sql_lines_def)
qed

lemma Close_done_total:
  assumes "quiet w" "w_saved w = None"
    "find (\<lambda>r. iv_id r = iid) (t_invoice (w_tables w)) = Some r" "iv_status r \<noteq> InvoiceOpen"
  shows "\<exists>w'. invoiceRepo_Close iid items evt w = (Inr (invoice_of (w_tables w) r), w')"
proof -
  have "iv_id r = iid" using find_Some_mem [OF assms(3)] by simp
  then show ?thesis using assms
    by (auto simp: quiet_def invoiceRepo_Close_def andThen_def attempt_def BeginTxx_def db_call_def
        deferRollback_def orNotFound_def sql_invoice_by_id_def select_row_def Rollback_def
        rollback_def invoiceRepo_GetByID_def fetchLines_def sql_lines_def invoice_of_def)
qed

lemma AppendLine_total:
  assumes "quiet w" "fresh_uuids w" "w_saved w = None"
    "find (\<lambda>r. iv_id r = iid) (t_invoice (w_tables w)) = Some r" "keys_ok (w_tables w)"
    "chargeable (w_tables w) iid [item]" "int64_ok (sint (iv_total_idr r) + sint (ml_AmountIDR item))"
  shows "\<exists>x w'. invoiceRepo_AppendLine iid item (Some p) w = (Inr x, w')"
proof -
  let ?w = "(tick_call w)\<lparr>w_saved := Some (w_tables w)\<rparr>"
  have r: "r \<in> set (t_invoice (w_tables w))" "iv_id r = iid" using find_Some_mem [OF assms(4)] by auto
  have f: "quiet ?w" "fresh_uuids ?w" "\<exists>r \<in> set (t_invoice (w_tables ?w)). iv_id r = iid"
    "\<forall>s. ml_Kind item \<noteq> MLineKindOther s"
    "one_off (ml_Kind item) \<longrightarrow> (\<forall>m \<in> set (lines_of (w_tables ?w) iid). ln_kind m \<noteq> ml_Kind item)"
    using assms r by (auto simp: quiet_def fresh_uuids_def chargeable_def)
  obtain w2 where c: "insertLine iid item ?w = (Inr (), w2)" "quiet w2"
    "t_invoice (w_tables w2) = t_invoice (w_tables w)"
    using insertLine_total [OF f] by auto
  have uniq: "q = r" if "q \<in> set (t_invoice (w_tables w))" "iv_id q = iid" for q
    using that r assms(5) by (auto simp: keys_ok_def distinct_map inj_on_def)
  have range: "\<not> (\<exists>q \<in> set (t_invoice (w_tables w)). iv_id q = iid \<and>
      \<not> int64_ok (sint (iv_total_idr q) + sint (ml_AmountIDR item)))"
    using uniq assms(7) by blast
  have find2: "find (\<lambda>q. iv_id q = iid) (map (add_row iid n) (t_invoice (w_tables w))) = Some (add_row iid n r)" for n
    using assms(4) by (simp add: find_map_eq comp_def)
  show ?thesis using assms(1,3,4) c find2 range
    by (auto simp: quiet_def invoiceRepo_AppendLine_def andThen_def attempt_def BeginTxx_def db_call_def
        deferRollback_def orNotFound_def sql_invoice_by_id_def select_row_def sql_add_total_def
        sql_insert_outbox_def Let_def Commit_def invoiceRepo_GetByID_def fetchLines_def sql_lines_def)
qed

lemma AppendLine_duplicate:
  assumes "quiet w" "one_off (ml_Kind item)" "m \<in> set (lines_of (w_tables w) iid)" "ln_kind m = ml_Kind item"
  shows "\<exists>w'. invoiceRepo_AppendLine iid item evt w = (Inl (PqError codeUniqueViolation), w') \<and>
    w_tables w' = w_tables w"
proof -
  have "line_error (w_tables w) lid iid (ml_Kind item) = Some (PqError codeUniqueViolation)" for lid
    using assms(2-4) by (auto simp: line_error_def lines_of_def one_off_def split: MLineKind.split)
  then show ?thesis using assms(1)
    by (auto simp: quiet_def invoiceRepo_AppendLine_def andThen_def BeginTxx_def db_call_def insertLine_def
        deferRollback_def sql_insert_line_def Let_def rollback_def)
qed

lemma Close_quiet:
  assumes "pg_ok w" "quiet w" "fresh_uuids w" "pg_book w iid = Some e" "e_status e = InvoiceOpen"
    "chargeable (w_tables w) iid (filter (\<lambda>l. ml_Kind l \<noteq> MLineBooking) items)"
  shows "\<exists>x w1. invoiceRepo_Close iid items (Some p) w = (Inr x, w1) \<and> pg_ok w1 \<and> quiet w1 \<and>
    pg_book w1 = (pg_book w)(iid \<mapsto> closed_entry (w_now w) items e) \<and> inv_ID x = iid \<and>
    entry_of x = closed_entry (w_now w) items e"
proof -
  obtain r where r: "find (\<lambda>r. iv_id r = iid) (t_invoice (w_tables w)) = Some r" "iv_status r = InvoiceOpen"
    using assms(4,5) by (auto simp: pg_book_def view_def)
  have "w_saved w = None" using assms(1) by (simp add: pg_ok_def)
  from Close_new_total [OF assms(2,3) this r assms(6)]
  obtain x w1 where x: "invoiceRepo_Close iid items (Some p) w = (Inr x, w1)" by blast
  from pg_Close_law [OF assms(1) x] assms(4,5) have w1: "pg_ok w1" "inv_ID x = iid"
    "pg_book w1 = (pg_book w)(iid \<mapsto> closed_entry (w_now w) items e)"
    "entry_of x = closed_entry (w_now w) items e"
    by (auto simp: pg_book_def)
  moreover have "quiet w1" using Close_effect [OF x] assms(1,2) by (auto simp: quiet_def same_tx_def pg_ok_def)
  ultimately show ?thesis using x by blast
qed

lemma AppendLine_quiet:
  assumes "pg_ok w" "quiet w" "fresh_uuids w" "pg_book w iid = Some e" "ml_Kind item \<noteq> MLineBooking"
    "chargeable (w_tables w) iid [item]" "int64_ok (sint (e_total e) + sint (ml_AmountIDR item))"
  shows "\<exists>x w1. invoiceRepo_AppendLine iid item (Some p) w = (Inr x, w1) \<and> pg_ok w1 \<and> quiet w1 \<and>
    pg_book w1 = (pg_book w)(iid \<mapsto> charged [item] e)"
proof -
  obtain r where r: "find (\<lambda>r. iv_id r = iid) (t_invoice (w_tables w)) = Some r" "iv_total_idr r = e_total e"
    using assms(4) by (auto simp: pg_book_def view_Some entry_of_invoice_of)
  have k: "w_saved w = None" "keys_ok (w_tables w)" using assms(1) by (simp_all add: pg_ok_def books_ok_def)
  obtain x w1 where x: "invoiceRepo_AppendLine iid item (Some p) w = (Inr x, w1)"
    using AppendLine_total [OF assms(2,3) k(1) r(1) k(2) assms(6) assms(7) [folded r(2)], of p] by blast
  from pg_Append_law [OF assms(1,5) x] assms(4) have w1: "pg_ok w1"
    "pg_book w1 = (pg_book w)(iid \<mapsto> charged [item] e)" by auto
  moreover have "quiet w1" using AppendLine_effect [OF x] assms(1,2) by (auto simp: quiet_def same_tx_def pg_ok_def)
  ultimately show ?thesis using x by blast
qed

text \<open>What the charges of an entry say of the lines stored for it.\<close>

lemma stored_kinds:
  assumes "pg_book w iid = Some e"
  shows "ln_kind ` set (lines_of (w_tables w) iid) = fst ` set_mset (e_charges e)"
proof -
  obtain r where r: "find (\<lambda>r. iv_id r = iid) (t_invoice (w_tables w)) = Some r"
    "e = entry_of (invoice_of (w_tables w) r)" using assms by (auto simp: pg_book_def view_Some)
  have "iv_id r = iid" using find_Some_mem [OF r(1)] by simp
  then show ?thesis unfolding r(2) entry_of_invoice_of by (force simp: image_iff)
qed

lemma Open_quiet:
  assumes "quiet w" "pg_ok w" "fresh_uuids w" and uuid: "uuid_text res" and
    "\<forall>e \<in> ran (pg_book w). e_reservation e = res \<longleftrightarrow> e_key e = key"
  shows "\<exists>x w'. invoiceRepo_Open res drv key fee (Some p) w = (Inr x, w') \<and>
    inv_ReservationID x = res \<and> inv_IdempotencyKey x = key \<and>
    pg_book w' = (pg_book w)(inv_ID x \<mapsto> entry_of x) \<and>
    (if \<exists>e \<in> ran (pg_book w). e_key e = key then pg_book w (inv_ID x) = Some (entry_of x)
     else entry_of x = new_entry res drv key fee)"
proof -
  have k: "keys_ok (w_tables w)" "w_saved w = None" using assms(2) by (auto simp: pg_ok_def books_ok_def)
  have in_book: "entry_of (invoice_of (w_tables w) q) \<in> ran (pg_book w)" if "q \<in> set (t_invoice (w_tables w))" for q
    using view_row [OF k(1) that] by (auto simp: ran_def pg_book_def)
  have "\<exists>x w'. invoiceRepo_Open res drv key fee (Some p) w = (Inr x, w')"
  proof (cases "\<exists>q \<in> set (t_invoice (w_tables w)). iv_idempotency_key q = Some key")
    case True
    then show ?thesis using Open_replay_total [OF assms(1,2) _ _ uuid] by blast
  next
    case False
    have "iv_reservation_id q \<noteq> res" if q: "q \<in> set (t_invoice (w_tables w))" for q
      using assms(5) in_book [OF q] False q k(1)
      by (cases "iv_idempotency_key q") (auto simp: keys_ok_def rev_image_eqI)
    then show ?thesis using Open_new_total [OF assms(1,3) k(2) uuid] False by blast
  qed
  then obtain x w' where x: "invoiceRepo_Open res drv key fee (Some p) w = (Inr x, w')" by blast
  from pg_Open_law [OF assms(2) x] have
    "pg_book w' = pg_book w \<and> pg_book w (inv_ID x) = Some (entry_of x) \<and> inv_IdempotencyKey x = key \<or>
     (\<forall>e \<in> ran (pg_book w). e_key e \<noteq> key) \<and> entry_of x = new_entry res drv key fee \<and>
     pg_book w' = (pg_book w)(inv_ID x \<mapsto> new_entry res drv key fee)"
    by (auto simp: pg_book_def)
  then show ?thesis
  proof
    assume a: "pg_book w' = pg_book w \<and> pg_book w (inv_ID x) = Some (entry_of x) \<and> inv_IdempotencyKey x = key"
    then have "entry_of x \<in> ran (pg_book w)" by (auto simp: ran_def)
    then show ?thesis using a x assms(5) by (intro exI [of _ x] exI [of _ w']) (auto simp: fun_upd_idem)
  next
    assume a: "(\<forall>e \<in> ran (pg_book w). e_key e \<noteq> key) \<and> entry_of x = new_entry res drv key fee \<and>
      pg_book w' = (pg_book w)(inv_ID x \<mapsto> new_entry res drv key fee)"
    then have "inv_ReservationID x = res" "inv_IdempotencyKey x = key"
      using entry_of_sel(3,4) [of x] by (simp_all add: new_entry_def)
    then show ?thesis using a x by auto
  qed
qed

text \<open>The effect of one call of \<open>Open\<close> on the tables, and of a call that returned an invoice.\<close>

lemma opens_tables:
  assumes "opens res drv key fee evt now iid n t t'"
  shows "\<exists>p. evt = Some p \<and> t_outbox_event t' = t_outbox_event t @ [outbox_row_of n iid EvtInvoiceOpened p now] \<and>
    t_payment_requests t' = t_payment_requests t \<and> t_idempotency_key t' = t_idempotency_key t"
  using assms by (auto simp: opens_def table_ops)

lemma Open_tables:
  assumes "pg_ok w" "invoiceRepo_Open res drv key fee evt w = (r, w')"
  shows "w_tables w' = w_tables w \<and>
      (\<forall>x. r = Inr x \<longrightarrow> pg_book w (inv_ID x) = Some (entry_of x) \<and> inv_IdempotencyKey x = key) \<or>
    (\<exists>iid n. opens res drv key fee evt (w_now w) iid n (w_tables w) (w_tables w') \<and>
      (\<forall>x. r = Inr x \<longrightarrow> inv_ID x = iid))"
proof -
  have k: "w_saved w = None" "keys_ok (w_tables w)" using assms(1) by (auto simp: pg_ok_def books_ok_def)
  show ?thesis using Open_effect [OF assms(2) k(1)] findByIdem_returned [OF _ k(2)] book_returned
    by (fastforce simp: pg_book_def)
qed

section \<open>An empty database\<close>

text \<open>A reservation number.\<close>

definition reservation_1 :: string where
  "reservation_1 = ''7b0c8e1a-3f52-4d6e-9a41-5c2d8f907b13''"

lemma reservation_1_uuid [simp]: "uuid_text reservation_1"
  by (simp add: uuid_text_def reservation_1_def uuid_shape_def)

lemma reservation_1_nonempty [simp]: "reservation_1 \<noteq> []" "[] \<noteq> reservation_1"
  by (simp_all add: reservation_1_def)

definition no_tables :: tables where
  "no_tables = \<lparr>t_invoice = [], t_invoice_line = [], t_outbox_event = [], t_payment_requests = [],
                t_idempotency_key = []\<rparr>"

text \<open>A \<open>timestamptz\<close> keeps microseconds.\<close>

definition microseconds :: "Time \<Rightarrow> Time" where
  "microseconds t = (t + 500) div 1000 * 1000"

definition init_world :: "(nat \<Rightarrow> fault option) \<Rightarrow> (nat \<Rightarrow> fault option) \<Rightarrow> Time \<Rightarrow> world" where
  "init_world faults pub_faults now =
     \<lparr>w_tables = no_tables, w_saved = None, w_uuid = (\<lambda>n. replicate n CHR ''f''), w_draws = 0,
      w_seq = 1, w_now = now, w_faults = faults, w_calls = 0, w_sent = [],
      w_pub_faults = pub_faults, w_pubs = 0, w_pr_schema = \<lparr>ps_conflict = (\<lambda>rs r. \<exists>q \<in> set rs. pq_id q = pq_id r), ps_created_at = Some,
                     ps_updated_at = Some, ps_expires_at = microseconds\<rparr>\<rparr>"

lemma init_world_ok [simp]: "pg_ok (init_world f g now)"
  by (simp add: pg_ok_def init_world_def no_tables_def books_ok_def keys_ok_def lines_ok_def one_off_ok_def
      totals_ok_def status_ok_def events_ok_def serials_ok_def)

lemma init_world_fresh [simp]: "fresh_uuids (init_world f g now)"
  by (auto simp: fresh_uuids_def init_world_def no_tables_def dest: arg_cong [of _ _ length])

lemma init_world_sel [simp]:
  "w_tables (init_world f g now) = no_tables" "w_now (init_world f g now) = now"
  "pg_book (init_world f g now) = Map.empty" "quiet (init_world f g now) \<longleftrightarrow> f = (\<lambda>_. None)"
  "w_faults (init_world f g now) = f" "w_calls (init_world f g now) = 0"
  by (auto simp: init_world_def no_tables_def pg_book_def view_def quiet_def)

text \<open>A database with a single OPEN invoice.\<close>

definition one_tables :: "Time \<Rightarrow> tables" where
  "one_tables now =
     add_outbox (outbox_row_of 1 ''i'' EvtInvoiceOpened JNull now)
       (add_lines [line_of ''i'' now (booking_item 5000) ''l'']
         (add_invoice (opened_row ''i'' reservation_1 ''d'' ''k'' 5000 now) no_tables))"

definition one_world :: "(nat \<Rightarrow> fault option) \<Rightarrow> (nat \<Rightarrow> fault option) \<Rightarrow> Time \<Rightarrow> world" where
  "one_world faults pub_faults now =
     (init_world faults pub_faults now)\<lparr>w_tables := one_tables now, w_seq := 2\<rparr>"

lemma one_opens: "opens reservation_1 ''d'' ''k'' 5000 (Some JNull) now ''i'' 1 no_tables (one_tables now)"
  by (auto simp: opens_def one_tables_def no_tables_def)

lemma one_world_ok [simp]: "pg_ok (one_world f g now)"
proof -
  have "books_ok no_tables" using init_world_ok by (simp add: pg_ok_def)
  from opens_books_ok [OF one_opens this] show ?thesis
    by (simp add: pg_ok_def one_world_def serials_ok_def one_tables_def no_tables_def init_world_def)
qed

lemma one_world_sel [simp]:
  "quiet (one_world f g now) \<longleftrightarrow> f = (\<lambda>_. None)" "w_now (one_world f g now) = now"
  "w_tables (one_world f g now) = one_tables now"
  "pg_book (one_world f g now) = [''i'' \<mapsto> new_entry reservation_1 ''d'' ''k'' 5000]"
proof -
  have "books_ok no_tables" using init_world_ok by (simp add: pg_ok_def)
  from opens_view [OF one_opens this] show "pg_book (one_world f g now) = [''i'' \<mapsto> new_entry reservation_1 ''d'' ''k'' 5000]"
    by (auto simp: pg_book_def one_world_def view_def no_tables_def)
qed (simp_all add: one_world_def quiet_def init_world_def)

lemma one_world_fresh [simp]: "fresh_uuids (one_world f g now)"
proof -
  have "CHR ''i'' \<notin> set (replicate n CHR ''f'')" "CHR ''l'' \<notin> set (replicate n CHR ''f'')" for n by auto
  then have "''i'' \<noteq> replicate n CHR ''f''" "''l'' \<noteq> replicate n CHR ''f''" for n
    by (metis list.set_intros(1))+
  then show ?thesis
    by (auto simp: fresh_uuids_def one_world_def one_tables_def no_tables_def init_world_def
        dest: arg_cong [of _ _ length])
qed

section \<open>Properties of the repository\<close>

text \<open>
  C7: \<open>Open\<close> is all or nothing under any script of database failures: it keeps the invariant of the
  tables and either leaves every table as it was, in which case a returned invoice is the stored one
  with the caller's idempotency key, or has added one OPEN invoice for a reservation and a key not yet in
  use, with the booking fee as its only line and total, together with exactly one opened event.
\<close>

theorem Open_refines_ledger:
  assumes "pg_ok w" and "invoiceRepo_Open res drv key fee evt w = (r, w')"
  shows "pg_ok w' \<and> w_now w' = w_now w \<and>
      (w_tables w' = w_tables w \<and>
         (\<forall>x. r = Inr x \<longrightarrow> pg_book w (inv_ID x) = Some (entry_of x) \<and> inv_IdempotencyKey x = key) \<or>
       (\<exists>iid. pg_book w iid = None \<and> (\<forall>e \<in> ran (pg_book w). e_reservation e \<noteq> res \<and> e_key e \<noteq> key) \<and>
          pg_book w' = (pg_book w)(iid \<mapsto> new_entry res drv key fee) \<and>
          (\<exists>n p. evt = Some p \<and> outbox w' = outbox w @ [outbox_row_of n iid EvtInvoiceOpened p (w_now w)]) \<and>
          (\<forall>x. r = Inr x \<longrightarrow> inv_ID x = iid \<and> entry_of x = new_entry res drv key fee)))"
  by (rule pg_Open_law [OF assms])

theorem Open_refines_ledger_witness:
  "pg_ok (snd (invoiceRepo_Open reservation_1 ''d'' ''k'' 5000 (Some JNull)
     (init_world (\<lambda>n. if n = 4 then Some (Lost (DriverErr ''reset'')) else None) (\<lambda>_. None) 0)))"
  using Open_refines_ledger [OF init_world_ok surjective_pairing] by blast

text \<open>
  C6: \<open>Close\<close> is all or nothing under any script of database failures: either no table changes, and
  then a returned invoice is the stored one and is no longer OPEN, or an OPEN invoice became CLOSED at the
  current time with every non-BOOKING line added to its charges, its total raised by their sum, and one closed
  event in the outbox.
\<close>

theorem Close_refines_ledger:
  assumes "pg_ok w" and "invoiceRepo_Close iid items evt w = (r, w')"
  shows "pg_ok w' \<and> w_now w' = w_now w \<and>
      (w_tables w' = w_tables w \<and>
         (\<forall>x. r = Inr x \<longrightarrow> inv_ID x = iid \<and> pg_book w iid = Some (entry_of x) \<and> inv_Status x \<noteq> InvoiceOpen) \<or>
       (\<exists>e. pg_book w iid = Some e \<and> e_status e = InvoiceOpen \<and>
          pg_book w' = (pg_book w)(iid \<mapsto> closed_entry (w_now w) items e) \<and>
          (\<exists>n p. evt = Some p \<and> outbox w' = outbox w @ [outbox_row_of n iid EvtInvoiceClosed p (w_now w)]) \<and>
          (\<forall>x. r = Inr x \<longrightarrow> inv_ID x = iid \<and> entry_of x = closed_entry (w_now w) items e)))"
  by (rule pg_Close_law [OF assms])

theorem Close_refines_ledger_witness:
  "pg_ok (snd (invoiceRepo_Close ''i'' [booking_item 5000] (Some JNull)
     (init_world (\<lambda>n. None) (\<lambda>_. None) 0)))"
  using Close_refines_ledger [OF init_world_ok surjective_pairing] by blast

text \<open>
  C8: \<open>AppendLine\<close> of a fee line is all or nothing under any script of failures: an error may leave
  every table as it was; otherwise the invoice exists, the sum does not leave the range of \<open>bigint\<close>, the
  line and the total are updated together, and the event is stored with them.
\<close>

theorem AppendLine_refines_ledger:
  assumes "pg_ok w" and "ml_Kind item \<noteq> MLineBooking"
    and "invoiceRepo_AppendLine iid item evt w = (r, w')"
  shows "pg_ok w' \<and> w_now w' = w_now w \<and>
      (w_tables w' = w_tables w \<and> (\<exists>e. r = Inl e) \<or>
       (\<exists>e. pg_book w iid = Some e \<and> int64_ok (sint (e_total e) + sint (ml_AmountIDR item)) \<and>
          pg_book w' = (pg_book w)(iid \<mapsto> charged [item] e) \<and>
          (\<exists>n. outbox w' = outbox w @ (case evt of None \<Rightarrow> []
             | Some p \<Rightarrow> [outbox_row_of n iid EvtInvoiceClosed p (w_now w)])) \<and>
          (\<forall>x. r = Inr x \<longrightarrow> inv_ID x = iid \<and> entry_of x = charged [item] e)))"
  by (rule pg_Append_law [OF assms])

theorem AppendLine_refines_ledger_witness:
  "pg_ok (snd (invoiceRepo_AppendLine ''i'' ((booking_item 5000)\<lparr>ml_Kind := MLineNoShow\<rparr>) (Some JNull)
     (init_world (\<lambda>n. None) (\<lambda>_. None) 0)))"
  using AppendLine_refines_ledger [OF init_world_ok _ surjective_pairing,
      where item = "(booking_item 5000)\<lparr>ml_Kind := MLineNoShow\<rparr>"] by simp

text \<open>
  C28: a client that calls \<open>Open\<close>, meets any failure, and calls again once the database answers gets the
  invoice, and the two calls together had the effect of one on every table: nothing when the key was in use;
  otherwise one new OPEN invoice with its booking fee and one opened event. The reservation must be a UUID, and
  it must be in use exactly when the key is, as it is when keys are derived from reservations; without that
  correspondence C33 applies.
\<close>

theorem Open_retry_exactly_once:
  assumes "pg_ok w" and "\<forall>e \<in> ran (pg_book w). e_reservation e = res \<longleftrightarrow> e_key e = key"
    and "uuid_text res" and "invoiceRepo_Open res drv key fee (Some p) w = (r, w1)"
    and "w2 = w1\<lparr>w_faults := \<lambda>_. None\<rparr>" and "fresh_uuids w2"
  shows "\<exists>x w3. invoiceRepo_Open res drv key fee (Some p) w2 = (Inr x, w3) \<and>
    inv_ReservationID x = res \<and> inv_IdempotencyKey x = key \<and>
    (if \<exists>e \<in> ran (pg_book w). e_key e = key then w_tables w3 = w_tables w
     else pg_book w3 = (pg_book w)(inv_ID x \<mapsto> new_entry res drv key fee) \<and>
       (\<exists>n. outbox w3 = outbox w @ [outbox_row_of n (inv_ID x) EvtInvoiceOpened p (w_now w)]) \<and>
       t_payment_requests (w_tables w3) = t_payment_requests (w_tables w) \<and>
       t_idempotency_key (w_tables w3) = t_idempotency_key (w_tables w))"
proof -
  have ok: "books_ok (w_tables w)" "keys_ok (w_tables w)" using assms(1) by (auto simp: pg_ok_def books_ok_def)
  have "pg_ok w1" using pg_Open_law [OF assms(1,4)] by blast
  then have w2: "pg_ok w2" "quiet w2" "w_tables w2 = w_tables w1" "w_now w2 = w_now w"
    using pg_Open_law [OF assms(1,4)] by (auto simp: assms(5) pg_ok_def serials_ok_def quiet_def)
  have effect: "?thesis"
    if x: "invoiceRepo_Open res drv key fee (Some p) w2 = (Inr x, w3)" "inv_ReservationID x = res" "inv_IdempotencyKey x = key"
      and o1: "opens res drv key fee (Some p) (w_now w) (inv_ID x) n (w_tables w) (w_tables w3)" for x w3 n
  proof -
    have "\<not> (\<exists>e \<in> ran (pg_book w). e_key e = key)" using opens_fresh [OF o1 ok(2)] by (auto simp: pg_book_def)
    then show ?thesis using x opens_view [OF o1 ok(1)] opens_tables [OF o1]
      by (intro exI [of _ x] exI [of _ w3]) (auto simp: pg_book_def outbox_def)
  qed
  from Open_tables [OF assms(1,4)] consider (same) "w_tables w1 = w_tables w"
    | (new) iid n where "opens res drv key fee (Some p) (w_now w) iid n (w_tables w) (w_tables w1)" by blast
  then show ?thesis
  proof cases
    case same
    then have "\<forall>e \<in> ran (pg_book w2). e_reservation e = res \<longleftrightarrow> e_key e = key" using assms(2) w2(3) by (simp add: pg_book_def)
    from Open_quiet [OF w2(2,1) assms(6,3) this] obtain x w3 where
      x: "invoiceRepo_Open res drv key fee (Some p) w2 = (Inr x, w3)" "inv_ReservationID x = res" "inv_IdempotencyKey x = key"
      by blast
    from Open_tables [OF w2(1) x(1)] consider (again) "w_tables w3 = w_tables w" "pg_book w (inv_ID x) = Some (entry_of x)"
      | (now) n where "opens res drv key fee (Some p) (w_now w) (inv_ID x) n (w_tables w) (w_tables w3)"
      using same w2(3,4) by (auto simp: pg_book_def)
    then show ?thesis
    proof cases
      case again
      then have "entry_of x \<in> ran (pg_book w)" "e_key (entry_of x) = key" using x(3) by (auto simp: ran_def)
      then show ?thesis using x again(1) by auto
    next
      case now
      then show ?thesis using effect x by blast
    qed
  next
    case new
    have b1: "pg_book w2 = (pg_book w)(iid \<mapsto> new_entry res drv key fee)" and "pg_book w iid = None"
      using opens_view [OF new ok(1)] w2(3) by (simp_all add: pg_book_def)
    have fresh: "\<forall>e \<in> ran (pg_book w). e_reservation e \<noteq> res \<and> e_key e \<noteq> key"
      using opens_fresh [OF new ok(2)] by (auto simp: pg_book_def)
    then have "\<forall>e \<in> ran (pg_book w2). e_reservation e = res \<longleftrightarrow> e_key e = key"
      using b1 \<open>pg_book w iid = None\<close> by (auto simp: ran_map_upd)
    from Open_quiet [OF w2(2,1) assms(6,3) this] obtain x w3 where
      x: "invoiceRepo_Open res drv key fee (Some p) w2 = (Inr x, w3)" "inv_ReservationID x = res" "inv_IdempotencyKey x = key"
      by blast
    have used: "new_entry res drv key fee \<in> ran (pg_book w2)" using b1 by (auto simp: ran_def)
    have "w_tables w3 = w_tables w1 \<and> pg_book w2 (inv_ID x) = Some (entry_of x)"
    proof -
      have "\<not> opens res drv key fee (Some p) now i n (w_tables w2) t" for now i n t
        using opens_fresh [of res drv key fee _ now i n "w_tables w2" t] used w2(1)
        by (fastforce simp: pg_book_def pg_ok_def books_ok_def)
      then show ?thesis using Open_tables [OF w2(1) x(1)] w2(3) by auto
    qed
    moreover from this have "inv_ID x = iid"
      using x(3) b1 fresh by (auto simp: ran_def split: if_splits)
    ultimately show ?thesis using effect [OF x] new by auto
  qed
qed

theorem Open_retry_exactly_once_witness:
  "let w = init_world (\<lambda>n. if n = 4 then Some (Lost (DriverErr ''reset'')) else None) (\<lambda>_. None) 0;
       w2 = (snd (invoiceRepo_Open reservation_1 ''d'' ''k'' 5000 (Some JNull) w))\<lparr>w_faults := \<lambda>_. None\<rparr>
   in \<exists>x w3 n. invoiceRepo_Open reservation_1 ''d'' ''k'' 5000 (Some JNull) w2 = (Inr x, w3) \<and>
        pg_book w3 = [inv_ID x \<mapsto> new_entry reservation_1 ''d'' ''k'' 5000] \<and>
        outbox w3 = [outbox_row_of n (inv_ID x) EvtInvoiceOpened JNull 0]"
proof -
  define w where "w = init_world (\<lambda>n. if n = 4 then Some (Lost (DriverErr ''reset'')) else None) (\<lambda>_. None) 0"
  define w1 where "w1 = snd (invoiceRepo_Open reservation_1 ''d'' ''k'' 5000 (Some JNull) w)"
  have "fresh_uuids (w1\<lparr>w_faults := \<lambda>_. None\<rparr>)"
    by (auto simp: w1_def w_def invoiceRepo_Open_def andThen_def attempt_def BeginTxx_def db_call_def
        init_world_def no_tables_def tick_call_def deferRollback_def sql_insert_invoice_def Let_def
        set_tables_def sql_insert_line_def line_error_def sql_insert_outbox_def Commit_def rollback_def
        fresh_uuids_def numeral_eq_Suc dest: arg_cong [of _ _ length])
  moreover have "pg_ok w" "pg_book w = Map.empty" "w_now w = 0" "outbox w = []"
    by (simp_all add: w_def outbox_def no_tables_def)
  ultimately have "\<exists>x w3 n. invoiceRepo_Open reservation_1 ''d'' ''k'' 5000 (Some JNull) (w1\<lparr>w_faults := \<lambda>_. None\<rparr>) = (Inr x, w3) \<and>
        pg_book w3 = [inv_ID x \<mapsto> new_entry reservation_1 ''d'' ''k'' 5000] \<and>
        outbox w3 = [outbox_row_of n (inv_ID x) EvtInvoiceOpened JNull 0]"
    using Open_retry_exactly_once [of w reservation_1 "''k''" "''d''" 5000 JNull _ w1 "w1\<lparr>w_faults := \<lambda>_. None\<rparr>"]
    by (auto simp: w1_def prod_eq_iff)
  then show ?thesis by (simp add: w1_def w_def Let_def)
qed

text \<open>
  When the database answers, closing an OPEN invoice returns it CLOSED with exactly the billed lines
  added, and closing it again, with any lines and event, returns the same entry and changes no table.
\<close>

theorem Close_completes_once:
  assumes "pg_ok w" and "quiet w" and "fresh_uuids w" and "pg_book w iid = Some e"
    and "e_status e = InvoiceOpen"
    and "chargeable (w_tables w) iid (filter (\<lambda>l. ml_Kind l \<noteq> MLineBooking) items)"
  shows "\<exists>x w1. invoiceRepo_Close iid items (Some p) w = (Inr x, w1) \<and>
    pg_book w1 = (pg_book w)(iid \<mapsto> closed_entry (w_now w) items e) \<and>
    entry_of x = closed_entry (w_now w) items e \<and>
    (\<exists>y w2. invoiceRepo_Close iid items' evt' w1 = (Inr y, w2) \<and> entry_of y = entry_of x \<and>
       w_tables w2 = w_tables w1)"
proof -
  from Close_quiet [OF assms(1-6)] obtain x w1 where
    x: "invoiceRepo_Close iid items (Some p) w = (Inr x, w1)" and w1: "pg_ok w1"
    "pg_book w1 = (pg_book w)(iid \<mapsto> closed_entry (w_now w) items e)"
    "entry_of x = closed_entry (w_now w) items e" and "quiet w1" by blast
  then have "view (w_tables w1) iid = Some (closed_entry (w_now w) items e)" by (simp add: pg_book_def)
  then obtain q where q: "find (\<lambda>r. iv_id r = iid) (t_invoice (w_tables w1)) = Some q"
    "iv_status q = InvoiceClosed" unfolding view_Some
    by (metis charged_sel(5) entry_of_sel(1) invoice_of_sel(2))
  have quiet: "quiet w1" "w_saved w1 = None" using \<open>quiet w1\<close> w1(1) by (simp_all add: pg_ok_def)
  obtain y w2 where y: "invoiceRepo_Close iid items' evt' w1 = (Inr y, w2)"
    using Close_done_total [OF quiet q(1), of items' evt'] q(2) by auto
  from pg_Close_law [OF w1(1) y] w1(2,3) have "entry_of y = entry_of x \<and> w_tables w2 = w_tables w1"
    by (auto simp: closed_entry_def)
  with x y w1 show ?thesis by blast
qed

theorem Close_completes_once_witness:
  "\<exists>x w1. invoiceRepo_Close ''i'' [(booking_item 10000)\<lparr>ml_Kind := MLineHourly\<rparr>] (Some JNull)
       (one_world (\<lambda>_. None) (\<lambda>_. None) 7) = (Inr x, w1) \<and> sint (inv_TotalIDR x) = 15000 \<and>
     (\<exists>y w2. invoiceRepo_Close ''i'' [] None w1 = (Inr y, w2) \<and> entry_of y = entry_of x \<and>
        w_tables w2 = w_tables w1)"
proof -
  let ?item = "(booking_item 10000)\<lparr>ml_Kind := MLineHourly\<rparr>"
  have c: "chargeable (w_tables (one_world (\<lambda>_. None) (\<lambda>_. None) 7)) ''i''
      (filter (\<lambda>l. ml_Kind l \<noteq> MLineBooking) [?item])"
    by (simp add: chargeable_def one_off_def)
  from Close_completes_once [OF one_world_ok _ one_world_fresh _ _ c, where p = JNull and
      e = "new_entry reservation_1 ''d'' ''k'' 5000" and items' = "[]" and evt' = None]
  obtain x w1 where x: "invoiceRepo_Close ''i'' [?item] (Some JNull) (one_world (\<lambda>_. None) (\<lambda>_. None) 7) = (Inr x, w1)"
    "entry_of x = closed_entry 7 [?item] (new_entry reservation_1 ''d'' ''k'' 5000)"
    "\<exists>y w2. invoiceRepo_Close ''i'' [] None w1 = (Inr y, w2) \<and> entry_of y = entry_of x \<and>
        w_tables w2 = w_tables w1"
    by auto
  have "inv_TotalIDR x = 15000"
    using entry_of_sel(2) [of x] x(2) by (simp add: closed_entry_def charged_def new_entry_def booking_item_def)
  with x show ?thesis by auto
qed

text \<open>
  C33: opening an invoice for a reservation that already has one, under another idempotency key, does not
  return it: the unique violation on the reservation is taken for a replay of the key, and the lookup by
  key answers NOT_FOUND.
\<close>

theorem Open_reservation_taken:
  assumes "pg_ok w" and "quiet w" and "r \<in> set (t_invoice (w_tables w))"
    and "iv_reservation_id r = res" and "\<forall>e \<in> ran (pg_book w). e_key e \<noteq> key"
  shows "fst (invoiceRepo_Open res drv key fee evt w) = Inl ErrNotFound \<and>
    w_tables (snd (invoiceRepo_Open res drv key fee evt w)) = w_tables w"
proof -
  have k: "keys_ok (w_tables w)" "w_saved w = None" using assms(1) by (auto simp: pg_ok_def books_ok_def)
  have "iv_idempotency_key q \<noteq> Some key" if "q \<in> set (t_invoice (w_tables w))" for q
    using assms(5) view_row [OF k(1) that] by (fastforce simp: pg_book_def ran_def)
  then have "find (\<lambda>q. iv_idempotency_key q = Some key) (t_invoice (w_tables w)) = None"
    by (auto simp: find_None_iff)
  moreover have "uuid_text res" using assms(3,4) k(1) by (auto simp: keys_ok_def)
  ultimately show ?thesis using assms(2-4) k(2)
    by (auto simp: quiet_def invoiceRepo_Open_def andThen_def attempt_def BeginTxx_def db_call_def
        deferRollback_def sql_insert_invoice_def Let_def codeUniqueViolation_def Rollback_def
        rollback_def invoiceRepo_findByIdem_def sql_invoice_by_idem_def orNotFound_def select_row_def)
qed

theorem Open_reservation_taken_witness:
  "fst (invoiceRepo_Open reservation_1 ''d'' ''other'' 5000 (Some JNull) (one_world (\<lambda>_. None) (\<lambda>_. None) 7)) =
     Inl ErrNotFound"
  using Open_reservation_taken [OF one_world_ok, of "\<lambda>_. None" "\<lambda>_. None" 7
      "opened_row ''i'' reservation_1 ''d'' ''k'' 5000 7" "reservation_1" "''other''" "''d''" 5000 "Some JNull"]
  by (simp add: one_tables_def no_tables_def)

end
