(* ===== verification/Payment_Repo.thy ===== *)
theory Payment_Repo
  imports Repo_Progress
begin

text \<open>
  \<^verbatim>\<open>internal/billing/repository/postgres/payment_request.go\<close>: the repository of payment requests, and the
  interface \<open>PaymentRequestRepository\<close> of \<^verbatim>\<open>repository/type.go\<close>.
\<close>

section \<open>The interface\<close>

record 'w PaymentRequestRepository =
  pp_Create :: "PaymentRequest \<Rightarrow> ('w, goerror, PaymentRequest) io"
  pp_GetByID :: "string \<Rightarrow> ('w, goerror, PaymentRequest) io"
  pp_GetByReservationID :: "string \<Rightarrow> ('w, goerror, PaymentRequest) io"
  pp_GetByPaymentRef :: "string \<Rightarrow> ('w, goerror, PaymentRequest) io"
  pp_UpdateStatus :: "string \<Rightarrow> PaymentRequestStatus \<Rightarrow> ('w, goerror, unit) io"
  pp_UpdateStatusByPaymentRef ::
    "string \<Rightarrow> PaymentRequestStatus \<Rightarrow> string \<Rightarrow> json option \<Rightarrow> ('w, goerror, PaymentRequest) io"

section \<open>Statements\<close>

definition set_payments :: "(payment_request_row list \<Rightarrow> payment_request_row list) \<Rightarrow> world \<Rightarrow> world" where
  "set_payments f = set_tables (\<lambda>t. t\<lparr>t_payment_requests := f (t_payment_requests t)\<rparr>)"

definition sql_insert_payment_request :: "PaymentRequest \<Rightarrow> (Time option \<times> Time option) dbio" where
  "sql_insert_payment_request req w =
     (let sch = w_pr_schema w;
          row = \<lparr>pq_id = pr_ID req, pq_reservation_id = pr_ReservationID req,
                 pq_invoice_id = pr_InvoiceID req, pq_amount_idr = pr_AmountIDR req,
                 pq_method = pr_Method req, pq_status = pr_Status req,
                 pq_payment_ref = pr_PaymentRef req, pq_qris_url = pr_QRISURL req,
                 pq_expires_at = Some (ps_expires_at sch (pr_ExpiresAt req)), pq_created_at = ps_created_at sch (w_now w),
                 pq_updated_at = ps_updated_at sch (w_now w)\<rparr>
      in if ps_conflict sch (t_payment_requests (w_tables w)) row
         then (Inl (PqError codeUniqueViolation), w)
         else (Inr (pq_created_at row, pq_updated_at row), set_payments (\<lambda>rs. rs @ [row]) w))"

definition sql_payment_by_id :: "string \<Rightarrow> payment_request_row dbio" where
  "sql_payment_by_id iid = select_row (\<lambda>r. pq_id r = iid) t_payment_requests"

definition sql_payment_by_ref :: "string \<Rightarrow> payment_request_row dbio" where
  "sql_payment_by_ref ref = select_row (\<lambda>r. pq_payment_ref r = ref) t_payment_requests"

text \<open>
  \<open>ORDER BY created_at DESC LIMIT 1\<close>: SQL puts NULL first; among equal times, where SQL leaves the
  choice open, the row inserted first.
\<close>

definition newer :: "Time option \<Rightarrow> Time option \<Rightarrow> bool" where
  "newer a b \<longleftrightarrow> (case (a, b) of (_, None) \<Rightarrow> False | (None, Some _) \<Rightarrow> True | (Some x, Some y) \<Rightarrow> x > y)"

fun latest :: "payment_request_row list \<Rightarrow> payment_request_row option" where
  "latest [] = None"
| "latest (r # rs) =
     (case latest rs of None \<Rightarrow> Some r
      | Some q \<Rightarrow> if newer (pq_created_at q) (pq_created_at r) then Some q else Some r)"

definition sql_payment_by_reservation :: "string \<Rightarrow> payment_request_row dbio" where
  "sql_payment_by_reservation res w =
     (case latest (filter (\<lambda>r. pq_reservation_id r = res) (t_payment_requests (w_tables w))) of
        None \<Rightarrow> (Inl ErrNoRows, w) | Some r \<Rightarrow> (Inr r, w))"

definition status_row :: "(payment_request_row \<Rightarrow> bool) \<Rightarrow> PaymentRequestStatus \<Rightarrow> Time \<Rightarrow>
    payment_request_row \<Rightarrow> payment_request_row" where
  "status_row P st now r = (if P r then r\<lparr>pq_status := st, pq_updated_at := Some now\<rparr> else r)"

definition sql_update_status :: "string \<Rightarrow> PaymentRequestStatus \<Rightarrow> unit dbio" where
  "sql_update_status iid st w =
     (Inr (), set_payments (map (status_row (\<lambda>r. pq_id r = iid) st (w_now w))) w)"

text \<open>\<open>updateStatusByRefSQL\<close> updates every row with the reference; \<open>Scan\<close> reads the first one.\<close>

definition sql_update_status_by_ref ::
    "string \<Rightarrow> PaymentRequestStatus \<Rightarrow> (string \<times> string \<times> string) dbio" where
  "sql_update_status_by_ref ref st w =
     (case find (\<lambda>r. pq_payment_ref r = ref) (t_payment_requests (w_tables w)) of
        None \<Rightarrow> (Inl ErrNoRows, w)
      | Some r \<Rightarrow> (Inr (pq_id r, pq_reservation_id r, pq_invoice_id r),
                  set_payments (map (status_row (\<lambda>r. pq_payment_ref r = ref) st (w_now w))) w))"

section \<open>Operations\<close>

definition paymentRequestRow_toModel :: "payment_request_row \<Rightarrow> PaymentRequest" where
  "paymentRequestRow_toModel r =
     \<lparr>pr_ID = pq_id r, pr_ReservationID = pq_reservation_id r, pr_InvoiceID = pq_invoice_id r,
      pr_AmountIDR = pq_amount_idr r, pr_Method = pq_method r, pr_Status = pq_status r,
      pr_PaymentRef = pq_payment_ref r, pr_QRISURL = pq_qris_url r,
      pr_ExpiresAt = (case pq_expires_at r of None \<Rightarrow> 0 | Some t \<Rightarrow> t),
      pr_CreatedAt = (case pq_created_at r of None \<Rightarrow> 0 | Some t \<Rightarrow> t),
      pr_UpdatedAt = (case pq_updated_at r of None \<Rightarrow> 0 | Some t \<Rightarrow> t)\<rparr>"

text \<open>\<open>uuid.New().String()\<close> draws the next identifier.\<close>

definition new_uuid :: "string dbio" where
  "new_uuid w = (Inr (w_uuid w (w_draws w)), w\<lparr>w_draws := w_draws w + 1\<rparr>)"

text \<open>The two fields \<open>Create\<close> fills in when they are empty.\<close>

definition filled :: "string \<Rightarrow> PaymentRequest \<Rightarrow> PaymentRequest" where
  "filled ident req0 =
     (let req = req0\<lparr>pr_ID := ident\<rparr>
      in if pr_PaymentRef req = [] then req\<lparr>pr_PaymentRef := ''PAY-'' @ pr_ID req\<rparr> else req)"

definition paymentRequestRepo_Create :: "PaymentRequest \<Rightarrow> PaymentRequest dbio" where
  "paymentRequestRepo_Create req0 =
     andThen (if pr_ID req0 = [] then new_uuid else ret (pr_ID req0)) (\<lambda>ident.
       let req = filled ident req0
       in attempt (db_call (sql_insert_payment_request req)) (\<lambda>r. case r of
            Inl err \<Rightarrow>
              if errors_As_PqError err = Some codeUniqueViolation
              then throw (AppError ''CONFLICT'' ''payment request already exists'' None)
              else throw err
          | Inr (createdAt, updatedAt) \<Rightarrow>
              ret (req\<lparr>pr_CreatedAt := (case createdAt of None \<Rightarrow> pr_CreatedAt req | Some t \<Rightarrow> t),
                       pr_UpdatedAt := (case updatedAt of None \<Rightarrow> pr_UpdatedAt req | Some t \<Rightarrow> t)\<rparr>)))"

definition scanPaymentRequest :: "payment_request_row dbio \<Rightarrow> PaymentRequest dbio" where
  "scanPaymentRequest query =
     andThen (orNotFound (db_call query)) (\<lambda>row. ret (paymentRequestRow_toModel row))"

definition paymentRequestRepo_GetByID :: "string \<Rightarrow> PaymentRequest dbio" where
  "paymentRequestRepo_GetByID iid = scanPaymentRequest (sql_payment_by_id iid)"

definition paymentRequestRepo_GetByReservationID :: "string \<Rightarrow> PaymentRequest dbio" where
  "paymentRequestRepo_GetByReservationID res = scanPaymentRequest (sql_payment_by_reservation res)"

definition paymentRequestRepo_GetByPaymentRef :: "string \<Rightarrow> PaymentRequest dbio" where
  "paymentRequestRepo_GetByPaymentRef ref = scanPaymentRequest (sql_payment_by_ref ref)"

definition paymentRequestRepo_UpdateStatus :: "string \<Rightarrow> PaymentRequestStatus \<Rightarrow> unit dbio" where
  "paymentRequestRepo_UpdateStatus iid st = db_call (sql_update_status iid st)"

definition paymentRequestRepo_UpdateStatusByPaymentRef ::
    "string \<Rightarrow> PaymentRequestStatus \<Rightarrow> string \<Rightarrow> json option \<Rightarrow> PaymentRequest dbio" where
  "paymentRequestRepo_UpdateStatusByPaymentRef paymentRef status eventType eventPayload =
     andThen BeginTxx (\<lambda>_. deferRollback (
       andThen (orNotFound (db_call (sql_update_status_by_ref paymentRef status)))
         (\<lambda>(ident, reservationID, invoiceID).
       andThen (if eventPayload \<noteq> None
                then db_call (sql_insert_outbox invoiceID eventType eventPayload) else ret ()) (\<lambda>_.
       andThen Commit (\<lambda>_. paymentRequestRepo_GetByID ident)))))"

definition NewPaymentRequestRepository :: "world PaymentRequestRepository" where
  "NewPaymentRequestRepository =
     \<lparr>pp_Create = paymentRequestRepo_Create, pp_GetByID = paymentRequestRepo_GetByID,
      pp_GetByReservationID = paymentRequestRepo_GetByReservationID,
      pp_GetByPaymentRef = paymentRequestRepo_GetByPaymentRef,
      pp_UpdateStatus = paymentRequestRepo_UpdateStatus,
      pp_UpdateStatusByPaymentRef = paymentRequestRepo_UpdateStatusByPaymentRef\<rparr>"

section \<open>Effects\<close>

lemma payment_frames [frame_intros]:
  "rel same_tx (sql_insert_payment_request req)" "rel same_tx (sql_update_status i st)"
  "rel same_tx (sql_update_status_by_ref i st)" "rel reads_only (sql_payment_by_id i)"
  "rel reads_only (sql_payment_by_ref i)" "rel reads_only (sql_payment_by_reservation i)"
  by (auto simp: sql_insert_payment_request_def sql_update_status_def sql_update_status_by_ref_def
      set_payments_def sql_payment_by_id_def sql_payment_by_ref_def sql_payment_by_reservation_def
      select_row_def rel_def same_tx_def Let_def split: option.split)

lemma payment_read_frames [frame_intros]:
  "rel reads_only (paymentRequestRepo_GetByID i)" "rel reads_only (paymentRequestRepo_GetByPaymentRef i)"
  "rel reads_only (paymentRequestRepo_GetByReservationID i)"
  unfolding paymentRequestRepo_GetByID_def paymentRequestRepo_GetByPaymentRef_def
    paymentRequestRepo_GetByReservationID_def scanPaymentRequest_def
  by (intro frame_intros; auto intro: frame_intros)+

text \<open>The stored payment requests, in the order of their creation.\<close>

definition pg_pays :: "world \<Rightarrow> PaymentRequest list" where
  "pg_pays w = map paymentRequestRow_toModel (t_payment_requests (w_tables w))"

definition settle :: "string \<Rightarrow> PaymentRequestStatus \<Rightarrow> Time \<Rightarrow> PaymentRequest \<Rightarrow> PaymentRequest" where
  "settle ref st now p =
     (if pr_PaymentRef p = ref then p\<lparr>pr_Status := st, pr_UpdatedAt := now\<rparr> else p)"

lemma toModel_sel [simp]:
  "pr_ID (paymentRequestRow_toModel r) = pq_id r"
  "pr_PaymentRef (paymentRequestRow_toModel r) = pq_payment_ref r"
  "pr_InvoiceID (paymentRequestRow_toModel r) = pq_invoice_id r"
  "pr_ReservationID (paymentRequestRow_toModel r) = pq_reservation_id r"
  by (simp_all add: paymentRequestRow_toModel_def)

lemma toModel_status_row:
  "paymentRequestRow_toModel (status_row (\<lambda>r. pq_payment_ref r = ref) st now r) =
     settle ref st now (paymentRequestRow_toModel r)"
  by (simp add: settle_def status_row_def paymentRequestRow_toModel_def)

lemma find_pays:
  "find (\<lambda>p. pr_PaymentRef p = ref) (pg_pays w) =
     map_option paymentRequestRow_toModel
       (find (\<lambda>r. pq_payment_ref r = ref) (t_payment_requests (w_tables w)))"
  by (simp add: pg_pays_def find_map_eq comp_def)

text \<open>Writes to other tables and events of other types do not touch the invoices.\<close>

lemma view_cong:
  "t_invoice t' = t_invoice t \<Longrightarrow> t_invoice_line t' = t_invoice_line t \<Longrightarrow> view t' = view t"
  by (simp add: view_def fun_eq_iff invoice_of_def lines_of_def comp_def)

lemma books_ok_frame:
  assumes "books_ok t" "t_invoice t' = t_invoice t" "t_invoice_line t' = t_invoice_line t"
    "t_outbox_event t' = t_outbox_event t @ es" "\<forall>e \<in> set es. ob_event_type e \<noteq> EvtInvoiceOpened"
  shows "books_ok t'"
  using assms
  by (auto simp: books_ok_def keys_ok_def lines_ok_def totals_ok_def status_ok_def events_ok_def
      lines_of_def events_of_def filter_empty_conv)

lemma pg_ok_events:
  assumes "pg_ok w" "same_tx w w'" "t_invoice (w_tables w') = t_invoice (w_tables w)"
    "t_invoice_line (w_tables w') = t_invoice_line (w_tables w)" "outbox w' = outbox w @ es"
    "\<forall>e \<in> set es. ob_event_type e \<noteq> EvtInvoiceOpened" "serials_ok w'"
  shows "pg_ok w' \<and> pg_book w' = pg_book w"
proof -
  have "books_ok (w_tables w')"
    using books_ok_frame [OF _ assms(3,4) assms(5) [unfolded outbox_def] assms(6)] assms(1)
    by (simp add: pg_ok_def)
  moreover have "pg_book w' = pg_book w" using view_cong [OF assms(3,4)] by (simp add: pg_book_def)
  ultimately show ?thesis using assms(1,2,7) by (simp add: pg_ok_def same_tx_def)
qed

lemma pg_ok_frame:
  assumes "pg_ok w" "same_tx w w'" "t_invoice (w_tables w') = t_invoice (w_tables w)"
    "t_invoice_line (w_tables w') = t_invoice_line (w_tables w)" "outbox w' = outbox w"
  shows "pg_ok w' \<and> pg_book w' = pg_book w"
proof -
  have "serials_ok w'" using serials_same [of w w'] assms(1,2,5)
    by (simp add: pg_ok_def same_tx_def outbox_def)
  then show ?thesis using pg_ok_events [OF assms(1-4), of "[]"] assms(5) by simp
qed

lemma pg_ok_event:
  assumes "pg_ok w" "same_tx w w'" "t_invoice (w_tables w') = t_invoice (w_tables w)"
    "t_invoice_line (w_tables w') = t_invoice_line (w_tables w)"
    "outbox w' = outbox w @ [outbox_row_of n a ty p now]" "w_seq w \<le> n" "n < w_seq w'"
    "ty \<noteq> EvtInvoiceOpened"
  shows "pg_ok w' \<and> pg_book w' = pg_book w"
proof -
  have "\<exists>o1. ob_id o1 = n \<and> t_outbox_event (w_tables w') = t_outbox_event (w_tables w) @ [o1]"
    using assms(5) by (simp add: outbox_def)
  then have "serials_ok w'" using serials_append [OF _ assms(6,7)] assms(1) by (simp add: pg_ok_def)
  then show ?thesis using pg_ok_events [OF assms(1-5)] assms(8) by simp
qed

text \<open>How the table keeps the expiry of a request.\<close>

definition pg_expiry :: "world \<Rightarrow> Time \<Rightarrow> Time" where
  "pg_expiry w = ps_expires_at (w_pr_schema w)"

definition as_stored :: "(Time \<Rightarrow> Time) \<Rightarrow> PaymentRequest \<Rightarrow> PaymentRequest" where
  "as_stored f p = p\<lparr>pr_ExpiresAt := f (pr_ExpiresAt p)\<rparr>"

lemma as_stored_sel [simp]:
  "pr_ID (as_stored f p) = pr_ID p" "pr_ReservationID (as_stored f p) = pr_ReservationID p"
  "pr_InvoiceID (as_stored f p) = pr_InvoiceID p" "pr_PaymentRef (as_stored f p) = pr_PaymentRef p"
  "pr_Status (as_stored f p) = pr_Status p" "pr_QRISURL (as_stored f p) = pr_QRISURL p"
  "pr_ExpiresAt (as_stored f p) = f (pr_ExpiresAt p)"
  by (simp_all add: as_stored_def)

lemma pg_expiry_simps [simp]: "pg_expiry (tick_call w) = pg_expiry w" "same_tx w w' \<Longrightarrow> pg_expiry w' = pg_expiry w"
  by (simp_all add: pg_expiry_def same_tx_def)

lemma insert_payment_stmt:
  assumes "sql_insert_payment_request req w = (r, w')"
  shows "same_tx w w' \<and> t_invoice (w_tables w') = t_invoice (w_tables w) \<and>
    t_invoice_line (w_tables w') = t_invoice_line (w_tables w) \<and> outbox w' = outbox w \<and>
    (pg_pays w' = pg_pays w \<and> (\<exists>e. r = Inl e) \<or>
     (\<exists>c u. pg_pays w' = pg_pays w @ [as_stored (pg_expiry w) (req\<lparr>pr_CreatedAt := (case c of None \<Rightarrow> 0 | Some t \<Rightarrow> t),
          pr_UpdatedAt := (case u of None \<Rightarrow> 0 | Some t \<Rightarrow> t)\<rparr>)] \<and> r = Inr (c, u)))"
proof -
  have "same_tx w w'" using relD [OF payment_frames(1) assms] .
  then show ?thesis using assms
    by (auto simp: sql_insert_payment_request_def Let_def set_payments_def pg_pays_def
        outbox_def paymentRequestRow_toModel_def as_stored_def pg_expiry_def split: if_splits)
qed

text \<open>A round trip that fails has its effect or not; one that returns has it.\<close>

lemma db_call_E:
  assumes "db_call stmt w = (r, w')"
  obtains (ran) "stmt (tick_call w) = (r, w')" | (failed) e where "r = Inl e" "w' = tick_call w"
  | (lost) e s where "r = Inl e" "stmt (tick_call w) = (s, w')"
  using assms by (cases "stmt (tick_call w)") (auto simp: db_call_def split: option.splits fault.splits)

lemma insert_payment_E:
  assumes "db_call (sql_insert_payment_request req) w = (r, w')"
  shows "same_tx w w' \<and> t_invoice (w_tables w') = t_invoice (w_tables w) \<and>
    t_invoice_line (w_tables w') = t_invoice_line (w_tables w) \<and> outbox w' = outbox w \<and>
    (pg_pays w' = pg_pays w \<and> (\<exists>e. r = Inl e) \<or>
     (\<exists>c u. pg_pays w' = pg_pays w @ [as_stored (pg_expiry w) (req\<lparr>pr_CreatedAt := (case c of None \<Rightarrow> 0 | Some t \<Rightarrow> t),
          pr_UpdatedAt := (case u of None \<Rightarrow> 0 | Some t \<Rightarrow> t)\<rparr>)] \<and> ((\<exists>e. r = Inl e) \<or> r = Inr (c, u))))"
proof -
  have tick: "same_tx w (tick_call w)" "outbox (tick_call w) = outbox w" "pg_pays (tick_call w) = pg_pays w"
    by (simp_all add: outbox_def pg_pays_def same_tx_def)
  show ?thesis using assms
  proof (cases rule: db_call_E)
    case ran
    show ?thesis using insert_payment_stmt [OF ran] tick same_tx_trans [OF tick(1), of w'] by auto
  next
    case (failed e)
    then show ?thesis using tick by simp
  next
    case (lost e s)
    show ?thesis using insert_payment_stmt [OF lost(2)] lost(1) tick same_tx_trans [OF tick(1), of w'] by auto
  qed
qed

text \<open>
  What \<open>Create\<close> stores for a request: the request, its expiry as the column keeps it, its identifier and
  reference filled in. What it returns is the stored request but for the expiry, which is as asked.
\<close>

definition stores :: "(Time \<Rightarrow> Time) \<Rightarrow> PaymentRequest \<Rightarrow> PaymentRequest \<Rightarrow> bool" where
  "stores f req q \<longleftrightarrow>
     q\<lparr>pr_ID := pr_ID req, pr_PaymentRef := pr_PaymentRef req, pr_CreatedAt := pr_CreatedAt req,
        pr_UpdatedAt := pr_UpdatedAt req\<rparr> = as_stored f req \<and>
     (pr_ID req \<noteq> [] \<longrightarrow> pr_ID q = pr_ID req) \<and>
     pr_PaymentRef q = (if pr_PaymentRef req = [] then ''PAY-'' @ pr_ID q else pr_PaymentRef req)"

definition answers :: "(Time \<Rightarrow> Time) \<Rightarrow> PaymentRequest \<Rightarrow> PaymentRequest \<Rightarrow> PaymentRequest \<Rightarrow> bool" where
  "answers f req q x \<longleftrightarrow> q = as_stored f x \<and> pr_ExpiresAt x = pr_ExpiresAt req"

lemma filled_stores:
  "(pr_ID req \<noteq> [] \<longrightarrow> ident = pr_ID req) \<Longrightarrow> stores f req (as_stored f ((filled ident req)\<lparr>pr_CreatedAt := c, pr_UpdatedAt := u\<rparr>))"
  by (simp add: stores_def filled_def Let_def as_stored_def)

lemma filled_times [simp]:
  "pr_CreatedAt (filled ident req) = pr_CreatedAt req" "pr_UpdatedAt (filled ident req) = pr_UpdatedAt req"
  "pr_ExpiresAt (filled ident req) = pr_ExpiresAt req"
  by (simp_all add: filled_def Let_def)

lemma Create_cases:
  assumes "paymentRequestRepo_Create req w = (r, w')"
  shows "\<exists>ident w1 s. same_tx w w1 \<and> w_tables w1 = w_tables w \<and> (pr_ID req \<noteq> [] \<longrightarrow> ident = pr_ID req) \<and>
    db_call (sql_insert_payment_request (filled ident req)) w1 = (s, w') \<and>
    (\<forall>e. s = Inl e \<longrightarrow> (\<exists>e'. r = Inl e')) \<and>
    (\<forall>c u. s = Inr (c, u) \<longrightarrow> r = Inr ((filled ident req)
        \<lparr>pr_CreatedAt := (case c of None \<Rightarrow> pr_CreatedAt req | Some t \<Rightarrow> t),
         pr_UpdatedAt := (case u of None \<Rightarrow> pr_UpdatedAt req | Some t \<Rightarrow> t)\<rparr>))"
proof -
  define w1 where "w1 = (if pr_ID req = [] then w\<lparr>w_draws := w_draws w + 1\<rparr> else w)"
  define ident where "ident = (if pr_ID req = [] then w_uuid w (w_draws w) else pr_ID req)"
  obtain s w2 where s: "db_call (sql_insert_payment_request (filled ident req)) w1 = (s, w2)"
    by (cases "db_call (sql_insert_payment_request (filled ident req)) w1")
  have first: "(if pr_ID req = [] then new_uuid else ret (pr_ID req)) w = (Inr ident, w1)"
    by (simp add: new_uuid_def w1_def ident_def)
  have "(case s of Inl err \<Rightarrow>
              if errors_As_PqError err = Some codeUniqueViolation
              then throw (AppError ''CONFLICT'' ''payment request already exists'' None)
              else throw err
          | Inr (c, u) \<Rightarrow>
              ret ((filled ident req)\<lparr>pr_CreatedAt := (case c of None \<Rightarrow> pr_CreatedAt req | Some t \<Rightarrow> t),
                       pr_UpdatedAt := (case u of None \<Rightarrow> pr_UpdatedAt req | Some t \<Rightarrow> t)\<rparr>)) w2 = (r, w')"
    using assms
    by (simp add: paymentRequestRepo_Create_def Let_def andThen_def first attempt_def s
        cong del: option.case_cong_weak sum.case_cong_weak)
  moreover have "same_tx w w1" "w_tables w1 = w_tables w" "pr_ID req \<noteq> [] \<longrightarrow> ident = pr_ID req"
    by (auto simp: w1_def ident_def same_tx_def)
  ultimately show ?thesis using s
    by (intro exI [of _ ident] exI [of _ w1] exI [of _ s]) (auto split: sum.splits if_splits)
qed

lemma Create_effect:
  assumes "paymentRequestRepo_Create req w = (r, w')"
  shows "same_tx w w' \<and> t_invoice (w_tables w') = t_invoice (w_tables w) \<and>
    t_invoice_line (w_tables w') = t_invoice_line (w_tables w) \<and> outbox w' = outbox w \<and>
    (pg_pays w' = pg_pays w \<and> (\<exists>e. r = Inl e) \<or>
     (\<exists>q. pg_pays w' = pg_pays w @ [q] \<and> stores (pg_expiry w) req q \<and>
        (pr_CreatedAt req = 0 \<longrightarrow> pr_UpdatedAt req = 0 \<longrightarrow> (\<forall>x. r = Inr x \<longrightarrow> answers (pg_expiry w) req q x))))"
proof -
  obtain ident w1 s where c: "same_tx w w1" "w_tables w1 = w_tables w" "pr_ID req \<noteq> [] \<longrightarrow> ident = pr_ID req"
    "db_call (sql_insert_payment_request (filled ident req)) w1 = (s, w')"
    "\<forall>e. s = Inl e \<longrightarrow> (\<exists>e'. r = Inl e')"
    "\<forall>c u. s = Inr (c, u) \<longrightarrow> r = Inr ((filled ident req)
        \<lparr>pr_CreatedAt := (case c of None \<Rightarrow> pr_CreatedAt req | Some t \<Rightarrow> t),
         pr_UpdatedAt := (case u of None \<Rightarrow> pr_UpdatedAt req | Some t \<Rightarrow> t)\<rparr>)"
    using Create_cases [OF assms] by blast
  note eff = insert_payment_E [OF c(4)]
  have same: "pg_pays w1 = pg_pays w" "outbox w1 = outbox w" using c(2) by (simp_all add: pg_pays_def outbox_def)
  have rest: "same_tx w w'" "t_invoice (w_tables w') = t_invoice (w_tables w)"
    "t_invoice_line (w_tables w') = t_invoice_line (w_tables w)" "outbox w' = outbox w"
    using eff c(2) same same_tx_trans [OF c(1)] by auto
  from eff consider (no) e where "pg_pays w' = pg_pays w1" "s = Inl e"
    | (yes) a u where "pg_pays w' = pg_pays w1 @ [as_stored (pg_expiry w) ((filled ident req)\<lparr>pr_CreatedAt := (case a of None \<Rightarrow> 0 | Some t \<Rightarrow> t),
          pr_UpdatedAt := (case u of None \<Rightarrow> 0 | Some t \<Rightarrow> t)\<rparr>)]" "(\<exists>e. s = Inl e) \<or> s = Inr (a, u)" unfolding pg_expiry_simps(2) [OF c(1)] by blast
  then show ?thesis
  proof cases
    case no
    then show ?thesis using rest same c(5) by auto
  next
    case yes
    let ?x = "(filled ident req)\<lparr>pr_CreatedAt := (case a of None \<Rightarrow> 0 | Some t \<Rightarrow> t),
          pr_UpdatedAt := (case u of None \<Rightarrow> 0 | Some t \<Rightarrow> t)\<rparr>"
    let ?q = "as_stored (pg_expiry w) ?x"
    have "stores (pg_expiry w) req ?q" using filled_stores [OF c(3)] .
    moreover have "pr_CreatedAt req = 0 \<longrightarrow> pr_UpdatedAt req = 0 \<longrightarrow> (\<forall>x. r = Inr x \<longrightarrow> x = ?x)"
      using yes(2) c(5) c(6) [rule_format, of a u] by (elim disjE exE) (auto cong del: option.case_cong_weak)
    ultimately show ?thesis using yes(1) rest same by (intro conjI disjI2 exI [of _ ?q]) (auto simp: answers_def)
  qed
qed

lemma pg_Create_law:
  assumes "pg_ok w" "paymentRequestRepo_Create req w = (r, w')"
  shows "pg_ok w' \<and> pg_book w' = pg_book w \<and> outbox w' = outbox w \<and> w_now w' = w_now w \<and>
    (pg_pays w' = pg_pays w \<and> (\<exists>e. r = Inl e) \<or>
     (\<exists>q. pg_pays w' = pg_pays w @ [q] \<and> stores (pg_expiry w) req q \<and>
        (pr_CreatedAt req = 0 \<longrightarrow> pr_UpdatedAt req = 0 \<longrightarrow> (\<forall>x. r = Inr x \<longrightarrow> answers (pg_expiry w) req q x))))"
proof -
  note eff = Create_effect [OF assms(2)]
  have "pg_ok w' \<and> pg_book w' = pg_book w" using eff by (intro pg_ok_frame [OF assms(1)]) auto
  then show ?thesis using eff by (simp add: same_tx_def)
qed

lemma GetByPaymentRef_law:
  assumes "paymentRequestRepo_GetByPaymentRef ref w = (r, w')"
  shows "case r of Inr x \<Rightarrow> find (\<lambda>p. pr_PaymentRef p = ref) (pg_pays w) = Some x
     | Inl e \<Rightarrow> errors_Is e ErrNotFound \<longrightarrow> find (\<lambda>p. pr_PaymentRef p = ref) (pg_pays w) = None"
  using assms
  by (auto simp: paymentRequestRepo_GetByPaymentRef_def scanPaymentRequest_def sql_payment_by_ref_def
      find_pays elim!: andThen_E select_E)

lemma update_by_ref_Inr:
  assumes "orNotFound (db_call (sql_update_status_by_ref ref st)) w = (Inr (i, res, iv), w')"
  shows "\<exists>q. find (\<lambda>p. pr_PaymentRef p = ref) (pg_pays w) = Some q \<and> pr_ID q = i \<and> pr_InvoiceID q = iv \<and>
    pg_pays w' = map (settle ref st (w_now w)) (pg_pays w) \<and> outbox w' = outbox w \<and> w_seq w' = w_seq w \<and>
    t_invoice (w_tables w') = t_invoice (w_tables w) \<and> t_invoice_line (w_tables w') = t_invoice_line (w_tables w)"
proof -
  have "db_call (sql_update_status_by_ref ref st) w = (Inr (i, res, iv), w')"
    using assms by (auto simp: orNotFound_def elim!: attempt_E split: sum.splits if_splits)
  from db_call_Inr [OF this] show ?thesis
    by (auto simp: sql_update_status_by_ref_def set_payments_def find_map_eq outbox_def
        pg_pays_def comp_def toModel_status_row split: option.splits)
qed

lemma Update_effect:
  assumes "w_saved w = None" "paymentRequestRepo_UpdateStatusByPaymentRef ref st ev p w = (r, w')"
  shows "same_tx w w' \<and>
    (w_tables w' = w_tables w \<and> (\<exists>e. r = Inl e) \<or>
     t_invoice (w_tables w') = t_invoice (w_tables w) \<and> t_invoice_line (w_tables w') = t_invoice_line (w_tables w) \<and>
     (\<exists>q. find (\<lambda>p. pr_PaymentRef p = ref) (pg_pays w) = Some q \<and>
        pg_pays w' = map (settle ref st (w_now w)) (pg_pays w) \<and>
        (\<exists>n. (p \<noteq> None \<longrightarrow> w_seq w \<le> n \<and> n < w_seq w') \<and>
           outbox w' = outbox w @ (case p of None \<Rightarrow> []
           | Some j \<Rightarrow> [outbox_row_of n (pr_InvoiceID q) ev j (w_now w)]))))"
proof -
  show ?thesis using assms(2,1) unfolding paymentRequestRepo_UpdateStatusByPaymentRef_def
  proof (cases rule: tx_E)
    case (no_tx e)
    then show ?thesis by (simp add: reads_only_def)
  next
    case (ran w1 w2)
    show ?thesis
    proof (cases "(\<exists>e. r = Inl e) \<and> in_tx w w2")
      case True
      then show ?thesis using ran(2) in_tx_rollback [of w w2] by auto
    next
      case go_on: False
      have fr: "rel same_tx (orNotFound (db_call (sql_update_status_by_ref ref st)))"
        by (intro frame_intros)
      obtain x w3 where u: "orNotFound (db_call (sql_update_status_by_ref ref st)) w1 = (Inr x, w3)"
        and t3: "in_tx w w3" and k3: "(\<lambda>(ident, res, iv). andThen (if p \<noteq> None
                then db_call (sql_insert_outbox iv ev p) else ret ()) (\<lambda>_.
          andThen Commit (\<lambda>_. paymentRequestRepo_GetByID ident))) x w3 = (r, w2)"
        by (rule tx_bind [OF ran(1,3) fr go_on])
      obtain i res iv where x: "x = (i, res, iv)" by (metis prod_cases3)
      let ?ev = "if p \<noteq> None then db_call (sql_insert_outbox iv ev p) else ret ()"
      have evf: "rel same_tx ?ev" by (auto intro!: frame_intros)
      from k3 x have k3': "andThen ?ev (\<lambda>_. andThen Commit (\<lambda>_. paymentRequestRepo_GetByID i)) w3 = (r, w2)" by simp
      obtain w4 where c4: "?ev w3 = (Inr (), w4)" and t4: "in_tx w w4"
        and k4: "andThen Commit (\<lambda>_. paymentRequestRepo_GetByID i) w4 = (r, w2)"
        by (rule tx_bind_unit [OF k3' t3 evf go_on])
      have same1: "pg_pays w1 = pg_pays w" "outbox w1 = outbox w" "w_now w1 = w_now w"
        using ran(4) in_txD [OF ran(3)] by (simp_all add: pg_pays_def outbox_def)
      obtain q where q: "find (\<lambda>p. pr_PaymentRef p = ref) (pg_pays w) = Some q" "pr_InvoiceID q = iv"
        "pg_pays w3 = map (settle ref st (w_now w)) (pg_pays w)" "outbox w3 = outbox w"
        "t_invoice (w_tables w3) = t_invoice (w_tables w)" "t_invoice_line (w_tables w3) = t_invoice_line (w_tables w)"
        using update_by_ref_Inr [OF u [unfolded x]] same1 ran(4) by auto
      have w4: "pg_pays w4 = pg_pays w3" "t_invoice (w_tables w4) = t_invoice (w_tables w)"
        "t_invoice_line (w_tables w4) = t_invoice_line (w_tables w)"
        "outbox w4 = outbox w @ (case p of None \<Rightarrow> [] | Some j \<Rightarrow> [outbox_row_of (w_seq w3) iv ev j (w_now w)])"
        "p \<noteq> None \<longrightarrow> w_seq w4 = w_seq w3 + 1"
        using c4 q insert_outbox_Inr [of iv ev p w3 "()" w4] in_txD [OF t3]
        by (cases p; auto simp: pg_pays_def outbox_def add_outbox_def)+
      note fin = tx_commit_read [OF k4 payment_read_frames(1) t4]
      then consider (no) "w_tables w' = w_tables w" "\<exists>e. r = Inl e" | (yes) "w_tables w' = w_tables w4"
        by (auto simp: ran(2))
      then show ?thesis
      proof cases
        case no
        then show ?thesis using fin ran(2) by auto
      next
        case yes
        have tx: "same_tx w w'" "w_seq w4 \<le> w_seq w'" using fin ran(2) by auto
        have at: "pg_pays w' = pg_pays w4" "outbox w' = outbox w4" using yes by (simp_all add: pg_pays_def outbox_def)
        have n: "p \<noteq> None \<longrightarrow> w_seq w \<le> w_seq w3 \<and> w_seq w3 < w_seq w'" using w4(5) tx(2) in_txD [OF t3] by auto
        show ?thesis using q w4(1-4) at tx(1) yes n by (intro conjI disjI2 exI [of _ q] exI [of _ "w_seq w3"]) auto
      qed
    qed
  qed
qed

text \<open>
  The status of a payment request and the event that announces it change together or not at all,
  under any script of failures: every request with the reference gets the status and the current time as
  its update time, at most one event is added, for the invoice of the first such request, and no invoice
  changes.
\<close>

lemma pg_Update_law:
  assumes "pg_ok w" "ev \<noteq> EvtInvoiceOpened"
    "paymentRequestRepo_UpdateStatusByPaymentRef ref st ev p w = (r, w')"
  shows "pg_ok w' \<and> pg_book w' = pg_book w \<and> w_now w' = w_now w \<and>
    (w_tables w' = w_tables w \<and> (\<exists>e. r = Inl e) \<or>
     (\<exists>q. find (\<lambda>p. pr_PaymentRef p = ref) (pg_pays w) = Some q \<and>
        pg_pays w' = map (settle ref st (w_now w)) (pg_pays w) \<and>
        (\<exists>n. outbox w' = outbox w @ (case p of None \<Rightarrow> []
           | Some j \<Rightarrow> [outbox_row_of n (pr_InvoiceID q) ev j (w_now w)]))))"
proof -
  have saved: "w_saved w = None" using assms(1) by (simp add: pg_ok_def)
  note eff = Update_effect [OF saved assms(3)]
  then have tx: "same_tx w w'" by blast
  have "pg_ok w' \<and> pg_book w' = pg_book w"
  proof (cases "w_tables w' = w_tables w")
    case True
    then show ?thesis using pg_ok_same [OF assms(1) tx] by simp
  next
    case False
    then obtain q :: PaymentRequest and n where t: "t_invoice (w_tables w') = t_invoice (w_tables w)"
      "t_invoice_line (w_tables w') = t_invoice_line (w_tables w)" and n: "p \<noteq> None \<longrightarrow> w_seq w \<le> n \<and> n < w_seq w'"
      and o1: "outbox w' = outbox w @ (case p of None \<Rightarrow> [] | Some j \<Rightarrow> [outbox_row_of n (pr_InvoiceID q) ev j (w_now w)])"
      using eff by blast
    show ?thesis
    proof (cases p)
      case None
      then show ?thesis using t o1 by (intro pg_ok_frame [OF assms(1) tx]) auto
    next
      case (Some j)
      then show ?thesis using n o1 assms(2)
        by (intro pg_ok_event [OF assms(1) tx t, where n = n and a = "pr_InvoiceID q" and ty = ev and p = j]) auto
    qed
  qed
  then show ?thesis using eff tx by (auto simp: same_tx_def)
qed

section \<open>The contract\<close>

text \<open>What \<open>PaymentRequestRepository\<close> promises: \<open>pays\<close> are the stored requests in the order of creation,
  and \<open>expiry\<close> how the store keeps an expiry.\<close>

locale payment_store =
  fixes Q :: "'w PaymentRequestRepository" and ok :: "'w \<Rightarrow> bool" and book :: "'w \<Rightarrow> ledger"
    and pays :: "'w \<Rightarrow> PaymentRequest list" and clock :: "'w \<Rightarrow> Time" and expiry :: "'w \<Rightarrow> Time \<Rightarrow> Time"
  assumes Create_law: "ok w \<Longrightarrow> pp_Create Q req w = (r, w') \<Longrightarrow>
      ok w' \<and> book w' = book w \<and> clock w' = clock w \<and>
      (pays w' = pays w \<and> (\<exists>e. r = Inl e) \<or>
       (\<exists>q. pays w' = pays w @ [q] \<and> stores (expiry w) req q \<and>
          (pr_CreatedAt req = 0 \<longrightarrow> pr_UpdatedAt req = 0 \<longrightarrow> (\<forall>x. r = Inr x \<longrightarrow> answers (expiry w) req q x))))"
    and GetByPaymentRef_law: "ok w \<Longrightarrow> pp_GetByPaymentRef Q ref w = (r, w') \<Longrightarrow>
      ok w' \<and> book w' = book w \<and> clock w' = clock w \<and> pays w' = pays w \<and>
      (case r of Inr x \<Rightarrow> find (\<lambda>p. pr_PaymentRef p = ref) (pays w) = Some x
       | Inl e \<Rightarrow> errors_Is e ErrNotFound \<longrightarrow> find (\<lambda>p. pr_PaymentRef p = ref) (pays w) = None)"
    and Update_law: "ok w \<Longrightarrow> ev \<noteq> EvtInvoiceOpened \<Longrightarrow>
      pp_UpdateStatusByPaymentRef Q ref st ev p w = (r, w') \<Longrightarrow>
      ok w' \<and> book w' = book w \<and> clock w' = clock w \<and>
      (pays w' = pays w \<and> (\<exists>e. r = Inl e) \<or>
       find (\<lambda>p. pr_PaymentRef p = ref) (pays w) \<noteq> None \<and>
         pays w' = map (settle ref st (clock w)) (pays w))"

interpretation pgp: payment_store NewPaymentRequestRepository pg_ok pg_book pg_pays w_now pg_expiry
proof (unfold_locales, goal_cases)
  case (1 w req r w')
  then show ?case using pg_Create_law [of w req r w'] by (auto simp: NewPaymentRequestRepository_def)
next
  case (2 w ref r w')
  then have run: "paymentRequestRepo_GetByPaymentRef ref w = (r, w')" by (simp add: NewPaymentRequestRepository_def)
  then have "reads_only w w'" using relD [OF payment_read_frames(2)] by blast
  then have "pg_ok w' \<and> w_now w' = w_now w \<and> pg_book w' = pg_book w" "pg_pays w' = pg_pays w"
    using pg_ok_reads [OF 2(1), of w'] by (simp_all add: reads_only_def pg_pays_def)
  then show ?case using GetByPaymentRef_law [OF run] by blast
next
  case (3 w ev ref st p r w')
  then show ?case using pg_Update_law [of w ev ref st p r w']
    by (auto simp: NewPaymentRequestRepository_def pg_pays_def)
qed

section \<open>Properties\<close>

text \<open>
  C38: a payment request that \<open>Create\<close> returned is found again by its reference, if no earlier request
  has that reference and the database answers. What is read is the returned request in every field but the
  expiry: \<open>Create\<close> returns the instant it was given, while the read returns it as the column keeps it, so
  that the two are equal when the column keeps that instant.
\<close>

theorem Create_then_GetByPaymentRef:
  assumes "pg_ok w" and "pr_CreatedAt req = 0" and "pr_UpdatedAt req = 0"
    and "paymentRequestRepo_Create req w = (Inr x, w1)" and "quiet w1"
    and "find (\<lambda>p. pr_PaymentRef p = pr_PaymentRef x) (pg_pays w) = None"
  shows "\<exists>y w2. paymentRequestRepo_GetByPaymentRef (pr_PaymentRef x) w1 = (Inr y, w2) \<and>
    y = x\<lparr>pr_ExpiresAt := ps_expires_at (w_pr_schema w) (pr_ExpiresAt req)\<rparr> \<and> pr_ExpiresAt x = pr_ExpiresAt req \<and>
    (ps_expires_at (w_pr_schema w) (pr_ExpiresAt req) = pr_ExpiresAt req \<longrightarrow> y = x)"
proof -
  have "pg_pays w1 = pg_pays w @ [as_stored (pg_expiry w) x]" and e: "pr_ExpiresAt x = pr_ExpiresAt req"
    using pg_Create_law [OF assms(1,4)] assms(2,3) by (auto simp: answers_def)
  then have "find (\<lambda>p. pr_PaymentRef p = pr_PaymentRef x) (pg_pays w1) = Some (as_stored (pg_expiry w) x)"
    using assms(6) by (simp add: find_append)
  then have "\<exists>w2. paymentRequestRepo_GetByPaymentRef (pr_PaymentRef x) w1 = (Inr (as_stored (pg_expiry w) x), w2)"
    using assms(5)
    by (auto simp: find_pays paymentRequestRepo_GetByPaymentRef_def scanPaymentRequest_def
        sql_payment_by_ref_def andThen_def orNotFound_def attempt_def quiet_simps select_row_def)
  then show ?thesis using e by (auto simp: as_stored_def pg_expiry_def)
qed

definition sample_request :: PaymentRequest where
  "sample_request =
     \<lparr>pr_ID = [], pr_ReservationID = reservation_1, pr_InvoiceID = ''i'', pr_AmountIDR = 5000,
      pr_Method = PaymentMethodQRIS, pr_Status = PaymentRequestPending, pr_PaymentRef = [],
      pr_QRISURL = [], pr_ExpiresAt = 900000000900, pr_CreatedAt = 0, pr_UpdatedAt = 0\<rparr>"

lemma sample_Create:
  "\<exists>x w1. paymentRequestRepo_Create sample_request (one_world (\<lambda>_. None) (\<lambda>_. None) 7) = (Inr x, w1) \<and>
     quiet w1 \<and> pr_PaymentRef x = ''PAY-''"
  by (auto simp: paymentRequestRepo_Create_def sample_request_def andThen_def new_uuid_def filled_def
      attempt_def db_call_def sql_insert_payment_request_def Let_def one_world_def one_tables_def
      no_tables_def init_world_def set_payments_def quiet_def tick_call_def table_ops set_tables_def)

theorem Create_then_GetByPaymentRef_witness:
  "\<exists>x y w1 w2. paymentRequestRepo_Create sample_request (one_world (\<lambda>_. None) (\<lambda>_. None) 7) = (Inr x, w1) \<and>
     paymentRequestRepo_GetByPaymentRef ''PAY-'' w1 = (Inr y, w2) \<and> pr_ID y = pr_ID x \<and>
     pr_ExpiresAt x = 900000000900 \<and> pr_ExpiresAt y = 900000001000"
proof -
  obtain x w1 where x: "paymentRequestRepo_Create sample_request (one_world (\<lambda>_. None) (\<lambda>_. None) 7) = (Inr x, w1)"
    "quiet w1" "pr_PaymentRef x = ''PAY-''" using sample_Create by blast
  have "find (\<lambda>p. pr_PaymentRef p = pr_PaymentRef x) (pg_pays (one_world (\<lambda>_. None) (\<lambda>_. None) 7)) = None"
    by (simp add: pg_pays_def one_tables_def no_tables_def table_ops)
  from Create_then_GetByPaymentRef [OF one_world_ok _ _ x(1,2) this] x(1,3) show ?thesis
    by (auto simp: sample_request_def one_world_def init_world_def microseconds_def)
qed

end
