(* ===== verification/Outbox.thy ===== *)
theory Outbox
  imports Payment_Repo
begin

text \<open>
  \<^verbatim>\<open>repository/postgres/outbox.go\<close>, \<^verbatim>\<open>worker/outbox.go\<close> and the publishing half of \<^verbatim>\<open>pkg/rabbit\<close>: the
  transactional outbox and the loop that drains it into the message broker.
\<close>

section \<open>The repository of outbox rows\<close>

record OutboxRow =
  or_ID :: int
  or_EventType :: string
  or_Payload :: json

definition toOutboxRow :: "outbox_row \<Rightarrow> OutboxRow" where
  "toOutboxRow o1 = \<lparr>or_ID = ob_id o1, or_EventType = ob_event_type o1, or_Payload = ob_payload o1\<rparr>"

text \<open>
  \<open>fetchUnpublishedSQL\<close>. The query runs outside a transaction, so its row locks end with it and no
  row is skipped in a run of statements one at a time.
\<close>

definition unpublished :: "tables \<Rightarrow> outbox_row list" where
  "unpublished t = sort_key ob_id (filter (\<lambda>o1. ob_published_at o1 = None) (t_outbox_event t))"

definition sql_fetch_unpublished :: "nat \<Rightarrow> outbox_row list dbio" where
  "sql_fetch_unpublished limit w = (Inr (take limit (unpublished (w_tables w))), w)"

definition mark_row :: "Time \<Rightarrow> int list \<Rightarrow> outbox_row \<Rightarrow> outbox_row" where
  "mark_row now ids o1 = (if ob_id o1 \<in> set ids then o1\<lparr>ob_published_at := Some now\<rparr> else o1)"

definition sql_mark_published :: "int list \<Rightarrow> unit dbio" where
  "sql_mark_published ids w =
     (Inr (), set_tables (\<lambda>t. t\<lparr>t_outbox_event := map (mark_row (w_now w) ids) (t_outbox_event t)\<rparr>) w)"

definition outboxRepo_FetchUnpublished :: "nat \<Rightarrow> OutboxRow list dbio" where
  "outboxRepo_FetchUnpublished limit =
     andThen (db_call (sql_fetch_unpublished limit)) (\<lambda>rows. ret (map toOutboxRow rows))"

definition outboxRepo_MarkPublished :: "int list \<Rightarrow> unit dbio" where
  "outboxRepo_MarkPublished ids =
     (if ids = [] then ret () else db_call (sql_mark_published ids))"

section \<open>The publisher\<close>

text \<open>
  \<open>Publish\<close> hands a persistent message to the channel. The channel is not in confirm mode: an error
  may come after the message went out (\<open>Lost\<close>), and \<open>w_sent\<close> is what went out. The trace
  headers do not matter here.
\<close>

definition Publish :: "string \<Rightarrow> json \<Rightarrow> unit dbio" where
  "Publish routingKey body w =
     (let w1 = w\<lparr>w_pubs := w_pubs w + 1\<rparr>; w2 = w1\<lparr>w_sent := w_sent w @ [(routingKey, body)]\<rparr>
      in case w_pub_faults w (w_pubs w) of
           None \<Rightarrow> (Inr (), w2)
         | Some (Fail e) \<Rightarrow> (Inl (go_of_dberror e), w1)
         | Some (Lost e) \<Rightarrow> (Inl (go_of_dberror e), w2))"

section \<open>The worker\<close>

record OutboxPublisher =
  op_interval :: Duration
  op_batch :: nat

definition NewOutboxPublisher :: OutboxPublisher where
  "NewOutboxPublisher = \<lparr>op_interval = 1000000000, op_batch = 200\<rparr>"

text \<open>The loop of \<open>tick\<close>, which stops at the first failure; \<open>published\<close> is its accumulator.\<close>

fun publishRows :: "OutboxRow list \<Rightarrow> int list \<Rightarrow> int list dbio" where
  "publishRows [] published = ret published"
| "publishRows (r # rs) published =
     attempt (Publish (or_EventType r) (or_Payload r)) (\<lambda>s. case s of
       Inl _ \<Rightarrow> ret published
     | Inr _ \<Rightarrow> publishRows rs (published @ [or_ID r]))"

definition tick :: "OutboxPublisher \<Rightarrow> unit dbio" where
  "tick p =
     attempt (outboxRepo_FetchUnpublished (op_batch p)) (\<lambda>r. case r of
       Inl _ \<Rightarrow> ret ()
     | Inr rows \<Rightarrow>
         if rows = [] then ret ()
         else andThen (publishRows rows []) (\<lambda>published.
              attempt (outboxRepo_MarkPublished published) (\<lambda>_. ret ())))"

text \<open>\<open>Run\<close>: one \<open>tick\<close> per firing of its ticker until the context ends, here after \<open>n\<close> firings.\<close>

fun Run :: "OutboxPublisher \<Rightarrow> nat \<Rightarrow> unit dbio" where
  "Run p 0 = ret ()"
| "Run p (Suc n) = andThen (tick p) (\<lambda>_. Run p n)"

section \<open>One tick\<close>

definition message :: "outbox_row \<Rightarrow> string \<times> json" where
  "message o1 = (ob_event_type o1, ob_payload o1)"

lemma toOutboxRow_sel [simp]:
  "or_ID (toOutboxRow r) = ob_id r" "or_EventType (toOutboxRow r) = ob_event_type r"
  "or_Payload (toOutboxRow r) = ob_payload r"
  by (simp_all add: toOutboxRow_def)

lemma Publish_cases:
  obtains (sent) "Publish k b w = (Inr (), w\<lparr>w_pubs := w_pubs w + 1, w_sent := w_sent w @ [(k, b)]\<rparr>)"
  | (failed) e where "Publish k b w = (Inl e, w\<lparr>w_pubs := w_pubs w + 1\<rparr>)" "w_pub_faults w \<noteq> (\<lambda>_. None)"
  | (lost) e where "Publish k b w = (Inl e, w\<lparr>w_pubs := w_pubs w + 1, w_sent := w_sent w @ [(k, b)]\<rparr>)"
      "w_pub_faults w \<noteq> (\<lambda>_. None)"
proof (cases "w_pub_faults w (w_pubs w)")
  case None
  then show ?thesis using sent by (simp add: Publish_def)
next
  case (Some f)
  then have "w_pub_faults w \<noteq> (\<lambda>_. None)" by auto
  with Some show ?thesis using failed lost by (cases f) (simp_all add: Publish_def)
qed

lemma publishRows_spec:
  "\<exists>k s w'. publishRows (map toOutboxRow rs) acc w = (Inr (acc @ map ob_id (take k rs)), w') \<and>
     k \<le> s \<and> s \<le> length rs \<and> s \<le> Suc k \<and>
     w' = w\<lparr>w_pubs := w_pubs w', w_sent := w_sent w @ map message (take s rs)\<rparr> \<and>
     (w_pub_faults w = (\<lambda>_. None) \<longrightarrow> k = length rs)"
proof (induction rs arbitrary: acc w)
  case (Cons r rs)
  let ?w1 = "w\<lparr>w_pubs := w_pubs w + 1\<rparr>"
  let ?w2 = "?w1\<lparr>w_sent := w_sent w @ [message r]\<rparr>"
  show ?case
  proof (cases rule: Publish_cases [of "ob_event_type r" "ob_payload r" w])
    case sent
    obtain k s w' where "publishRows (map toOutboxRow rs) (acc @ [ob_id r]) ?w2 =
        (Inr ((acc @ [ob_id r]) @ map ob_id (take k rs)), w')" "k \<le> s" "s \<le> length rs" "s \<le> Suc k"
      "w' = ?w2\<lparr>w_pubs := w_pubs w', w_sent := w_sent ?w2 @ map message (take s rs)\<rparr>"
      "w_pub_faults ?w2 = (\<lambda>_. None) \<longrightarrow> k = length rs" using Cons.IH by blast
    then show ?thesis using sent
      by - (rule exI [of _ "Suc k"], rule exI [of _ "Suc s"], rule exI [of _ w'],
        simp add: attempt_def message_def [of r])
  next
    case (failed e)
    then show ?thesis
      by - (rule exI [of _ 0], rule exI [of _ 0], rule exI [of _ ?w1], simp add: attempt_def)
  next
    case (lost e)
    then show ?thesis
      by - (rule exI [of _ 0], rule exI [of _ 1], rule exI [of _ ?w2],
        simp add: attempt_def message_def)
  qed
qed simp

text \<open>The outbox of a world whose serials increase is drained in the order of insertion.\<close>

lemma unpublished_sorted:
  "serials_ok w \<Longrightarrow> unpublished (w_tables w) = filter (\<lambda>o1. ob_published_at o1 = None) (outbox w)"
  unfolding unpublished_def outbox_def serials_ok_def
  by (rule sort_key_id_if_sorted, rule sorted_filter, rule strict_sorted_imp_sorted, rule conjunct1)

lemma fetch_cases:
  obtains (rows) w1 where "outboxRepo_FetchUnpublished n w = (Inr (map toOutboxRow (take n (unpublished (w_tables w)))), w1)"
      "reads_only w w1"
  | (fault) e w1 where "outboxRepo_FetchUnpublished n w = (Inl e, w1)" "reads_only w w1" "\<not> quiet w"
proof (cases "w_faults w (w_calls w)")
  case None
  then show ?thesis using rows [of "tick_call w"]
    by (simp add: outboxRepo_FetchUnpublished_def andThen_def db_call_def sql_fetch_unpublished_def)
next
  case (Some f)
  then have "\<not> quiet w" by (auto simp: quiet_def)
  with Some show ?thesis using fault [of _ "tick_call w"]
    by (cases f) (simp_all add: outboxRepo_FetchUnpublished_def andThen_def db_call_def sql_fetch_unpublished_def)
qed

definition mark_outbox :: "Time \<Rightarrow> int list \<Rightarrow> tables \<Rightarrow> tables" where
  "mark_outbox now ids t = t\<lparr>t_outbox_event := map (mark_row now ids) (t_outbox_event t)\<rparr>"

lemma mark_outbox_Nil [simp]: "mark_outbox now [] t = t"
  by (simp add: mark_outbox_def mark_row_def map_idI)

lemma mark_cases:
  obtains (marked) r w1 where "outboxRepo_MarkPublished ids w = (r, w1)" "same_tx w w1"
      "w_tables w1 = mark_outbox (w_now w) ids (w_tables w)"
  | (fault) e w1 where "outboxRepo_MarkPublished ids w = (Inl e, w1)" "reads_only w w1" "\<not> quiet w"
proof (cases "ids = []")
  case True
  then show ?thesis using marked [of "Inr ()" w]
    by (simp add: outboxRepo_MarkPublished_def mark_outbox_def mark_row_def map_idI)
next
  case False
  let ?w = "set_tables (\<lambda>t. t\<lparr>t_outbox_event := map (mark_row (w_now w) ids) (t_outbox_event t)\<rparr>) (tick_call w)"
  have tx: "same_tx w ?w" by (simp add: same_tx_def)
  show ?thesis
  proof (cases "w_faults w (w_calls w)")
    case None
    then show ?thesis using False marked [of "Inr ()" ?w] tx
      by (simp add: outboxRepo_MarkPublished_def db_call_def sql_mark_published_def mark_outbox_def)
  next
    case (Some f)
    then have "\<not> quiet w" by (auto simp: quiet_def)
    then show ?thesis using Some False marked [of _ ?w] fault [of _ "tick_call w"] tx
      by (cases f) (simp_all add: outboxRepo_MarkPublished_def db_call_def sql_mark_published_def mark_outbox_def)
  qed
qed

text \<open>
  A tick sends a prefix of the unpublished rows, in order, and marks a prefix of what it sent: all of
  it, all but the last (a lost answer), or nothing (the update failed).
\<close>

lemma tick_effect:
  assumes "tick p w = (r, w')"
  shows "r = Inr () \<and> (\<exists>s. let rows = take (op_batch p) (unpublished (w_tables w)) in
    s \<le> length rows \<and> w_sent w' = w_sent w @ map message (take s rows) \<and>
    (\<exists>k \<le> s. w_tables w' = mark_outbox (w_now w) (map ob_id (take k rows)) (w_tables w) \<and>
       (quiet w \<and> w_pub_faults w = (\<lambda>_. None) \<longrightarrow> k = length rows)) \<and>
    w_saved w' = w_saved w \<and> w_now w' = w_now w \<and> w_seq w' = w_seq w \<and> w_draws w' = w_draws w \<and>
    w_uuid w' = w_uuid w \<and> w_faults w' = w_faults w \<and> w_pub_faults w' = w_pub_faults w)"
proof (cases rule: fetch_cases [of "op_batch p" w])
  case (fault e w1)
  then show ?thesis using assms
    by (auto simp: tick_def attempt_def reads_only_def same_tx_def mark_outbox_def mark_row_def Let_def
        map_idI intro!: exI [of _ 0])
next
  case (rows w1)
  let ?rows = "take (op_batch p) (unpublished (w_tables w))"
  have w1: "w_tables w1 = w_tables w" "w_saved w1 = w_saved w" "w_now w1 = w_now w" "w_sent w1 = w_sent w"
    "w_seq w1 = w_seq w" "w_draws w1 = w_draws w" "w_uuid w1 = w_uuid w" "w_faults w1 = w_faults w"
    "w_pub_faults w1 = w_pub_faults w" using rows(2) by (simp_all add: reads_only_def same_tx_def)
  show ?thesis
  proof (cases "?rows = []")
    case True
    then show ?thesis using assms rows(1) w1
      by (auto simp: tick_def attempt_def Let_def intro!: exI [of _ 0])
  next
    case False
    obtain k s w2 where pub: "publishRows (map toOutboxRow ?rows) [] w1 = (Inr (map ob_id (take k ?rows)), w2)"
      "k \<le> s" "s \<le> length ?rows" "w2 = w1\<lparr>w_pubs := w_pubs w2, w_sent := w_sent w1 @ map message (take s ?rows)\<rparr>"
      "w_pub_faults w1 = (\<lambda>_. None) \<longrightarrow> k = length ?rows"
      using publishRows_spec [of ?rows "[]" w1] by auto
    obtain m w3 where m: "outboxRepo_MarkPublished (map ob_id (take k ?rows)) w2 = (m, w3)"
      by (cases "outboxRepo_MarkPublished (map ob_id (take k ?rows)) w2")
    have r: "r = Inr ()" "w' = w3" using assms rows(1) False pub(1) m
      by (simp_all add: tick_def attempt_def andThen_def del: take_eq_Nil)
    have w2: "w_tables w2 = w_tables w" "w_saved w2 = w_saved w" "w_now w2 = w_now w"
      "w_sent w2 = w_sent w @ map message (take s ?rows)" "w_seq w2 = w_seq w" "w_draws w2 = w_draws w"
      "w_uuid w2 = w_uuid w" "w_faults w2 = w_faults w" "w_pub_faults w2 = w_pub_faults w"
      by (subst pub(4); simp add: w1)+
    show ?thesis
    proof (cases rule: mark_cases [of "map ob_id (take k ?rows)" w2])
      case (marked q v)
      have "w_seq w3 = w_seq w2 \<and> w_draws w3 = w_draws w2"
        using m by (auto simp: outboxRepo_MarkPublished_def db_call_def sql_mark_published_def
            split: if_splits option.splits fault.splits)
      then show ?thesis using r marked m w2 pub(2,3,5) w1(9)
        by - (rule conjI [OF r(1)], rule exI [of _ s], auto simp: Let_def same_tx_def intro!: exI [of _ k])
    next
      case (fault e v)
      then have v: "v = w3" using m by simp
      have nq: "\<not> quiet w" using fault(3) w2(8) by (simp add: quiet_def)
      show ?thesis using r(1) fault(2) w2 pub(3) nq unfolding r(2) v
        by - (rule conjI [OF r(1)], rule exI [of _ s],
          auto simp: Let_def reads_only_def same_tx_def mark_outbox_def mark_row_def map_idI intro!: exI [of _ 0])
    qed
  qed
qed

section \<open>Invariants of the outbox\<close>

text \<open>Marking rows keeps the invariant of the tables and the ledger.\<close>

lemma mark_row_sel [simp]:
  "ob_id (mark_row now ids o1) = ob_id o1" "ob_event_type (mark_row now ids o1) = ob_event_type o1"
  "ob_aggregate_id (mark_row now ids o1) = ob_aggregate_id o1" "message (mark_row now ids o1) = message o1"
  by (simp_all add: mark_row_def message_def)

lemma mark_outbox_sel [simp]:
  "t_invoice (mark_outbox now ids t) = t_invoice t" "t_invoice_line (mark_outbox now ids t) = t_invoice_line t"
  "t_outbox_event (mark_outbox now ids t) = map (mark_row now ids) (t_outbox_event t)"
  "t_payment_requests (mark_outbox now ids t) = t_payment_requests t"
  by (simp_all add: mark_outbox_def)

lemma mark_books_ok: "books_ok t \<Longrightarrow> books_ok (mark_outbox now ids t)"
  by (auto simp: books_ok_def keys_ok_def lines_ok_def totals_ok_def status_ok_def events_ok_def
      lines_of_def events_of_def filter_map comp_def)

lemma tick_pg_ok:
  assumes "pg_ok w" "tick p w = (r, w')"
  shows "pg_ok w' \<and> pg_book w' = pg_book w \<and> pg_pays w' = pg_pays w \<and> map message (outbox w') = map message (outbox w)"
proof -
  obtain ids where "w_tables w' = mark_outbox (w_now w) ids (w_tables w)" "w_saved w' = w_saved w" "w_seq w' = w_seq w"
    using tick_effect [OF assms(2)] by (auto simp: Let_def)
  then show ?thesis using assms(1) mark_books_ok view_cong [of "w_tables w'" "w_tables w"]
    by (auto simp: pg_ok_def pg_book_def pg_pays_def serials_ok_def comp_def outbox_def)
qed

text \<open>
  \<open>delivered\<close>: the broker has every message whose row is marked, and every message it has is that of
  an outbox row.
\<close>

definition delivered :: "world \<Rightarrow> bool" where
  "delivered w \<longleftrightarrow>
     (\<forall>o1 \<in> set (outbox w). ob_published_at o1 \<noteq> None \<longrightarrow> message o1 \<in> set (w_sent w)) \<and>
     set (w_sent w) \<subseteq> message ` set (outbox w)"

lemma serials_inj:
  "serials_ok w \<Longrightarrow> a \<in> set (outbox w) \<Longrightarrow> b \<in> set (outbox w) \<Longrightarrow> ob_id a = ob_id b \<Longrightarrow> a = b"
  by (auto simp: serials_ok_def outbox_def strict_sorted_iff distinct_map inj_on_def)

lemma unpublished_sub: "set (unpublished (w_tables w)) \<subseteq> set (outbox w)"
  by (auto simp: unpublished_def outbox_def)

lemma tick_delivered:
  assumes "pg_ok w" "delivered w" "tick p w = (r, w')"
  shows "delivered w'"
proof -
  define rows where "rows = take (op_batch p) (unpublished (w_tables w))"
  obtain s k where sk: "k \<le> s" "w_sent w' = w_sent w @ map message (take s rows)"
    and mark: "w_tables w' = mark_outbox (w_now w) (map ob_id (take k rows)) (w_tables w)"
    using tick_effect [OF assms(3)] by (auto simp: rows_def Let_def)
  have sub: "set (take s rows) \<subseteq> set (outbox w)"
    using unpublished_sub set_take_subset unfolding rows_def by (metis subset_trans)
  have ser: "serials_ok w" using assms(1) by (simp add: pg_ok_def)
  have out: "outbox w' = map (mark_row (w_now w) (map ob_id (take k rows))) (outbox w)"
    using mark by (simp add: outbox_def)
  have sent: "message o1 \<in> set (w_sent w')"
    if "o1 \<in> set (outbox w)" "ob_published_at (mark_row (w_now w) (map ob_id (take k rows)) o1) \<noteq> None" for o1
  proof (cases "ob_id o1 \<in> set (map ob_id (take k rows))")
    case True
    then obtain q where q: "q \<in> set (take k rows)" "ob_id q = ob_id o1" by auto
    have qs: "q \<in> set (take s rows)" by (rule subsetD [OF set_take_subset_set_take [OF sk(1)] q(1)])
    have "q \<in> set (outbox w)" by (rule subsetD [OF sub qs])
    then have "q = o1" using serials_inj [OF ser _ that(1) q(2)] by simp
    then show ?thesis using qs sk(2) by auto
  next
    case False
    then show ?thesis using that assms(2) sk(2) by (auto simp: delivered_def mark_row_def)
  qed
  have "set (w_sent w') \<subseteq> message ` set (outbox w)" using assms(2) sk(2) sub by (auto simp: delivered_def)
  then show ?thesis using sent by (auto simp: delivered_def out image_image)
qed

section \<open>Draining\<close>

lemma filter_not_taken:
  "distinct (map f us) \<Longrightarrow> filter (\<lambda>x. f x \<notin> f ` set (take n us)) us = drop n us"
proof (induction us arbitrary: n)
  case (Cons u us)
  show ?case
  proof (cases n)
    case (Suc m)
    have "filter (\<lambda>x. f x \<notin> f ` set (take n (u # us))) (u # us) = filter (\<lambda>x. f x \<notin> f ` set (take m us)) us"
      using Cons.prems Suc by (auto intro!: filter_cong simp: rev_image_eqI)
    then show ?thesis using Cons Suc by simp
  qed simp
qed simp

lemma filter_marked:
  "filter (\<lambda>o1. ob_published_at o1 = None) (map (mark_row now ids) os) =
   filter (\<lambda>o1. ob_id o1 \<notin> set ids) (filter (\<lambda>o1. ob_published_at o1 = None) os)"
  by (induction os) (auto simp: mark_row_def)

lemma tick_quiet:
  assumes "pg_ok w" "quiet w" "w_pub_faults w = (\<lambda>_. None)"
  shows "\<exists>w'. tick p w = (Inr (), w') \<and> pg_ok w' \<and> quiet w' \<and> w_pub_faults w' = (\<lambda>_. None) \<and>
    unpublished (w_tables w') = drop (op_batch p) (unpublished (w_tables w)) \<and>
    w_sent w' = w_sent w @ map message (take (op_batch p) (unpublished (w_tables w)))"
proof -
  let ?us = "unpublished (w_tables w)" and ?P = "\<lambda>o1. ob_published_at o1 = None"
  obtain r w' where run: "tick p w = (r, w')" by (cases "tick p w")
  obtain s k where eff: "r = Inr ()" "k \<le> s" "s \<le> length (take (op_batch p) ?us)" "k = length (take (op_batch p) ?us)"
    "w_sent w' = w_sent w @ map message (take s (take (op_batch p) ?us))" "w_faults w' = w_faults w"
    "w_pub_faults w' = w_pub_faults w"
    "w_tables w' = mark_outbox (w_now w) (map ob_id (take k (take (op_batch p) ?us))) (w_tables w)"
    using tick_effect [OF run] assms(2,3) unfolding Let_def by blast
  have ok': "pg_ok w'" using tick_pg_ok [OF assms(1) run] by simp
  have ser: "serials_ok w" "serials_ok w'" using assms(1) ok' by (simp_all add: pg_ok_def)
  have us: "?us = filter ?P (outbox w)" using unpublished_sorted [OF ser(1)] .
  have dist: "distinct (map ob_id ?us)" using ser(1)
    by (simp add: us serials_ok_def outbox_def strict_sorted_iff distinct_map_filter)
  have "take k (take (op_batch p) ?us) = take (op_batch p) ?us" unfolding eff(4) by (rule take_all) simp
  then have "outbox w' = map (mark_row (w_now w) (map ob_id (take (op_batch p) ?us))) (outbox w)"
    using eff(8) by (simp add: outbox_def)
  then have "unpublished (w_tables w') = filter (\<lambda>x. ob_id x \<notin> ob_id ` set (take (op_batch p) ?us)) ?us"
    by (simp only: unpublished_sorted [OF ser(2)] filter_marked us [symmetric] set_map)
  then have "unpublished (w_tables w') = drop (op_batch p) ?us" by (simp only: filter_not_taken [OF dist])
  moreover have "w_sent w' = w_sent w @ map message (take (op_batch p) ?us)"
    using eff(2,4,5) by (metis take_all)
  ultimately show ?thesis using run eff(1,6,7) ok' assms(2,3) by (auto simp: quiet_def)
qed

lemma Run_drains_aux:
  assumes "pg_ok w" "quiet w" "w_pub_faults w = (\<lambda>_. None)" "length (unpublished (w_tables w)) \<le> n * op_batch p"
  shows "\<exists>w'. Run p n w = (Inr (), w') \<and> unpublished (w_tables w') = [] \<and>
    w_sent w' = w_sent w @ map message (unpublished (w_tables w))"
  using assms
proof (induction n arbitrary: w)
  case (Suc n)
  obtain w1 where w1: "tick p w = (Inr (), w1)" "pg_ok w1" "quiet w1" "w_pub_faults w1 = (\<lambda>_. None)"
    "unpublished (w_tables w1) = drop (op_batch p) (unpublished (w_tables w))"
    "w_sent w1 = w_sent w @ map message (take (op_batch p) (unpublished (w_tables w)))"
    using tick_quiet [OF Suc.prems(1-3), of p] by blast
  have "length (unpublished (w_tables w1)) \<le> n * op_batch p" using Suc.prems(4) w1(5) by simp
  from Suc.IH [OF w1(2-4) this] obtain w' where w': "Run p n w1 = (Inr (), w')" "unpublished (w_tables w') = []"
    "w_sent w' = w_sent w1 @ map message (unpublished (w_tables w1))" by blast
  have "w_sent w' = w_sent w @ map message (unpublished (w_tables w))"
    by (simp add: w'(3) w1(5,6) flip: map_append)
  then show ?case using w1(1) w'(1,2) by (auto simp: andThen_def)
qed simp

section \<open>Properties\<close>

text \<open>
  C26: a tick of the outbox worker never fails, and under any script of database and broker failures it
  sends a prefix of the oldest unpublished rows in the order of their serial numbers, at most one batch,
  and marks as published only a prefix of what it sent; ledger, payment requests and the messages of the
  outbox are unchanged.
\<close>

theorem tick_sends_in_order:
  assumes "pg_ok w"
  shows "\<exists>s k w'. tick p w = (Inr (), w') \<and> k \<le> s \<and> s \<le> op_batch p \<and>
    (let rows = take (op_batch p) (filter (\<lambda>o1. ob_published_at o1 = None) (outbox w)) in
       w_sent w' = w_sent w @ map message (take s rows) \<and>
       w_tables w' = mark_outbox (w_now w) (map ob_id (take k rows)) (w_tables w)) \<and>
    pg_ok w' \<and> pg_book w' = pg_book w \<and> pg_pays w' = pg_pays w"
proof -
  obtain r w' where run: "tick p w = (r, w')" by (cases "tick p w")
  have "unpublished (w_tables w) = filter (\<lambda>o1. ob_published_at o1 = None) (outbox w)"
    using unpublished_sorted assms by (simp add: pg_ok_def)
  then show ?thesis using tick_effect [OF run] tick_pg_ok [OF assms run] run by (auto simp: Let_def)
qed

theorem tick_sends_in_order_witness:
  "\<exists>w'. tick NewOutboxPublisher (one_world (\<lambda>_. None) (\<lambda>_. Some (Lost (DriverErr ''gone''))) 7) = (Inr (), w')"
  using tick_sends_in_order [OF one_world_ok] by blast

text \<open>
  C27: when database and broker answer, enough ticks send every unpublished event exactly once, in the
  order of insertion, and leave no row unpublished: a backlog of \<open>m\<close> rows needs \<open>m / 200\<close> ticks, rounded up.
\<close>

theorem Run_drains:
  assumes "pg_ok w" and "quiet w" and "w_pub_faults w = (\<lambda>_. None)"
    and "length (filter (\<lambda>o1. ob_published_at o1 = None) (outbox w)) \<le> n * 200"
  shows "\<exists>w'. Run NewOutboxPublisher n w = (Inr (), w') \<and> unpublished (w_tables w') = [] \<and>
    w_sent w' = w_sent w @ map message (filter (\<lambda>o1. ob_published_at o1 = None) (outbox w))"
proof -
  have "unpublished (w_tables w) = filter (\<lambda>o1. ob_published_at o1 = None) (outbox w)"
    using unpublished_sorted assms(1) by (simp add: pg_ok_def)
  then show ?thesis using Run_drains_aux [OF assms(1-3), of n NewOutboxPublisher] assms(4)
    by (simp add: NewOutboxPublisher_def)
qed

theorem Run_drains_witness:
  "\<exists>w'. Run NewOutboxPublisher 1 (one_world (\<lambda>_. None) (\<lambda>_. None) 7) = (Inr (), w') \<and>
     w_sent w' = [(EvtInvoiceOpened, JNull)]"
proof -
  have "filter (\<lambda>o1. ob_published_at o1 = None) (outbox (one_world (\<lambda>_. None) (\<lambda>_. None) 7)) =
      [outbox_row_of 1 ''i'' EvtInvoiceOpened JNull 7]"
    by (simp add: outbox_def one_tables_def no_tables_def)
  moreover have "w_pub_faults (one_world (\<lambda>_. None) (\<lambda>_. None) 7) = (\<lambda>_. None)"
    "w_sent (one_world (\<lambda>_. None) (\<lambda>_. None) 7) = []" by (simp_all add: one_world_def init_world_def)
  ultimately show ?thesis
    using Run_drains [OF one_world_ok, of "\<lambda>_. None" "\<lambda>_. None" 7 1]
    by (simp add: message_def outbox_row_of_def del: Run.simps) blast
qed

end
