(* ===== verification/Json_Decode.thy ===== *)
theory Json_Decode
  imports Model
begin

text \<open>
  \<open>json.Unmarshal\<close> into the flat structs of the service, from the value a message body denotes: keys
  match field names under Go's case folding, later keys win, \<open>null\<close> leaves a field as it is, and a
  value of the wrong type is an error. Times are read as \<open>time.Time\<close> reads them, in RFC 3339.
\<close>

section \<open>Field names\<close>

text \<open>
  Case folding of UTF-8 text as far as it can reach an ASCII name: besides the letters, U+017F
  folds to \<open>s\<close> and U+212A to \<open>k\<close>.
\<close>

definition ascii_lower :: "char \<Rightarrow> char" where
  "ascii_lower c = (if 65 \<le> (of_char c :: nat) \<and> (of_char c :: nat) \<le> 90 then char_of (of_char c + 32 :: nat) else c)"

fun foldName :: "string \<Rightarrow> string" where
  "foldName (c # d # e # s) =
     (if [c, d, e] = bytes [226, 132, 170] then CHR ''k'' # foldName s
      else if [c, d] = bytes [197, 191] then CHR ''s'' # foldName (e # s)
      else ascii_lower c # foldName (d # e # s))"
| "foldName [c, d] =
     (if [c, d] = bytes [197, 191] then ''s'' else [ascii_lower c, ascii_lower d])"
| "foldName [c] = [ascii_lower c]"
| "foldName [] = []"

section \<open>Objects\<close>

definition object_of :: "json \<Rightarrow> (string \<times> json) list option" where
  "object_of j = (case j of JObj kvs \<Rightarrow> Some kvs | JNull \<Rightarrow> Some [] | _ \<Rightarrow> None)"

fun field :: "(json \<Rightarrow> 'a option) \<Rightarrow> string \<Rightarrow> (string \<times> json) list \<Rightarrow> 'a \<Rightarrow> 'a option" where
  "field conv name [] acc = Some acc"
| "field conv name ((k, v) # kvs) acc =
     (if foldName k = foldName name \<and> v \<noteq> JNull
      then (case conv v of None \<Rightarrow> None | Some x \<Rightarrow> field conv name kvs x)
      else field conv name kvs acc)"

definition as_string :: "json \<Rightarrow> string option" where
  "as_string v = (case v of JStr s \<Rightarrow> Some s | _ \<Rightarrow> None)"

section \<open>RFC 3339\<close>

definition digit :: "char \<Rightarrow> int option" where
  "digit c = (let n = (of_char c :: nat) in if 48 \<le> n \<and> n \<le> 57 then Some (int n - 48) else None)"

text \<open>\<open>getnum\<close>: one or two digits, exactly two when \<open>fixed\<close>.\<close>

definition getnum :: "bool \<Rightarrow> string \<Rightarrow> (int \<times> string) option" where
  "getnum fixed s =
     (case s of
        [] \<Rightarrow> None
      | c # s1 \<Rightarrow>
          (case digit c of
             None \<Rightarrow> None
           | Some a \<Rightarrow>
               (case s1 of
                  [] \<Rightarrow> if fixed then None else Some (a, s1)
                | d # s2 \<Rightarrow>
                    (case digit d of
                       None \<Rightarrow> if fixed then None else Some (a, s1)
                     | Some b \<Rightarrow> Some (10 * a + b, s2)))))"

definition expect :: "char \<Rightarrow> string \<Rightarrow> string option" where
  "expect c s = (case s of [] \<Rightarrow> None | d # s' \<Rightarrow> if c = d then Some s' else None)"

fun takeDigits :: "string \<Rightarrow> int list \<times> string" where
  "takeDigits [] = ([], [])"
| "takeDigits (c # s) =
     (case digit c of None \<Rightarrow> ([], c # s) | Some d \<Rightarrow> (case takeDigits s of (ds, r) \<Rightarrow> (d # ds, r)))"

text \<open>The first nine digits of a fraction, as nanoseconds.\<close>

definition nanos :: "int list \<Rightarrow> int" where
  "nanos ds = foldl (\<lambda>n d. 10 * n + d) 0 (take 9 (ds @ replicate 9 0))"

definition fraction :: "string \<Rightarrow> int \<times> string" where
  "fraction s =
     (case s of
        [] \<Rightarrow> (0, s)
      | c # s' \<Rightarrow>
          if c = CHR ''.'' \<or> c = CHR '',''
          then (case takeDigits s' of ([], _) \<Rightarrow> (0, s) | (ds, r) \<Rightarrow> (nanos ds, r))
          else (0, s))"

text \<open>The zone: \<open>Z\<close>, or a sign, two digits, a colon and two digits. \<open>Parse\<close> lets hour 24 and minute 60 pass.\<close>

definition zone :: "string \<Rightarrow> (int \<times> string) option" where
  "zone s =
     (case expect (CHR ''Z'') s of
        Some r \<Rightarrow> Some (0, r)
      | None \<Rightarrow>
          (case s of
             [] \<Rightarrow> None
           | sg # s1 \<Rightarrow>
               Option.bind (getnum True s1) (\<lambda>(hr, s2).
               Option.bind (expect (CHR '':'') s2) (\<lambda>s3.
               Option.bind (getnum True s3) (\<lambda>(mn, s4).
                 if hr > 24 \<or> mn > 60 then None
                 else if sg = CHR ''+'' then Some ((hr * 60 + mn) * 60, s4)
                 else if sg = CHR ''-'' then Some (- ((hr * 60 + mn) * 60), s4)
                 else None)))))"

definition daysIn :: "int \<Rightarrow> int \<Rightarrow> int" where
  "daysIn m y = (if m = 12 then 31 else days_before (isLeap y) (m + 1) - days_before (isLeap y) m)"

definition parseRFC3339 :: "string \<Rightarrow> Time option" where
  "parseRFC3339 s0 =
     Option.bind (getnum True s0) (\<lambda>(y1, s1).
     Option.bind (getnum True s1) (\<lambda>(y2, s2).
     Option.bind (expect (CHR ''-'') s2) (\<lambda>s3.
     Option.bind (getnum True s3) (\<lambda>(m, s4).
     Option.bind (expect (CHR ''-'') s4) (\<lambda>s5.
     Option.bind (getnum True s5) (\<lambda>(d, s6).
     Option.bind (expect (CHR ''T'') s6) (\<lambda>s7.
     Option.bind (getnum False s7) (\<lambda>(hh, s8).
     Option.bind (expect (CHR '':'') s8) (\<lambda>s9.
     Option.bind (getnum True s9) (\<lambda>(mi, s10).
     Option.bind (expect (CHR '':'') s10) (\<lambda>s11.
     Option.bind (getnum True s11) (\<lambda>(ss, s12).
       let (ns, s13) = fraction s12; y = 100 * y1 + y2 in
     Option.bind (zone s13) (\<lambda>(off, s14).
       if s14 \<noteq> [] \<or> m < 1 \<or> m > 12 \<or> hh > 23 \<or> mi > 59 \<or> ss > 59 \<or> d < 1 \<or> d > daysIn m y then None
       else Some (Date y m d hh mi ss ns (FixedZone 0) - off * second_ns))))))))))))))"

definition as_time :: "json \<Rightarrow> Time option" where
  "as_time v = (case v of JStr s \<Rightarrow> parseRFC3339 s | _ \<Rightarrow> None)"

section \<open>Facts\<close>

text \<open>A key the decoder does not know, and a \<open>null\<close>, change nothing.\<close>

lemma field_other: "foldName k \<noteq> foldName name \<Longrightarrow> field conv name ((k, v) # kvs) acc = field conv name kvs acc"
  by simp

text \<open>Names of lower-case letters and underscores fold to themselves.\<close>

definition plain :: "string \<Rightarrow> bool" where
  "plain s \<longleftrightarrow> (\<forall>c \<in> set s. 95 \<le> (of_char c :: nat) \<and> (of_char c :: nat) \<le> 122)"

lemma ascii_lower_plain: "plain [c] \<Longrightarrow> ascii_lower c = c"
  by (auto simp: ascii_lower_def plain_def)

lemma bytes_not_plain:
  "plain [c, d] \<Longrightarrow> [c, d] \<noteq> bytes [197, 191]" "plain [c, d, e] \<Longrightarrow> [c, d, e] \<noteq> bytes [226, 132, 170]"
  by (auto simp: plain_def bytes_def)

lemma foldName_plain: "plain s \<Longrightarrow> foldName s = s"
proof (induction s rule: foldName.induct)
  case (1 c d e s)
  then have "plain [c]" "plain [c, d]" "plain [c, d, e]" "plain (d # e # s)" by (auto simp: plain_def)
  then have "[c, d] \<noteq> bytes [197, 191]" "[c, d, e] \<noteq> bytes [226, 132, 170]" "foldName (d # e # s) = d # e # s"
    "ascii_lower c = c"
    using bytes_not_plain ascii_lower_plain 1 by auto
  then show ?case by (simp del: foldName.simps add: foldName.simps(1))
next
  case (2 c d)
  then have "[c, d] \<noteq> bytes [197, 191]" by (rule bytes_not_plain)
  moreover have "ascii_lower c = c" "ascii_lower d = d" using 2 by (auto intro!: ascii_lower_plain simp: plain_def)
  ultimately show ?case by (simp only: foldName.simps if_False)
next
  case (3 c)
  then show ?case using ascii_lower_plain [of c] by (simp add: plain_def)
qed simp

lemma field_names [simp]:
  "foldName ''reservation_id'' = ''reservation_id''" "foldName ''driver_id'' = ''driver_id''"
  "foldName ''reason'' = ''reason''" "foldName ''confirmed_at'' = ''confirmed_at''"
  "foldName ''cancelled_at'' = ''cancelled_at''" "foldName ''checked_in_at'' = ''checked_in_at''"
  "foldName ''checked_out_at'' = ''checked_out_at''" "foldName ''order_id'' = ''order_id''"
  "foldName ''transaction_status'' = ''transaction_status''" "foldName ''fraud_status'' = ''fraud_status''"
  "foldName ''gross_amount'' = ''gross_amount''" "foldName ''signature_key'' = ''signature_key''"
  by (rule foldName_plain, simp add: plain_def)+

declare foldName.simps [simp del]

lemma getnum_two:
  "digit c = Some a \<Longrightarrow> digit d = Some b \<Longrightarrow> getnum f (c # d # s) = Some (10 * a + b, s)"
  by (simp add: getnum_def)

text \<open>The text of a two-digit number.\<close>

definition two :: "int \<Rightarrow> string" where
  "two n = [char_of (nat (n div 10) + 48), char_of (nat (n mod 10) + 48)]"

lemma digit_char: "0 \<le> n \<Longrightarrow> n < 10 \<Longrightarrow> digit (char_of (nat n + 48)) = Some n"
  by (simp add: digit_def Let_def of_char_of)

lemma getnum_print: "0 \<le> n \<Longrightarrow> n < 100 \<Longrightarrow> getnum f (two n @ s) = Some (n, s)"
  unfolding two_def append_Cons append_Nil
  by (subst getnum_two [where a = "n div 10" and b = "n mod 10"]) (auto intro!: digit_char)

lemma expect_same [simp]: "expect c (c # s) = Some s"
  by (simp add: expect_def)

text \<open>
  Printing a date and time of day in UTC and reading it back gives the instant, whatever fits the
  format: years 0 to 9999 and valid days.
\<close>

definition print_utc :: "int \<Rightarrow> int \<Rightarrow> int \<Rightarrow> int \<Rightarrow> int \<Rightarrow> int \<Rightarrow> string" where
  "print_utc y m d hh mi ss =
     two (y div 100) @ two (y mod 100) @ CHR ''-'' # two m @ CHR ''-'' # two d @ CHR ''T'' #
     two hh @ CHR '':'' # two mi @ CHR '':'' # two ss @ ''Z''"

lemma parse_print:
  assumes "0 \<le> y" "y \<le> 9999" "1 \<le> m" "m \<le> 12" "1 \<le> d" "d \<le> daysIn m y" "d < 100" "0 \<le> hh" "hh < 24"
    "0 \<le> mi" "mi < 60" "0 \<le> ss" "ss < 60"
  shows "parseRFC3339 (print_utc y m d hh mi ss) = Some (Date y m d hh mi ss 0 (FixedZone 0))"
  using assms
  by (simp add: parseRFC3339_def print_utc_def getnum_print fraction_def zone_def)

end
