(* ===== verification/Usecase.thy ===== *)
theory Usecase
  imports Outbox Json_Decode
begin

text \<open>
  \<^verbatim>\<open>internal/billing/usecase\<close>: the orchestration of invoices and payments over the two repositories, the
  pricing engine and the clients of other services. The theory is generic in the state \<open>'w\<close>; what it
  relies on is the contracts of the repositories.
\<close>

section \<open>The usecase and its collaborators\<close>

text \<open>The clients of other services are interfaces: records of functions, with the data of their answers.\<close>

record 'w UserClient =
  GetMSISDN :: "string \<Rightarrow> ('w, goerror, string) io"

record QrisIntentResult =
  qi_PaymentID :: string
  qi_SnapToken :: string
  qi_RedirectURL :: string
  qi_PgReference :: string
  qi_ExpiresAt :: Time

record PaymentResult =
  ps_ID :: string
  ps_InvoiceID :: string
  ps_Method :: string
  ps_Status :: string
  ps_PgReference :: string
  ps_AmountIDR :: int64
  ps_CreatedAt :: Time
  ps_PaidAt :: "Time option"

record 'w PaymentClient =
  CreateQrisIntent :: "string \<Rightarrow> int64 \<Rightarrow> ('w, goerror, QrisIntentResult) io"
  GetPayment :: "string \<Rightarrow> ('w, goerror, PaymentResult) io"

text \<open>\<open>uc_now\<close> is \<open>time.Now\<close> and \<open>uc_tzdb\<close> what \<open>time.LoadLocation\<close> yields on the host.\<close>

record 'w billingUsecase =
  uc_repo :: "'w InvoiceRepository"
  uc_paymentRepo :: "'w PaymentRequestRepository option"
  uc_engine :: Engine
  uc_cfg :: Config
  uc_users :: "'w UserClient option"
  uc_payment :: "'w PaymentClient option"
  uc_now :: "'w \<Rightarrow> Time"
  uc_tzdb :: "Location option"

definition NewBillingUsecase ::
    "'w InvoiceRepository \<Rightarrow> Engine \<Rightarrow> Config \<Rightarrow> ('w \<Rightarrow> Time) \<Rightarrow> Location option \<Rightarrow> 'w billingUsecase" where
  "NewBillingUsecase repo engine cfg now tzdb =
     \<lparr>uc_repo = repo, uc_paymentRepo = None, uc_engine = engine, uc_cfg = cfg, uc_users = None,
      uc_payment = None, uc_now = now, uc_tzdb = tzdb\<rparr>"

definition WithUserClient ::
    "'w billingUsecase \<Rightarrow> 'w UserClient \<Rightarrow> 'w billingUsecase" where
  "WithUserClient u users = u\<lparr>uc_users := Some users\<rparr>"

definition WithPaymentRequestRepository ::
    "'w billingUsecase \<Rightarrow> 'w PaymentRequestRepository \<Rightarrow> 'w billingUsecase" where
  "WithPaymentRequestRepository u paymentRepo = u\<lparr>uc_paymentRepo := Some paymentRepo\<rparr>"

definition WithPaymentClient ::
    "'w billingUsecase \<Rightarrow> 'w PaymentClient \<Rightarrow> 'w billingUsecase" where
  "WithPaymentClient u client = u\<lparr>uc_payment := Some client\<rparr>"

definition lookupMSISDN :: "'w billingUsecase \<Rightarrow> string \<Rightarrow> ('w, goerror, string) io" where
  "lookupMSISDN u driverID =
     (case uc_users u of
        None \<Rightarrow> ret []
      | Some users \<Rightarrow>
          if driverID = [] then ret []
          else attempt (GetMSISDN users driverID) (\<lambda>r. case r of Inl _ \<Rightarrow> ret [] | Inr m \<Rightarrow> ret (TrimSpace m)))"

definition VALIDATION :: "string \<Rightarrow> goerror" where
  "VALIDATION msg = AppError ''VALIDATION'' msg None"

section \<open>Opening and closing\<close>

text \<open>\<open>json.Marshal\<close> of a map writes its keys in order.\<close>

definition opened_payload :: "Config \<Rightarrow> string \<Rightarrow> string \<Rightarrow> string \<Rightarrow> json" where
  "opened_payload cfg reservationID driverID idem =
     JObj [(''booking_fee_idr'', JInt (sint (BookingFeeIDR cfg))), (''driver_id'', JStr driverID),
           (''idempotency_key'', JStr idem), (''reservation_id'', JStr reservationID)]"

definition OpenInvoice ::
    "'w billingUsecase \<Rightarrow> string \<Rightarrow> string \<Rightarrow> string \<Rightarrow> ('w, goerror, Invoice) io" where
  "OpenInvoice u reservationID driverID idem =
     (if TrimSpace reservationID = [] then throw (VALIDATION ''reservation_id required'')
      else if TrimSpace idem = [] then throw (VALIDATION ''idempotency_key required'')
      else ir_Open (uc_repo u) reservationID driverID idem (BookingFeeIDR (uc_cfg u))
             (Some (opened_payload (uc_cfg u) reservationID driverID idem)))"

text \<open>The lines that go to the database: grace cancellations of 0 IDR are dropped.\<close>

definition toModelLine :: "LineItem \<Rightarrow> MLineItem" where
  "toModelLine l =
     \<lparr>ml_ID = [], ml_InvoiceID = [], ml_Kind = to_MLineKind (Kind l), ml_AmountIDR = AmountIDR l,
      ml_Metadata = Some [(''note'', JStr (Note l))], ml_CreatedAt = 0\<rparr>"

definition dbLines :: "LineItem list \<Rightarrow> MLineItem list" where
  "dbLines rawLines =
     map toModelLine (filter (\<lambda>l. \<not> (Kind l = LineCancellation \<and> AmountIDR l = 0)) rawLines)"

definition line_json :: "LineItem \<Rightarrow> json" where
  "line_json l = JObj [(''Kind'', JStr (LineKind_string (Kind l))),
                       (''AmountIDR'', JInt (sint (AmountIDR l))), (''Note'', JStr (Note l))]"

definition closed_payload :: "string \<Rightarrow> LineItem list \<Rightarrow> Invoice option \<Rightarrow> string \<Rightarrow> json" where
  "closed_payload invoiceID rawLines current msisdn =
     JObj ((case current of None \<Rightarrow> [] | Some i \<Rightarrow> [(''driver_id'', JStr (inv_DriverID i))]) @
           [(''invoice_id'', JStr invoiceID),
            (''lines'', if rawLines = [] then JNull else JArr (map line_json rawLines))] @
           (if current \<noteq> None \<and> msisdn \<noteq> [] then [(''msisdn'', JStr msisdn)] else []))"

definition CloseInvoice ::
    "'w billingUsecase \<Rightarrow> string \<Rightarrow> Session \<Rightarrow> ('w, goerror, Invoice) io" where
  "CloseInvoice u invoiceID session =
     andThen (lift_res (Apply (uc_tzdb u) (uc_engine u) session)) (\<lambda>rawLines.
     attempt (ir_GetByID (uc_repo u) invoiceID) (\<lambda>r. case r of
       Inl _ \<Rightarrow> ir_Close (uc_repo u) invoiceID (dbLines rawLines)
                 (Some (closed_payload invoiceID rawLines None []))
     | Inr current \<Rightarrow>
         andThen (lookupMSISDN u (inv_DriverID current)) (\<lambda>msisdn.
           ir_Close (uc_repo u) invoiceID (dbLines rawLines)
             (Some (closed_payload invoiceID rawLines (Some current) msisdn)))))"

definition GetInvoice :: "'w billingUsecase \<Rightarrow> string \<Rightarrow> ('w, goerror, Invoice) io" where
  "GetInvoice u i = ir_GetByID (uc_repo u) i"

definition GetInvoiceByReservation :: "'w billingUsecase \<Rightarrow> string \<Rightarrow> ('w, goerror, Invoice) io" where
  "GetInvoiceByReservation u reservationID = ir_GetByReservationID (uc_repo u) reservationID"

section \<open>Fees from reservation events\<close>

text \<open>\<open>getOpenInvoice\<close>; \<open>None\<close> is the pair \<open>(nil, nil)\<close>.\<close>

definition getOpenInvoice :: "'w billingUsecase \<Rightarrow> string \<Rightarrow> ('w, goerror, Invoice option) io" where
  "getOpenInvoice u reservationID =
     attempt (ir_GetByReservationID (uc_repo u) reservationID) (\<lambda>r. case r of
       Inl err \<Rightarrow> if errors_Is err ErrNotFound then ret None else throw err
     | Inr i \<Rightarrow> if inv_Status i \<noteq> InvoiceOpen then ret None else ret (Some i))"

definition fee_payload :: "Invoice \<Rightarrow> string \<Rightarrow> MLineKind \<Rightarrow> int64 \<Rightarrow> json" where
  "fee_payload i reservationID kind amountIDR =
     JObj [(''amount_idr'', JInt (sint amountIDR)), (''invoice_id'', JStr (inv_ID i)),
           (''kind'', JStr (MLineKind_string kind)), (''reservation_id'', JStr reservationID)]"

definition fee_line :: "MLineKind \<Rightarrow> int64 \<Rightarrow> string \<Rightarrow> MLineItem" where
  "fee_line kind amountIDR reason =
     \<lparr>ml_ID = [], ml_InvoiceID = [], ml_Kind = kind, ml_AmountIDR = amountIDR,
      ml_Metadata = Some [(''reason'', JStr reason)], ml_CreatedAt = 0\<rparr>"

definition appendFee :: "'w billingUsecase \<Rightarrow> Invoice \<Rightarrow> string \<Rightarrow> MLineKind \<Rightarrow> int64 \<Rightarrow> string \<Rightarrow>
    ('w, goerror, unit) io" where
  "appendFee u i reservationID kind amountIDR reason =
     andThen (ir_AppendLine (uc_repo u) (inv_ID i) (fee_line kind amountIDR reason)
                (Some (fee_payload i reservationID kind amountIDR))) (\<lambda>_. ret ())"

definition jakarta :: Location where
  "jakarta = FixedZone (7 * 60 * 60)"

definition cancel_session :: "Time \<Rightarrow> Time \<Rightarrow> Session" where
  "cancel_session confirmedAt cancelledAt =
     \<lparr>ConfirmedAt = confirmedAt, CheckedInAt = 0, CheckedOutAt = 0, CancelledAt = Some cancelledAt,
      NoShow = False, VehicleTypeOf = VehicleTypeOther [], Timezone = Some jakarta\<rparr>"

fun cancelFees :: "'w billingUsecase \<Rightarrow> Invoice \<Rightarrow> string \<Rightarrow> LineItem list \<Rightarrow> ('w, goerror, unit) io" where
  "cancelFees u i reservationID [] = ret ()"
| "cancelFees u i reservationID (l # ls) =
     (if Kind l \<noteq> LineCancellation \<or> AmountIDR l = 0 then cancelFees u i reservationID ls
      else andThen (appendFee u i reservationID MLineCancellation (AmountIDR l) ''post-grace cancel'')
             (\<lambda>_. cancelFees u i reservationID ls))"

definition ApplyCancelFee :: "'w billingUsecase \<Rightarrow> string \<Rightarrow> Time \<Rightarrow> Time \<Rightarrow> ('w, goerror, unit) io" where
  "ApplyCancelFee u reservationID confirmedAt cancelledAt =
     andThen (getOpenInvoice u reservationID) (\<lambda>o1. case o1 of
       None \<Rightarrow> ret ()
     | Some i \<Rightarrow>
         andThen (lift_res (Apply (uc_tzdb u) (uc_engine u) (cancel_session confirmedAt cancelledAt)))
           (cancelFees u i reservationID))"

definition ApplyNoShowFee :: "'w billingUsecase \<Rightarrow> string \<Rightarrow> ('w, goerror, unit) io" where
  "ApplyNoShowFee u reservationID =
     andThen (getOpenInvoice u reservationID) (\<lambda>o1. case o1 of
       None \<Rightarrow> ret ()
     | Some i \<Rightarrow> appendFee u i reservationID MLineNoShow (NoShowFeeIDR (uc_cfg u)) ''no-show'')"

section \<open>Payments\<close>

record CreatePaymentRequestInput =
  ci_ReservationID :: string
  ci_DriverID :: string
  ci_AmountIDR :: int64
  ci_Method :: string
  ci_CCToken :: string

record CreatePaymentRequestOutput =
  co_ID :: string
  co_Method :: string
  co_Status :: string
  co_QRISURL :: string
  co_PaymentRef :: string
  co_ExpiresAt :: int64

definition generatePaymentIntent :: "'w billingUsecase \<Rightarrow> string \<Rightarrow> int64 \<Rightarrow> ('w, goerror, string) io" where
  "generatePaymentIntent u invoiceID amountIDR =
     (case uc_payment u of
        None \<Rightarrow> ret []
      | Some client \<Rightarrow>
          attempt (CreateQrisIntent client invoiceID amountIDR)
            (\<lambda>r. case r of Inl _ \<Rightarrow> ret [] | Inr resp \<Rightarrow> ret (qi_RedirectURL resp)))"

definition payment_method :: "CreatePaymentRequestInput \<Rightarrow> string" where
  "payment_method input =
     (let m = TrimSpace (ci_Method input) in if m = [] then ''QRIS'' else m)"

text \<open>The checks of \<open>CreatePaymentRequest\<close>, in order; the first that fails is the error.\<close>

definition payment_input_error :: "CreatePaymentRequestInput \<Rightarrow> goerror option" where
  "payment_input_error input =
     (if TrimSpace (ci_ReservationID input) = [] then Some (VALIDATION ''reservation_id required'')
      else if TrimSpace (ci_DriverID input) = [] then Some (VALIDATION ''driver_id required'')
      else if sint (ci_AmountIDR input) \<le> 0 then Some (VALIDATION ''amount_idr must be positive'')
      else if payment_method input \<noteq> ''QRIS'' \<and> payment_method input \<noteq> ''CC''
      then Some (VALIDATION ''method must be QRIS or CC'')
      else if payment_method input = ''CC'' \<and> TrimSpace (ci_CCToken input) = []
      then Some (VALIDATION ''cc_token required for CC method'')
      else None)"

definition no_payment_repo :: goerror where
  "no_payment_repo = AppError ''INTERNAL'' ''payment request repository not available'' None"

definition CreatePaymentRequest ::
    "'w billingUsecase \<Rightarrow> CreatePaymentRequestInput \<Rightarrow> ('w, goerror, CreatePaymentRequestOutput) io" where
  "CreatePaymentRequest u input =
     (case payment_input_error input of
        Some e \<Rightarrow> throw e
      | None \<Rightarrow>
        (case uc_paymentRepo u of
           None \<Rightarrow> throw no_payment_repo
         | Some paymentRepo \<Rightarrow>
             andThen (ir_GetByReservationID (uc_repo u) (ci_ReservationID input)) (\<lambda>invoice.
             andThen (\<lambda>w. (Inr (Add (uc_now u w) (15 * Minute)), w)) (\<lambda>expiresAt.
               let method = to_PaymentMethod (payment_method input);
                   req = \<lparr>pr_ID = [], pr_ReservationID = ci_ReservationID input,
                          pr_InvoiceID = inv_ID invoice, pr_AmountIDR = ci_AmountIDR input,
                          pr_Method = method, pr_Status = PaymentRequestPending, pr_PaymentRef = [],
                          pr_QRISURL = [], pr_ExpiresAt = expiresAt, pr_CreatedAt = 0, pr_UpdatedAt = 0\<rparr>
               in andThen (if method = PaymentMethodQRIS
                           then generatePaymentIntent u (inv_ID invoice) (ci_AmountIDR input)
                           else ret []) (\<lambda>url.
                  andThen (pp_Create paymentRepo (req\<lparr>pr_QRISURL := url\<rparr>)) (\<lambda>created.
                    ret \<lparr>co_ID = pr_ID created, co_Method = PaymentMethod_string (pr_Method created),
                         co_Status = PaymentRequestStatus_string (pr_Status created),
                         co_QRISURL = pr_QRISURL created, co_PaymentRef = pr_PaymentRef created,
                         co_ExpiresAt = word_of_int (Unix (pr_ExpiresAt created))\<rparr>))))))"

record PaymentNotification =
  pn_OrderID :: string
  pn_TransactionStatus :: string
  pn_FraudStatus :: string
  pn_GrossAmount :: string
  pn_SignatureKey :: string

definition decodeNotification :: "json \<Rightarrow> PaymentNotification option" where
  "decodeNotification j =
     Option.bind (object_of j) (\<lambda>kvs.
     Option.bind (field as_string ''order_id'' kvs []) (\<lambda>o1.
     Option.bind (field as_string ''transaction_status'' kvs []) (\<lambda>t.
     Option.bind (field as_string ''fraud_status'' kvs []) (\<lambda>f.
     Option.bind (field as_string ''gross_amount'' kvs []) (\<lambda>g.
     Option.bind (field as_string ''signature_key'' kvs []) (\<lambda>s.
       Some \<lparr>pn_OrderID = o1, pn_TransactionStatus = t, pn_FraudStatus = f, pn_GrossAmount = g,
             pn_SignatureKey = s\<rparr>))))))"

text \<open>The switch on \<open>transaction_status\<close>; \<open>None\<close> is a return with no change.\<close>

definition new_status :: "PaymentNotification \<Rightarrow> (PaymentRequestStatus \<times> string) option" where
  "new_status n =
     (if pn_TransactionStatus n \<in> {''capture'', ''settlement''}
      then if pn_FraudStatus n = ''accept'' \<or> pn_FraudStatus n = []
           then Some (PaymentRequestSuccess, EvtPaymentSuccess)
           else Some (PaymentRequestFailed, EvtPaymentFailed)
      else if pn_TransactionStatus n = ''pending'' then None
      else if pn_TransactionStatus n \<in> {''deny'', ''cancel'', ''expire'', ''failure''}
      then Some (PaymentRequestFailed, EvtPaymentFailed)
      else None)"

definition payment_payload :: "PaymentRequest \<Rightarrow> PaymentRequestStatus \<Rightarrow> json" where
  "payment_payload pr newStatus =
     JObj [(''amount_idr'', JInt (sint (pr_AmountIDR pr))), (''invoice_id'', JStr (pr_InvoiceID pr)),
           (''method'', JStr (PaymentMethod_string (pr_Method pr))),
           (''payment_ref'', JStr (pr_PaymentRef pr)), (''reservation_id'', JStr (pr_ReservationID pr)),
           (''status'', JStr (PaymentRequestStatus_string newStatus))]"

text \<open>The payload is what the request body denotes, \<open>None\<close> when it is not JSON.\<close>

definition HandlePaymentNotification ::
    "'w billingUsecase \<Rightarrow> json option \<Rightarrow> ('w, goerror, unit) io" where
  "HandlePaymentNotification u payload =
     (case uc_paymentRepo u of
        None \<Rightarrow> throw no_payment_repo
      | Some paymentRepo \<Rightarrow>
        (case Option.bind payload decodeNotification of
           None \<Rightarrow> throw (VALIDATION ''invalid notification payload'')
         | Some n \<Rightarrow>
             if pn_OrderID n = [] then throw (VALIDATION ''order_id required'')
             else andThen (pp_GetByPaymentRef paymentRepo (pn_OrderID n)) (\<lambda>pr.
               case new_status n of
                 None \<Rightarrow> ret ()
               | Some (newStatus, eventType) \<Rightarrow>
                   andThen (pp_UpdateStatusByPaymentRef paymentRepo (pn_OrderID n) newStatus eventType
                              (Some (payment_payload pr newStatus))) (\<lambda>_. ret ()))))"

section \<open>The usecase over a repository that keeps its contract\<close>

text \<open>
  The usecase relies on the contract of \<open>InvoiceRepository\<close> and on the user client leaving the
  database of this service alone.
\<close>

locale billing_service = invoice_store "uc_repo u" ok book clock
  for u :: "'w billingUsecase" and ok :: "'w \<Rightarrow> bool" and book :: "'w \<Rightarrow> ledger" and clock :: "'w \<Rightarrow> Time" +
  assumes users_frame: "uc_users u = Some f \<Longrightarrow> ok w \<Longrightarrow> GetMSISDN f d w = (r, w') \<Longrightarrow>
      ok w' \<and> book w' = book w \<and> clock w' = clock w"
begin

lemma lookupMSISDN_frame:
  assumes "ok w" "lookupMSISDN u d w = (r, w')"
  shows "ok w' \<and> book w' = book w \<and> clock w' = clock w \<and> (\<exists>m. r = Inr m)"
proof (cases "uc_users u")
  case None
  then show ?thesis using assms by (auto simp: lookupMSISDN_def)
next
  case (Some f)
  then show ?thesis using assms users_frame [OF Some assms(1), of d]
    by (auto simp: lookupMSISDN_def attempt_def split: if_splits prod.splits sum.splits)
qed

lemma OpenInvoice_ledger:
  assumes "ok w" "OpenInvoice u res drv key w = (r, w')"
  shows "ok w' \<and> clock w' = clock w \<and>
    (book w' = book w \<and>
       (\<forall>x. r = Inr x \<longrightarrow> book w (inv_ID x) = Some (entry_of x) \<and> inv_IdempotencyKey x = key) \<or>
     (\<exists>iid. book w iid = None \<and> (\<forall>e \<in> ran (book w). e_reservation e \<noteq> res \<and> e_key e \<noteq> key) \<and>
        TrimSpace res \<noteq> [] \<and> TrimSpace key \<noteq> [] \<and>
        book w' = (book w)(iid \<mapsto> new_entry res drv key (BookingFeeIDR (uc_cfg u))) \<and>
        (\<forall>x. r = Inr x \<longrightarrow> inv_ID x = iid \<and> entry_of x = new_entry res drv key (BookingFeeIDR (uc_cfg u)))))"
proof (cases "TrimSpace res = [] \<or> TrimSpace key = []")
  case True
  then show ?thesis using assms by (auto simp: OpenInvoice_def split: if_splits)
next
  case False
  then have "ir_Open (uc_repo u) res drv key (BookingFeeIDR (uc_cfg u)) (Some (opened_payload (uc_cfg u) res drv key)) w = (r, w')"
    using assms(2) by (auto simp: OpenInvoice_def)
  from Open_law [OF assms(1) this] False show ?thesis by blast
qed

lemma CloseInvoice_ledger:
  assumes "ok w" "CloseInvoice u iid s w = (r, w')"
  shows "ok w' \<and> clock w' = clock w \<and>
    (book w' = book w \<and>
       (\<forall>x. r = Inr x \<longrightarrow> inv_ID x = iid \<and> book w iid = Some (entry_of x) \<and> inv_Status x \<noteq> InvoiceOpen) \<or>
     (\<exists>e ls. Apply (uc_tzdb u) (uc_engine u) s = Inr ls \<and> book w iid = Some e \<and> e_status e = InvoiceOpen \<and>
        book w' = (book w)(iid \<mapsto> closed_entry (clock w) (dbLines ls) e) \<and>
        (\<forall>x. r = Inr x \<longrightarrow> inv_ID x = iid \<and> entry_of x = closed_entry (clock w) (dbLines ls) e)))"
proof (cases "Apply (uc_tzdb u) (uc_engine u) s")
  case (Inl e)
  then show ?thesis using assms by (auto simp: CloseInvoice_def andThen_def)
next
  case (Inr ls)
  obtain g w1 where g: "ir_GetByID (uc_repo u) iid w = (g, w1)" by (cases "ir_GetByID (uc_repo u) iid w")
  have w1: "ok w1 \<and> clock w1 = clock w \<and> book w1 = book w" using Get_law [OF assms(1) g] by blast
  have "\<exists>evt w2. ok w2 \<and> clock w2 = clock w \<and> book w2 = book w \<and>
      ir_Close (uc_repo u) iid (dbLines ls) evt w2 = (r, w')"
  proof (cases g)
    case (Inl e)
    then show ?thesis using assms(2) Inr g w1
      by (auto simp: CloseInvoice_def andThen_def attempt_def)
  next
    case current: (Inr i)
    obtain m w2 where m: "lookupMSISDN u (inv_DriverID i) w1 = (m, w2)"
      by (cases "lookupMSISDN u (inv_DriverID i) w1")
    have w2: "ok w2 \<and> clock w2 = clock w \<and> book w2 = book w" "\<exists>t. m = Inr t"
      using lookupMSISDN_frame [OF _ m] w1 by auto
    have "\<exists>evt. ir_Close (uc_repo u) iid (dbLines ls) evt w2 = (r, w')"
      using w2(2) assms(2) Inr g current m by (auto simp: CloseInvoice_def andThen_def attempt_def)
    then show ?thesis using w2(1) by blast
  qed
  then obtain evt w2 where w2: "ok w2" "clock w2 = clock w" "book w2 = book w"
    "ir_Close (uc_repo u) iid (dbLines ls) evt w2 = (r, w')" by blast
  show ?thesis using Close_law [OF w2(1,4)] Inr w2(2,3) by simp
qed

text \<open>What \<open>getOpenInvoice\<close> answers: an OPEN invoice of the reservation, or nothing to do.\<close>

lemma getOpenInvoice_spec:
  assumes "ok w" "getOpenInvoice u res w = (r, w')"
  shows "ok w' \<and> clock w' = clock w \<and> book w' = book w \<and>
    (case r of Inl _ \<Rightarrow> True
     | Inr None \<Rightarrow> \<forall>e \<in> ran (book w). e_reservation e = res \<longrightarrow> e_status e \<noteq> InvoiceOpen
     | Inr (Some i) \<Rightarrow> book w (inv_ID i) = Some (entry_of i) \<and> inv_ReservationID i = res \<and> inv_Status i = InvoiceOpen)"
proof -
  obtain g where g: "ir_GetByReservationID (uc_repo u) res w = (g, w')"
    and k: "(case g of Inl err \<Rightarrow> if errors_Is err ErrNotFound then ret None else throw err
       | Inr i \<Rightarrow> if inv_Status i \<noteq> InvoiceOpen then ret None else ret (Some i)) w' = (r, w')"
    using assms(2)
    by (auto simp: getOpenInvoice_def attempt_def split: prod.splits sum.splits if_splits)
  note law = GetByReservation_law [OF assms(1) g]
  have uniq: "e_status e = inv_Status i" if h: "g = Inr i" "e \<in> ran (book w)" "e_reservation e = res" for i e
  proof -
    obtain j where j: "book w j = Some e" using h(2) by (auto simp: ran_def)
    have i: "book w (inv_ID i) = Some (entry_of i)" "inv_ReservationID i = res" using law h(1) by auto
    have "j = inv_ID i" using one_per_reservation [OF assms(1) j i(1)] h(3) i(2) by simp
    then show ?thesis using i(1) j by (metis entry_of_sel(1) option.inject)
  qed
  show ?thesis
  proof (cases g)
    case (Inl e)
    then show ?thesis using law k by (cases "errors_Is e ErrNotFound") auto
  next
    case (Inr i)
    then show ?thesis using law k uniq [OF Inr] by (cases "inv_Status i = InvoiceOpen") auto
  qed
qed

lemma appendFee_ledger:
  assumes "ok w" "kind \<noteq> MLineBooking" "appendFee u i res kind amount reason w = (r, w')"
  shows "ok w' \<and> clock w' = clock w \<and>
    (book w' = book w \<and> (\<exists>e. r = Inl e) \<or>
     (\<exists>e. book w (inv_ID i) = Some e \<and> int64_ok (sint (e_total e) + sint amount) \<and>
        book w' = (book w)(inv_ID i \<mapsto> charged [fee_line kind amount reason] e)))"
proof -
  obtain g where g: "ir_AppendLine (uc_repo u) (inv_ID i) (fee_line kind amount reason)
      (Some (fee_payload i res kind amount)) w = (g, w')" and r: "(\<exists>e. g = Inl e) \<longleftrightarrow> (\<exists>e. r = Inl e)"
    using assms(3) by (auto simp: appendFee_def andThen_def split: prod.splits sum.splits)
  have k: "ml_Kind (fee_line kind amount reason) \<noteq> MLineBooking" using assms(2) by (simp add: fee_line_def)
  have a: "ml_AmountIDR (fee_line kind amount reason) = amount" by (simp add: fee_line_def)
  from Append_law [OF assms(1) k g] show ?thesis unfolding a using r by blast
qed

lemma open_fee_ledger:
  assumes "ok w1" "clock w1 = clock w" "book w1 = book w" "book w (inv_ID i) = Some (entry_of i)"
    "inv_ReservationID i = res" "inv_Status i = InvoiceOpen" "kind \<noteq> MLineBooking"
    "appendFee u i res kind amount reason w1 = (r, w')"
  shows "ok w' \<and> clock w' = clock w \<and>
    (book w' = book w \<and> r \<noteq> Inr () \<or>
     (\<exists>iid e. book w iid = Some e \<and> e_reservation e = res \<and> e_status e = InvoiceOpen \<and>
        book w' = (book w)(iid \<mapsto> charged [fee_line kind amount reason] e)))"
proof -
  have e: "book w (inv_ID i) = Some (entry_of i) \<and> e_reservation (entry_of i) = res \<and>
      e_status (entry_of i) = InvoiceOpen" using assms(4-6) by simp
  from appendFee_ledger [OF assms(1,7,8)] consider
      (no) "ok w'" "clock w' = clock w1" "book w' = book w1" "\<exists>e. r = Inl e"
    | (yes) "ok w'" "clock w' = clock w1" "book w' = (book w)(inv_ID i \<mapsto> charged [fee_line kind amount reason] (entry_of i))"
    using assms(3,4) by auto
  then show ?thesis
  proof cases
    case no
    then show ?thesis using assms(2,3) by auto
  next
    case yes
    then show ?thesis using e assms(2) by metis
  qed
qed

end

text \<open>A cancellation costs its fee once the grace period since the confirmation is over.\<close>

definition cancel_due :: "Config \<Rightarrow> Time \<Rightarrow> Time \<Rightarrow> bool" where
  "cancel_due cfg confirmed cancelled \<longleftrightarrow>
     sint (CancelGrace cfg) < min (2 ^ 63 - 1) (cancelled - confirmed) \<and> CancelFeeIDR cfg \<noteq> 0"

text \<open>The default wiring: the engine of the five rules, with the tariff of the usecase.\<close>

locale default_billing = billing_service u ok book clock
  for u :: "'w billingUsecase" and ok :: "'w \<Rightarrow> bool" and book :: "'w \<Rightarrow> ledger" and clock :: "'w \<Rightarrow> Time" +
  assumes engine: "uc_engine u = NewDefaultEngine (uc_cfg u)"
begin

lemma cancel_lines:
  "Apply (uc_tzdb u) (uc_engine u) (cancel_session confirmed cancelled) =
     Inr [cancel_line (uc_cfg u) confirmed cancelled]"
proof -
  have "cancel_session confirmed cancelled =
      (cancel_session confirmed cancelled)\<lparr>Timezone := Some (FixedZone (7 * 60 * 60))\<rparr>"
    by (simp add: cancel_session_def jakarta_def)
  then show ?thesis unfolding engine
    using Apply_table_fixed [of "uc_tzdb u" "uc_cfg u" "7 * 60 * 60" "cancel_session confirmed cancelled"]
    by (simp add: expected_lines_def cancel_session_def)
qed

lemma cancelFees_line:
  "cancelFees u i res [cancel_line (uc_cfg u) confirmed cancelled] =
     (if cancel_due (uc_cfg u) confirmed cancelled
      then andThen (appendFee u i res MLineCancellation (CancelFeeIDR (uc_cfg u)) ''post-grace cancel'') (\<lambda>_. ret ())
      else ret ())"
  by (auto simp: cancel_line_def cancel_due_def)

lemma ApplyCancelFee_ledger:
  assumes "ok w" "ApplyCancelFee u res confirmed cancelled w = (r, w')"
  shows "ok w' \<and> clock w' = clock w \<and>
    (book w' = book w \<and> (r = Inr () \<longrightarrow> \<not> cancel_due (uc_cfg u) confirmed cancelled \<or>
       (\<forall>e \<in> ran (book w). e_reservation e = res \<longrightarrow> e_status e \<noteq> InvoiceOpen)) \<or>
     (\<exists>iid e. cancel_due (uc_cfg u) confirmed cancelled \<and> book w iid = Some e \<and> e_reservation e = res \<and>
        e_status e = InvoiceOpen \<and> book w' = (book w)(iid \<mapsto>
          charged [fee_line MLineCancellation (CancelFeeIDR (uc_cfg u)) ''post-grace cancel''] e)))"
proof -
  obtain g w1 where g: "getOpenInvoice u res w = (g, w1)" by (cases "getOpenInvoice u res w")
  note spec = getOpenInvoice_spec [OF assms(1) g]
  show ?thesis
  proof (cases g)
    case (Inl e)
    then show ?thesis using assms(2) g spec by (auto simp: ApplyCancelFee_def andThen_def)
  next
    case open_invoice: (Inr o1)
    show ?thesis
    proof (cases o1)
      case None
      then show ?thesis using assms(2) g spec open_invoice by (auto simp: ApplyCancelFee_def andThen_def)
    next
      case (Some i)
      have run: "cancelFees u i res [cancel_line (uc_cfg u) confirmed cancelled] w1 = (r, w')"
        using assms(2) g open_invoice Some cancel_lines by (simp add: ApplyCancelFee_def andThen_def)
      have i: "ok w1" "clock w1 = clock w" "book w1 = book w" "book w (inv_ID i) = Some (entry_of i)"
        "inv_ReservationID i = res" "inv_Status i = InvoiceOpen" using spec open_invoice Some by auto
      show ?thesis
      proof (cases "cancel_due (uc_cfg u) confirmed cancelled")
        case False
        then show ?thesis using run [unfolded cancelFees_line] i by auto
      next
        case True
        obtain q where q: "appendFee u i res MLineCancellation (CancelFeeIDR (uc_cfg u)) ''post-grace cancel'' w1 = (q, w')"
          "q = Inr () \<longleftrightarrow> r = Inr ()"
          using run [unfolded cancelFees_line] True by (auto simp: andThen_def split: prod.splits sum.splits)
        show ?thesis using open_fee_ledger [OF i _ q(1)] q(2) True by auto
      qed
    qed
  qed
qed

lemma ApplyNoShowFee_ledger:
  assumes "ok w" "ApplyNoShowFee u res w = (r, w')"
  shows "ok w' \<and> clock w' = clock w \<and>
    (book w' = book w \<and> (r = Inr () \<longrightarrow>
       (\<forall>e \<in> ran (book w). e_reservation e = res \<longrightarrow> e_status e \<noteq> InvoiceOpen)) \<or>
     (\<exists>iid e. book w iid = Some e \<and> e_reservation e = res \<and> e_status e = InvoiceOpen \<and>
        book w' = (book w)(iid \<mapsto> charged [fee_line MLineNoShow (NoShowFeeIDR (uc_cfg u)) ''no-show''] e)))"
proof -
  obtain g w1 where g: "getOpenInvoice u res w = (g, w1)" by (cases "getOpenInvoice u res w")
  note spec = getOpenInvoice_spec [OF assms(1) g]
  show ?thesis
  proof (cases g)
    case (Inl e)
    then show ?thesis using assms(2) g spec by (auto simp: ApplyNoShowFee_def andThen_def)
  next
    case open_invoice: (Inr o1)
    show ?thesis
    proof (cases o1)
      case None
      then show ?thesis using assms(2) g spec open_invoice by (auto simp: ApplyNoShowFee_def andThen_def)
    next
      case (Some i)
      have run: "appendFee u i res MLineNoShow (NoShowFeeIDR (uc_cfg u)) ''no-show'' w1 = (r, w')"
        using assms(2) g open_invoice Some by (simp add: ApplyNoShowFee_def andThen_def)
      have i: "ok w1" "clock w1 = clock w" "book w1 = book w" "book w (inv_ID i) = Some (entry_of i)"
        "inv_ReservationID i = res" "inv_Status i = InvoiceOpen" using spec open_invoice Some by auto
      show ?thesis using open_fee_ledger [OF i _ run] by auto
    qed
  qed
qed

end

text \<open>
  With a repository of payment requests: invoice reads do not change the payment requests or how they are
  kept, the client of the payment service does not change this service's database, and \<open>time.Now\<close> is the clock.
\<close>

locale payment_service = billing_service u ok book clock + payment_store Q ok book pays clock expiry
  for u :: "'w billingUsecase" and ok :: "'w \<Rightarrow> bool" and book :: "'w \<Rightarrow> ledger" and clock :: "'w \<Rightarrow> Time"
    and Q :: "'w PaymentRequestRepository" and pays :: "'w \<Rightarrow> PaymentRequest list"
    and expiry :: "'w \<Rightarrow> Time \<Rightarrow> Time" +
  assumes wired: "uc_paymentRepo u = Some Q" and now: "uc_now u = clock"
    and read_frame: "ok w \<Longrightarrow> ir_GetByReservationID (uc_repo u) res w = (r, w') \<Longrightarrow> pays w' = pays w \<and> expiry w' = expiry w"
    and client_frame: "uc_payment u = Some f \<Longrightarrow> ok w \<Longrightarrow> CreateQrisIntent f i a w = (r', w') \<Longrightarrow>
      ok w' \<and> book w' = book w \<and> clock w' = clock w \<and> pays w' = pays w \<and> expiry w' = expiry w"
begin

lemma generatePaymentIntent_frame:
  assumes "ok w" "generatePaymentIntent u i a w = (r, w')"
  shows "ok w' \<and> book w' = book w \<and> clock w' = clock w \<and> pays w' = pays w \<and> expiry w' = expiry w \<and>
    (uc_payment u = None \<longrightarrow> r = Inr [])"
proof (cases "uc_payment u")
  case None
  then show ?thesis using assms by (auto simp: generatePaymentIntent_def)
next
  case (Some f)
  obtain q v where q: "CreateQrisIntent f i a w = (q, v)" by (cases "CreateQrisIntent f i a w")
  then show ?thesis using assms client_frame [OF Some assms(1) q] Some
    by (auto simp: generatePaymentIntent_def attempt_def split: sum.splits)
qed

lemma CreatePaymentRequest_spec:
  assumes "ok w" "CreatePaymentRequest u input w = (r, w')"
  shows "ok w' \<and> book w' = book w \<and>
    (pays w' = pays w \<and> (\<exists>e. r = Inl e) \<or>
     (\<exists>q e. payment_input_error input = None \<and> pays w' = pays w @ [q] \<and>
        book w (pr_InvoiceID q) = Some e \<and> e_reservation e = ci_ReservationID input \<and>
        pr_ReservationID q = ci_ReservationID input \<and> pr_AmountIDR q = ci_AmountIDR input \<and>
        pr_Method q = to_PaymentMethod (payment_method input) \<and> pr_Status q = PaymentRequestPending \<and>
        pr_ExpiresAt q = expiry w (Add (clock w) (15 * Minute)) \<and> pr_PaymentRef q = ''PAY-'' @ pr_ID q \<and>
        (uc_payment u = None \<or> payment_method input = ''CC'' \<longrightarrow> pr_QRISURL q = []) \<and>
        (\<forall>x. r = Inr x \<longrightarrow> x = \<lparr>co_ID = pr_ID q, co_Method = payment_method input, co_Status = ''PENDING'',
           co_QRISURL = pr_QRISURL q, co_PaymentRef = pr_PaymentRef q,
           co_ExpiresAt = word_of_int (Unix (Add (clock w) (15 * Minute)))\<rparr>)))"
proof (cases "payment_input_error input")
  case (Some e)
  then show ?thesis using assms by (auto simp: CreatePaymentRequest_def)
next
  case None
  obtain g w1 where g: "ir_GetByReservationID (uc_repo u) (ci_ReservationID input) w = (g, w1)"
    by (cases "ir_GetByReservationID (uc_repo u) (ci_ReservationID input) w")
  note law = GetByReservation_law [OF assms(1) g] read_frame [OF assms(1) g]
  show ?thesis
  proof (cases g)
    case (Inl e)
    then show ?thesis using assms None wired g law by (auto simp: CreatePaymentRequest_def andThen_def)
  next
    case (Inr i)
    define m where "m = to_PaymentMethod (payment_method input)"
    define req where "req = \<lparr>pr_ID = [], pr_ReservationID = ci_ReservationID input,
        pr_InvoiceID = inv_ID i, pr_AmountIDR = ci_AmountIDR input, pr_Method = m,
        pr_Status = PaymentRequestPending, pr_PaymentRef = [], pr_QRISURL = [],
        pr_ExpiresAt = Add (clock w) (15 * Minute), pr_CreatedAt = 0, pr_UpdatedAt = 0\<rparr>"
    define mi where "mi = (if m = PaymentMethodQRIS then generatePaymentIntent u (inv_ID i) (ci_AmountIDR input) else ret [])"
    obtain url w2 where url: "mi w1 = (url, w2)" by (cases "mi w1")
    have w1: "ok w1" "book w1 = book w" "clock w1 = clock w" "pays w1 = pays w" "expiry w1 = expiry w" using law by auto
    have w2: "ok w2" "book w2 = book w" "clock w2 = clock w" "pays w2 = pays w" "expiry w2 = expiry w"
      "uc_payment u = None \<or> m \<noteq> PaymentMethodQRIS \<longrightarrow> url = Inr []"
      using generatePaymentIntent_frame [OF w1(1), of "inv_ID i" "ci_AmountIDR input" url w2] url w1
      by (auto simp: mi_def split: if_splits)
    show ?thesis
    proof (cases url)
      case bad: (Inl e)
      then show ?thesis using assms(2) None wired g Inr url w2 w1(3) now
        by (auto simp: CreatePaymentRequest_def andThen_def Let_def mi_def m_def)
    next
      case good: (Inr s)
      obtain c where c: "pp_Create Q (req\<lparr>pr_QRISURL := s\<rparr>) w2 = (c, w')"
        and r: "\<forall>x. r = Inr x \<longrightarrow> (\<exists>y. c = Inr y \<and> x = \<lparr>co_ID = pr_ID y, co_Method = PaymentMethod_string (pr_Method y),
             co_Status = PaymentRequestStatus_string (pr_Status y), co_QRISURL = pr_QRISURL y,
             co_PaymentRef = pr_PaymentRef y, co_ExpiresAt = word_of_int (Unix (pr_ExpiresAt y))\<rparr>)"
          "(\<exists>e. c = Inl e) \<longrightarrow> (\<exists>e. r = Inl e)"
        using assms(2) None wired g Inr url good w1(3) now
        by (auto simp: CreatePaymentRequest_def andThen_def Let_def mi_def m_def req_def split: prod.splits sum.splits)
      have zero: "pr_CreatedAt (req\<lparr>pr_QRISURL := s\<rparr>) = 0" "pr_UpdatedAt (req\<lparr>pr_QRISURL := s\<rparr>) = 0"
        by (simp_all add: req_def)
      from Create_law [OF w2(1) c] zero consider
          (no) "ok w'" "book w' = book w2" "pays w' = pays w2" "\<exists>e. c = Inl e"
        | (yes) q where "ok w'" "book w' = book w2" "pays w' = pays w2 @ [q]" "stores (expiry w2) (req\<lparr>pr_QRISURL := s\<rparr>) q"
            "\<forall>x. c = Inr x \<longrightarrow> answers (expiry w2) (req\<lparr>pr_QRISURL := s\<rparr>) q x" by blast
      then show ?thesis
      proof cases
        case no
        then show ?thesis using r(2) w2 by auto
      next
        case yes
        have q: "pr_InvoiceID q = inv_ID i" "pr_ReservationID q = ci_ReservationID input"
          "pr_AmountIDR q = ci_AmountIDR input" "pr_Method q = m" "pr_Status q = PaymentRequestPending"
          "pr_ExpiresAt q = expiry w (Add (clock w) (15 * Minute))" "pr_PaymentRef q = ''PAY-'' @ pr_ID q" "pr_QRISURL q = s"
          using yes(4) w2(5) by (cases q; auto simp: stores_def req_def as_stored_def)+
        have x: "x = \<lparr>co_ID = pr_ID q, co_Method = payment_method input, co_Status = ''PENDING'', co_QRISURL = s,
            co_PaymentRef = pr_PaymentRef q, co_ExpiresAt = word_of_int (Unix (Add (clock w) (15 * Minute)))\<rparr>"
          if rx: "r = Inr x" for x
        proof -
          obtain y where y: "c = Inr y" "x = \<lparr>co_ID = pr_ID y, co_Method = PaymentMethod_string (pr_Method y),
             co_Status = PaymentRequestStatus_string (pr_Status y), co_QRISURL = pr_QRISURL y,
             co_PaymentRef = pr_PaymentRef y, co_ExpiresAt = word_of_int (Unix (pr_ExpiresAt y))\<rparr>" using r(1) rx by blast
          then have "q = as_stored (expiry w2) y" "pr_ExpiresAt y = Add (clock w) (15 * Minute)"
            using yes(5) by (auto simp: answers_def req_def)
          then show ?thesis using q(4,5,8) y(2) by (simp add: m_def as_stored_def)
        qed
        have noqr: "uc_payment u = None \<or> payment_method input = ''CC'' \<longrightarrow> s = []"
          using w2(6) good by (auto simp: m_def to_PaymentMethod_def)
        have "book w (inv_ID i) = Some (entry_of i)" "inv_ReservationID i = ci_ReservationID input"
          using law(1) Inr by auto
        then show ?thesis using None yes q x noqr w2
          by (intro conjI disjI2 exI [of _ q] exI [of _ "entry_of i"]) (auto simp: m_def)
      qed
    qed
  qed
qed

lemma HandlePaymentNotification_spec:
  assumes "ok w" "HandlePaymentNotification u payload w = (r, w')"
  shows "ok w' \<and> book w' = book w \<and>
    (pays w' = pays w \<or>
     (\<exists>n st ev. Option.bind payload decodeNotification = Some n \<and> new_status n = Some (st, ev) \<and>
        find (\<lambda>p. pr_PaymentRef p = pn_OrderID n) (pays w) \<noteq> None \<and>
        pays w' = map (settle (pn_OrderID n) st (clock w)) (pays w)))"
proof (cases "Option.bind payload decodeNotification")
  case None
  then show ?thesis using assms wired by (auto simp: HandlePaymentNotification_def)
next
  case (Some n)
  show ?thesis
  proof (cases "pn_OrderID n = []")
    case True
    then show ?thesis using assms wired Some by (auto simp: HandlePaymentNotification_def)
  next
    case False
    obtain g w1 where g: "pp_GetByPaymentRef Q (pn_OrderID n) w = (g, w1)"
      by (cases "pp_GetByPaymentRef Q (pn_OrderID n) w")
    have w1: "ok w1" "book w1 = book w" "clock w1 = clock w" "pays w1 = pays w"
      using GetByPaymentRef_law [OF assms(1) g] by auto
    show ?thesis
    proof (cases "\<exists>pr. g = Inr pr \<and> new_status n \<noteq> None")
      case False
      then show ?thesis using assms(2) wired Some \<open>pn_OrderID n \<noteq> []\<close> g w1
        by (auto simp: HandlePaymentNotification_def andThen_def split: sum.splits option.splits)
    next
      case True
      then obtain pr st ev where pr: "g = Inr pr" "new_status n = Some (st, ev)" by auto
      have ev: "ev \<noteq> EvtInvoiceOpened" using pr(2) by (auto simp: new_status_def split: if_splits)
      obtain q where q: "pp_UpdateStatusByPaymentRef Q (pn_OrderID n) st ev (Some (payment_payload pr st)) w1 = (q, w')"
        using assms(2) wired Some False g pr
        by (auto simp: HandlePaymentNotification_def andThen_def split: sum.splits prod.splits)
      show ?thesis using Update_law [OF w1(1) ev q] w1 Some pr(2) by auto
    qed
  qed
qed

end

end
