(* ===== verification/Fees.thy ===== *)
theory Fees
  imports Wiring
begin

text \<open>
  Cancellation fees, no-show fees and payments, as the program runs them: what the contracts of the
  usecase give for \<open>main_usecase\<close>, and what happens when a fee event is delivered again.
\<close>

section \<open>Reading the open invoice\<close>

lemma GetByReservation_quiet:
  assumes "quiet w" "pg_ok w" "pg_book w iid = Some e"
  shows "\<exists>i w1. invoiceRepo_GetByReservationID (e_reservation e) w = (Inr i, w1) \<and> inv_ID i = iid \<and>
    entry_of i = e \<and> reads_only w w1 \<and> quiet w1 \<and> pg_ok w1"
proof -
  obtain r where r: "find (\<lambda>r. iv_id r = iid) (t_invoice (w_tables w)) = Some r"
    "e = entry_of (invoice_of (w_tables w) r)" using assms(3) by (auto simp: pg_book_def view_Some)
  have mem: "r \<in> set (t_invoice (w_tables w))" "iv_id r = iid" using find_Some_mem [OF r(1)] by auto
  have "distinct (map iv_reservation_id (t_invoice (w_tables w)))"
    using assms(2) by (simp add: pg_ok_def books_ok_def keys_ok_def)
  moreover have "uuid_text (e_reservation e)"
    using assms(2) mem(1) r(2) by (auto simp: pg_ok_def books_ok_def keys_ok_def)
  ultimately have f: "uuid_text (e_reservation e)" "find (\<lambda>q. iv_reservation_id q = e_reservation e) (t_invoice (w_tables w)) = Some r"
    using find_distinct_map [OF _ mem(1)] r(2) by simp_all
  have q: "quiet (tick_call w)" "pg_ok (tick_call w)" "pg_book (tick_call w) iid = Some e"
    using assms by (auto simp: quiet_def pg_ok_def serials_ok_def pg_book_def)
  obtain i w1 where i: "invoiceRepo_GetByID iid (tick_call w) = (Inr i, w1)" "inv_ID i = iid" "entry_of i = e"
    "reads_only (tick_call w) w1" "quiet w1" "pg_ok w1"
    using uc_GetByID_quiet [OF q] by blast
  have "invoiceRepo_GetByReservationID (e_reservation e) w = (Inr i, w1)"
    using i(1) f mem(2) assms(1)
    by (simp add: invoiceRepo_GetByReservationID_def andThen_def orNotFound_def attempt_def quiet_simps
        sql_invoice_by_reservation_def select_row_def)
  then show ?thesis using i reads_only_trans [OF reads_only_tick i(4)] by blast
qed

lemma getOpenInvoice_quiet:
  assumes "quiet w" "pg_ok w" "pg_book w iid = Some e" "e_status e = InvoiceOpen"
  shows "\<exists>i w1. getOpenInvoice (main_usecase c tzdb) (e_reservation e) w = (Inr (Some i), w1) \<and> inv_ID i = iid \<and>
    reads_only w w1 \<and> quiet w1 \<and> pg_ok w1"
proof -
  obtain i w1 where i: "invoiceRepo_GetByReservationID (e_reservation e) w = (Inr i, w1)" "inv_ID i = iid"
    "entry_of i = e" "reads_only w w1" "quiet w1" "pg_ok w1"
    using GetByReservation_quiet [OF assms(1-3)] by blast
  have "inv_Status i = InvoiceOpen" using i(3) assms(4) by auto
  with i show ?thesis by (simp add: getOpenInvoice_def NewInvoiceRepository_def)
qed

section \<open>One fee\<close>

text \<open>Once charged, a one-off fee is refused: the partial unique index stops the second line.\<close>

lemma appendFee_quiet:
  assumes "quiet w" "pg_ok w" "fresh_uuids w" "pg_book w (inv_ID i) = Some e" "one_off k"
    "k \<notin> fst ` set_mset (e_charges e)" "int64_ok (sint (e_total e) + sint amount)"
  shows "\<exists>w1 n. appendFee (main_usecase c tzdb) i res k amount reason w = (Inr (), w1) \<and> pg_ok w1 \<and> quiet w1 \<and>
    pg_book w1 = (pg_book w)(inv_ID i \<mapsto> charged [fee_line k amount reason] e) \<and>
    outbox w1 = outbox w @ [outbox_row_of n (inv_ID i) EvtInvoiceClosed (fee_payload i res k amount) (w_now w)]"
proof -
  have l: "ml_Kind (fee_line k amount reason) = k" "ml_AmountIDR (fee_line k amount reason) = amount"
    by (simp_all add: fee_line_def)
  have nb: "k \<noteq> MLineBooking" "\<forall>s. k \<noteq> MLineKindOther s" using assms(5) by (auto simp: one_off_def)
  have "ln_kind m \<noteq> k" if "m \<in> set (lines_of (w_tables w) (inv_ID i))" for m
    using imageI [OF that, of ln_kind] stored_kinds [OF assms(4)] assms(6) by auto
  then have ch: "chargeable (w_tables w) (inv_ID i) [fee_line k amount reason]"
    using nb l by (simp add: chargeable_def)
  obtain x w1 where x: "invoiceRepo_AppendLine (inv_ID i) (fee_line k amount reason)
      (Some (fee_payload i res k amount)) w = (Inr x, w1)" "pg_ok w1" "quiet w1"
    "pg_book w1 = (pg_book w)(inv_ID i \<mapsto> charged [fee_line k amount reason] e)"
    using AppendLine_quiet [OF assms(2,1,3,4) _ ch, of "fee_payload i res k amount"] nb(1) l assms(7) by auto
  moreover have "\<exists>n. outbox w1 = outbox w @ [outbox_row_of n (inv_ID i) EvtInvoiceClosed (fee_payload i res k amount) (w_now w)]"
    using pg_Append_law [OF assms(2) _ x(1)] nb(1) l by auto
  ultimately show ?thesis by (auto simp: appendFee_def NewInvoiceRepository_def)
qed

lemma appendFee_again:
  assumes "quiet w" "pg_book w (inv_ID i) = Some e" "one_off k" "k \<in> fst ` set_mset (e_charges e)"
  shows "\<exists>w'. appendFee (main_usecase c tzdb) i res k amount reason w =
      (Inl (PqError codeUniqueViolation), w') \<and> w_tables w' = w_tables w"
proof -
  obtain m where m: "m \<in> set (lines_of (w_tables w) (inv_ID i))" "ln_kind m = k"
    using assms(4) unfolding stored_kinds [OF assms(2), symmetric] by auto
  have "one_off (ml_Kind (fee_line k amount reason))" "ln_kind m = ml_Kind (fee_line k amount reason)"
    using assms(3) m(2) by (simp_all add: fee_line_def)
  from AppendLine_duplicate [OF assms(1) this(1) m(1) this(2), of "Some (fee_payload i res k amount)"]
  show ?thesis by (auto simp: appendFee_def NewInvoiceRepository_def)
qed

lemma charged_fee_sel:
  "k \<in> fst ` set_mset (e_charges (charged [fee_line k amount reason] e))"
  by (simp add: charged_def charge_def fee_line_def)

lemma no_show_quiet:
  assumes "pg_ok w" "quiet w" "fresh_uuids w" "pg_book w iid = Some e"
    "e_status e = InvoiceOpen" "MLineNoShow \<notin> fst ` set_mset (e_charges e)"
    "int64_ok (sint (e_total e) + sint (cfg_NoShowFeeIDR c))"
  shows "\<exists>w1 i n. ApplyNoShowFee (main_usecase c tzdb) (e_reservation e) w = (Inr (), w1) \<and> pg_ok w1 \<and> quiet w1 \<and>
    inv_ID i = iid \<and> pg_book w1 = (pg_book w)(iid \<mapsto> charged [fee_line MLineNoShow (cfg_NoShowFeeIDR c) ''no-show''] e) \<and>
    outbox w1 = outbox w @ [outbox_row_of n iid EvtInvoiceClosed
      (fee_payload i (e_reservation e) MLineNoShow (cfg_NoShowFeeIDR c)) (w_now w)]"
proof -
  obtain i v where i: "getOpenInvoice (main_usecase c tzdb) (e_reservation e) w = (Inr (Some i), v)"
    "inv_ID i = iid" "reads_only w v" "quiet v" "pg_ok v"
    using getOpenInvoice_quiet [OF assms(2,1,4,5), of c tzdb] by blast
  have v: "fresh_uuids v" "pg_book v (inv_ID i) = Some e" "pg_book v = pg_book w" "outbox v = outbox w" "w_now v = w_now w"
    using assms(3,4) i(2,3) by (auto simp: fresh_uuids_def reads_only_def same_tx_def pg_book_def outbox_def)
  have o1: "one_off MLineNoShow" by (simp add: one_off_def)
  obtain w1 n where "appendFee (main_usecase c tzdb) i (e_reservation e) MLineNoShow (cfg_NoShowFeeIDR c) ''no-show'' v
      = (Inr (), w1)" "pg_ok w1" "quiet w1" "pg_book w1 = (pg_book v)(inv_ID i \<mapsto> charged [fee_line MLineNoShow (cfg_NoShowFeeIDR c) ''no-show''] e)"
    "outbox w1 = outbox v @ [outbox_row_of n (inv_ID i) EvtInvoiceClosed (fee_payload i (e_reservation e) MLineNoShow (cfg_NoShowFeeIDR c)) (w_now v)]"
    using appendFee_quiet [OF i(4,5) v(1,2) o1 assms(6,7), of c tzdb "e_reservation e" "''no-show''"] by blast
  then show ?thesis using i(1,2) v(3-5)
    by - (rule exI [of _ w1], rule exI [of _ i], rule exI [of _ n], simp add: ApplyNoShowFee_def)
qed

lemma cancel_quiet:
  assumes "pg_ok w" "quiet w" "fresh_uuids w" "pg_book w iid = Some e" "e_status e = InvoiceOpen"
    "MLineCancellation \<notin> fst ` set_mset (e_charges e)" "int64_ok (sint (e_total e) + sint (cfg_CancelFeeIDR c))"
    "cancel_due (pricingCfg c) confirmed cancelled"
  shows "\<exists>w1. ApplyCancelFee (main_usecase c tzdb) (e_reservation e) confirmed cancelled w = (Inr (), w1) \<and>
    pg_book w1 = (pg_book w)(iid \<mapsto> charged [fee_line MLineCancellation (cfg_CancelFeeIDR c) ''post-grace cancel''] e)"
proof -
  let ?u = "main_usecase c tzdb"
  obtain i v where i: "getOpenInvoice ?u (e_reservation e) w = (Inr (Some i), v)"
    "inv_ID i = iid" "reads_only w v" "quiet v" "pg_ok v"
    using getOpenInvoice_quiet [OF assms(2,1,4,5), of c tzdb] by blast
  have v: "fresh_uuids v" "pg_book v (inv_ID i) = Some e" "pg_book v = pg_book w"
    using assms(3,4) i(2,3) by (auto simp: fresh_uuids_def reads_only_def same_tx_def pg_book_def)
  have o1: "one_off MLineCancellation" by (simp add: one_off_def)
  obtain w' where w': "appendFee ?u i (e_reservation e) MLineCancellation (cfg_CancelFeeIDR c) ''post-grace cancel'' v = (Inr (), w')"
    "pg_book w' = (pg_book v)(inv_ID i \<mapsto> charged [fee_line MLineCancellation (cfg_CancelFeeIDR c) ''post-grace cancel''] e)"
    using appendFee_quiet [OF i(4,5) v(1,2) o1 assms(6,7), of c tzdb "e_reservation e" "''post-grace cancel''"] by auto
  have "cancelFees ?u i (e_reservation e) [cancel_line (pricingCfg c) confirmed cancelled] v = (Inr (), w')"
    using svc.cancelFees_line [of c tzdb i "e_reservation e" confirmed cancelled] assms(8) w'(1) by simp
  then have "ApplyCancelFee ?u (e_reservation e) confirmed cancelled w = (Inr (), w')"
    using i(1) svc.cancel_lines [of c tzdb confirmed cancelled] by (simp add: ApplyCancelFee_def)
  then show ?thesis using w'(2) v(3) i(2) by simp
qed

section \<open>One payment request\<close>

text \<open>When the database answers and no unique constraint is hit, a valid request for a stored invoice is created.\<close>

lemma Create_quiet:
  assumes "quiet w" "\<And>row. \<not> ps_conflict (w_pr_schema w) (t_payment_requests (w_tables w)) row"
  shows "\<exists>x w'. paymentRequestRepo_Create req w = (Inr x, w')"
proof -
  obtain ident w1 where i: "(if pr_ID req = [] then new_uuid else ret (pr_ID req)) w = (Inr ident, w1)" "quiet w1"
    "w_pr_schema w1 = w_pr_schema w" "w_tables w1 = w_tables w"
    using assms(1) by (cases "pr_ID req = []") (auto simp: new_uuid_def quiet_def)
  have "\<exists>a b w2. db_call (sql_insert_payment_request (filled ident req)) w1 = (Inr (a, b), w2)"
    using assms(2) i by (simp add: quiet_simps sql_insert_payment_request_def Let_def)
  then show ?thesis using i(1) unfolding paymentRequestRepo_Create_def Let_def andThen_def attempt_def by auto
qed

lemma CreatePaymentRequest_total:
  assumes "pg_ok w" "quiet w" "pg_book w iid = Some e" "ci_ReservationID input = e_reservation e"
    "payment_input_error input = None"
    "\<And>row. \<not> ps_conflict (w_pr_schema w) (t_payment_requests (w_tables w)) row"
  shows "\<exists>x w'. CreatePaymentRequest (main_usecase c tzdb) input w = (Inr x, w')"
proof -
  obtain i w1 where i: "invoiceRepo_GetByReservationID (ci_ReservationID input) w = (Inr i, w1)" "reads_only w w1" "quiet w1"
    using GetByReservation_quiet [OF assms(2,1,3)] assms(4) by auto
  have sch: "\<not> ps_conflict (w_pr_schema w1) (t_payment_requests (w_tables w1)) row" for row
    using assms(6) i(2) by (simp add: reads_only_def same_tx_def)
  have "\<exists>x w'. paymentRequestRepo_Create req w1 = (Inr x, w')" for req by (rule Create_quiet [OF i(3) sch])
  then obtain X W where "paymentRequestRepo_Create req w1 = (Inr (X req), W req)" for req by metis
  then show ?thesis
    using i(1) assms(5)
    by (cases "to_PaymentMethod (payment_method input) = PaymentMethodQRIS") (simp_all add: CreatePaymentRequest_def generatePaymentIntent_def NewInvoiceRepository_def NewPaymentRequestRepository_def
        andThen_def Let_def)
qed

section \<open>Properties\<close>

text \<open>
  C29: a cancellation never touches more than the invoice of its reservation, and charges exactly the
  cancellation fee: when \<open>ApplyCancelFee\<close> returns, under any database failures, either no entry changed,
  and then success means that the grace period was not over (or the fee is 0) or that the reservation has
  no OPEN invoice; or the OPEN invoice of the reservation has the fee added to its lines and total and
  nothing else changed.
\<close>

theorem cancel_fee_exact:
  assumes "pg_ok w" and "ApplyCancelFee (main_usecase c tzdb) res confirmed cancelled w = (r, w')"
  shows "pg_ok w' \<and>
    (pg_book w' = pg_book w \<and> (r = Inr () \<longrightarrow> \<not> cancel_due (pricingCfg c) confirmed cancelled \<or>
       (\<forall>e \<in> ran (pg_book w). e_reservation e = res \<longrightarrow> e_status e \<noteq> InvoiceOpen)) \<or>
     (\<exists>iid e. cancel_due (pricingCfg c) confirmed cancelled \<and> pg_book w iid = Some e \<and>
        e_reservation e = res \<and> e_status e = InvoiceOpen \<and> pg_book w' = (pg_book w)(iid \<mapsto>
          charged [fee_line MLineCancellation (cfg_CancelFeeIDR c) ''post-grace cancel''] e)))"
  using svc.ApplyCancelFee_ledger [OF assms] by simp

theorem cancel_fee_exact_witness:
  "\<exists>w' e. ApplyCancelFee (main_usecase envDefault None) reservation_1 0 180000000000 (one_world (\<lambda>_. None) (\<lambda>_. None) 7) = (Inr (), w') \<and>
     pg_book w' ''i'' = Some e \<and> sint (e_total e) = 10000 \<and>
     e_charges e = {#(MLineBooking, 5000), (MLineCancellation, 5000)#} \<and> e_status e = InvoiceOpen"
proof -
  let ?w = "one_world (\<lambda>_. None) (\<lambda>_. None) 7" and ?e = "new_entry reservation_1 ''d'' ''k'' 5000"
  have b: "pg_book ?w ''i'' = Some ?e" by simp
  have due: "cancel_due (pricingCfg envDefault) 0 180000000000"
    by (simp add: cancel_due_def pricingCfg_default DefaultConfig_def Minute_def)
  obtain w' where w': "ApplyCancelFee (main_usecase envDefault None) reservation_1 0 180000000000 ?w = (Inr (), w')"
    using cancel_quiet [OF one_world_ok _ one_world_fresh b _ _ _ due, of None] by (auto simp: new_entry_def envDefault_def int64_ok_def)
  have "?e \<in> ran (pg_book ?w)" "e_reservation ?e = reservation_1" "e_status ?e = InvoiceOpen" by (auto simp: ran_def)
  with cancel_fee_exact [OF one_world_ok w'] due obtain iid e where "pg_book ?w iid = Some e"
    "pg_book w' = (pg_book ?w)(iid \<mapsto> charged [fee_line MLineCancellation (cfg_CancelFeeIDR envDefault) ''post-grace cancel''] e)"
    by blast
  then have "pg_book w' ''i'' = Some (charged [fee_line MLineCancellation 5000 ''post-grace cancel''] ?e)"
    by (auto simp: envDefault_def split: if_splits)
  with w' show ?thesis by (auto simp: charged_def charge_def fee_line_def new_entry_def)
qed

text \<open>
  C30: a no-show event whose fee was charged is not acknowledged when it is delivered again while the
  invoice is still OPEN. With a database that answers, the first \<open>ApplyNoShowFee\<close> adds the fee and
  succeeds; the second fails with a unique violation and changes nothing, so no fee is charged twice but
  the redelivery is an error and not a no-op.
\<close>

theorem no_show_redelivery:
  assumes "pg_ok w" and "quiet w" and "fresh_uuids w" and "pg_book w iid = Some e"
    and "e_status e = InvoiceOpen" and "MLineNoShow \<notin> fst ` set_mset (e_charges e)"
    and "int64_ok (sint (e_total e) + sint (cfg_NoShowFeeIDR c))"
  shows "\<exists>w1 w2. ApplyNoShowFee (main_usecase c tzdb) (e_reservation e) w = (Inr (), w1) \<and>
    pg_book w1 = (pg_book w)(iid \<mapsto> charged [fee_line MLineNoShow (cfg_NoShowFeeIDR c) ''no-show''] e) \<and>
    ApplyNoShowFee (main_usecase c tzdb) (e_reservation e) w1 = (Inl (PqError codeUniqueViolation), w2) \<and>
    w_tables w2 = w_tables w1"
proof -
  let ?e = "charged [fee_line MLineNoShow (cfg_NoShowFeeIDR c) ''no-show''] e"
  have o1: "one_off MLineNoShow" by (simp add: one_off_def)
  obtain w1 where w1: "ApplyNoShowFee (main_usecase c tzdb) (e_reservation e) w = (Inr (), w1)" "pg_ok w1" "quiet w1"
    "pg_book w1 = (pg_book w)(iid \<mapsto> ?e)" using no_show_quiet [OF assms] by blast
  have e1: "pg_book w1 iid = Some ?e" "e_status ?e = InvoiceOpen" "e_reservation ?e = e_reservation e"
    using w1(4) assms(5) by simp_all
  obtain j v1 where j: "getOpenInvoice (main_usecase c tzdb) (e_reservation e) w1 = (Inr (Some j), v1)"
    "inv_ID j = iid" "reads_only w1 v1" "quiet v1"
    using getOpenInvoice_quiet [OF w1(3,2) e1(1,2), of c tzdb] e1(3) by auto
  have vt: "w_tables v1 = w_tables w1" using j(3) by (simp add: reads_only_def)
  then have e2: "pg_book v1 (inv_ID j) = Some ?e" using e1(1) j(2) by (simp add: pg_book_def)
  obtain w2 where w2: "appendFee (main_usecase c tzdb) j (e_reservation e) MLineNoShow (cfg_NoShowFeeIDR c) ''no-show'' v1
      = (Inl (PqError codeUniqueViolation), w2)" "w_tables w2 = w_tables v1"
    using appendFee_again [OF j(4) e2 o1 charged_fee_sel, of c tzdb "e_reservation e"] by blast
  show ?thesis using j(1) w1 w2 vt
    by - (rule exI [of _ w1], rule exI [of _ w2], simp add: ApplyNoShowFee_def)
qed

theorem no_show_redelivery_witness:
  "\<exists>w1 w2. ApplyNoShowFee (main_usecase envDefault None) reservation_1 (one_world (\<lambda>_. None) (\<lambda>_. None) 7) = (Inr (), w1) \<and>
     ApplyNoShowFee (main_usecase envDefault None) reservation_1 w1 = (Inl (PqError codeUniqueViolation), w2)"
proof -
  have b: "pg_book (one_world (\<lambda>_. None) (\<lambda>_. None) 7) ''i'' = Some (new_entry reservation_1 ''d'' ''k'' 5000)" by simp
  from no_show_redelivery [OF one_world_ok _ one_world_fresh b, of envDefault None] show ?thesis
    by (auto simp: new_entry_def envDefault_def int64_ok_def)
qed

text \<open>
  C31: a fee is announced as the end of the invoice. With a database that answers, a no-show on an OPEN invoice stores an
  event of the type that tells other services that the invoice was closed, though the invoice stays OPEN and has no
  closing time; the payload is that of the fee and carries neither the lines nor the total of the invoice.
\<close>

theorem fee_announced_as_closed:
  assumes "pg_ok w" and "quiet w" and "fresh_uuids w" and "pg_book w iid = Some e"
    and "e_status e = InvoiceOpen" and "MLineNoShow \<notin> fst ` set_mset (e_charges e)"
    and "int64_ok (sint (e_total e) + sint (cfg_NoShowFeeIDR c))"
  shows "\<exists>w1 e1 n. ApplyNoShowFee (main_usecase c tzdb) (e_reservation e) w = (Inr (), w1) \<and>
    outbox w1 = outbox w @ [outbox_row_of n iid EvtInvoiceClosed
      (JObj [(''amount_idr'', JInt (sint (cfg_NoShowFeeIDR c))), (''invoice_id'', JStr iid), (''kind'', JStr ''NOSHOW''),
             (''reservation_id'', JStr (e_reservation e))]) (w_now w)] \<and>
    pg_book w1 iid = Some e1 \<and> e_status e1 = InvoiceOpen \<and> e_closed_at e1 = None"
proof -
  obtain w1 i n where w1: "ApplyNoShowFee (main_usecase c tzdb) (e_reservation e) w = (Inr (), w1)" "inv_ID i = iid"
    "pg_book w1 = (pg_book w)(iid \<mapsto> charged [fee_line MLineNoShow (cfg_NoShowFeeIDR c) ''no-show''] e)"
    "outbox w1 = outbox w @ [outbox_row_of n iid EvtInvoiceClosed
      (fee_payload i (e_reservation e) MLineNoShow (cfg_NoShowFeeIDR c)) (w_now w)]" using no_show_quiet [OF assms] by blast
  have "e_closed_at e = None" using pg.all_balanced [OF assms(1,4)] assms(5) by (simp add: balanced_def)
  then show ?thesis using w1 assms(5)
    by - (rule exI [of _ w1], rule exI [of _ "charged [fee_line MLineNoShow (cfg_NoShowFeeIDR c) ''no-show''] e"],
        rule exI [of _ n], simp add: fee_payload_def charged_def)
qed

theorem fee_announced_as_closed_witness:
  "\<exists>w1 e1. ApplyNoShowFee (main_usecase envDefault None) reservation_1 (one_world (\<lambda>_. None) (\<lambda>_. None) 7) = (Inr (), w1) \<and>
     length (outbox w1) = length (outbox (one_world (\<lambda>_. None) (\<lambda>_. None) 7)) + 1 \<and>
     pg_book w1 ''i'' = Some e1 \<and> e_status e1 = InvoiceOpen"
proof -
  have b: "pg_book (one_world (\<lambda>_. None) (\<lambda>_. None) 7) ''i'' = Some (new_entry reservation_1 ''d'' ''k'' 5000)" by simp
  from fee_announced_as_closed [OF one_world_ok _ one_world_fresh b, of envDefault None] show ?thesis
    by (auto simp: new_entry_def envDefault_def int64_ok_def)
qed

text \<open>
  C37: a payment request is stored exactly as asked and validated: when \<open>CreatePaymentRequest\<close> of the usecase
  main wires returns, under any database failures, no ledger entry changed, and either no payment request was
  stored and the call failed, or the input passed every check and exactly one PENDING request was added, for
  the invoice of the reservation, with the asked amount and method, under the reference derived from its
  identifier, with no QRIS address, as main wires no payment client, and with the instant 15 minutes after the
  call as its expiry, as the column keeps it. A caller who gets an answer gets these values, and the expiry
  in seconds.
\<close>

theorem CreatePaymentRequest_stores:
  assumes "pg_ok w" and "CreatePaymentRequest (main_usecase c tzdb) input w = (r, w')"
  shows "pg_ok w' \<and> pg_book w' = pg_book w \<and>
    (pg_pays w' = pg_pays w \<and> (\<exists>e. r = Inl e) \<or>
     (\<exists>q e. payment_input_error input = None \<and> pg_pays w' = pg_pays w @ [q] \<and>
        pg_book w (pr_InvoiceID q) = Some e \<and> e_reservation e = ci_ReservationID input \<and>
        pr_ReservationID q = ci_ReservationID input \<and> pr_AmountIDR q = ci_AmountIDR input \<and>
        pr_Method q = to_PaymentMethod (payment_method input) \<and> pr_Status q = PaymentRequestPending \<and>
        pr_ExpiresAt q = ps_expires_at (w_pr_schema w) (Add (w_now w) (15 * Minute)) \<and>
        pr_PaymentRef q = ''PAY-'' @ pr_ID q \<and> pr_QRISURL q = [] \<and>
        (\<forall>x. r = Inr x \<longrightarrow> x = \<lparr>co_ID = pr_ID q, co_Method = payment_method input, co_Status = ''PENDING'',
           co_QRISURL = [], co_PaymentRef = pr_PaymentRef q,
           co_ExpiresAt = word_of_int (Unix (Add (w_now w) (15 * Minute)))\<rparr>)))"
  using svcp.CreatePaymentRequest_spec [OF assms] by (auto simp: pg_expiry_def)

definition asked :: CreatePaymentRequestInput where
  "asked = \<lparr>ci_ReservationID = reservation_1, ci_DriverID = ''d'', ci_AmountIDR = 5000, ci_Method = ''QRIS'', ci_CCToken = []\<rparr>"

lemma trimmed: "TrimSpace reservation_1 = reservation_1" "TrimSpace ''d'' = ''d''" "TrimSpace ''QRIS'' = ''QRIS''"
  by (rule TrimSpace_visible; simp add: visible_def reservation_1_def)+

theorem CreatePaymentRequest_stores_witness:
  "\<exists>x w' q. CreatePaymentRequest (main_usecase envDefault None) asked (one_world (\<lambda>_. None) (\<lambda>_. None) 7) = (Inr x, w') \<and>
     pg_pays w' = [q] \<and> pr_InvoiceID q = ''i'' \<and> pr_AmountIDR q = 5000 \<and> pr_Status q = PaymentRequestPending \<and>
     pr_ExpiresAt q = 900000000000 \<and> co_ID x = pr_ID q"
proof -
  let ?w = "one_world (\<lambda>_. None) (\<lambda>_. None) 7"
  have b: "pg_book ?w ''i'' = Some (new_entry reservation_1 ''d'' ''k'' 5000)" by simp
  have i: "payment_input_error asked = None" by (simp add: payment_input_error_def payment_method_def Let_def trimmed asked_def)
  have t: "t_payment_requests (w_tables ?w) = []" "pg_pays ?w = []" by (simp_all add: one_tables_def no_tables_def table_ops pg_pays_def)
  have c: "\<not> ps_conflict (w_pr_schema ?w) (t_payment_requests (w_tables ?w)) row" for row
    unfolding t(1) by (simp add: one_world_def init_world_def)
  have "ci_ReservationID asked = e_reservation (new_entry reservation_1 ''d'' ''k'' 5000)" by (simp add: asked_def)
  then obtain x w' where x: "CreatePaymentRequest (main_usecase envDefault None) asked ?w = (Inr x, w')"
    using CreatePaymentRequest_total [OF one_world_ok _ b _ i c, of envDefault None] by auto
  from CreatePaymentRequest_stores [OF one_world_ok x] t(2) obtain q e where
    q: "pg_pays w' = [q]" "pg_book ?w (pr_InvoiceID q) = Some e" "pr_AmountIDR q = ci_AmountIDR asked" "pr_Status q = PaymentRequestPending"
    "pr_ExpiresAt q = ps_expires_at (w_pr_schema ?w) (Add (w_now ?w) (15 * Minute))" "co_ID x = pr_ID q" by auto
  have "pr_InvoiceID q = ''i''" using q(2) by (auto split: if_splits)
  moreover have "pr_ExpiresAt q = 900000000000"
    using q(5) by (simp add: one_world_def init_world_def microseconds_def Add_def Minute_def)
  ultimately show ?thesis using x q by (auto simp: asked_def)
qed

end
