(* ===== verification/Consumer.thy ===== *)
theory Consumer
  imports Fees
begin

text \<open>
  \<^verbatim>\<open>internal/billing/consumer/reservation.go\<close> and the consuming half of \<^verbatim>\<open>pkg/rabbit\<close>: reservation events become
  calls of the usecase, and the outcome of a call decides whether the delivery is acknowledged.
\<close>

section \<open>Event payloads\<close>

record createdEvt =
  cr_ReservationID :: string
  cr_DriverID :: string

record cancelledEvt =
  ca_ReservationID :: string
  ca_Reason :: string
  ca_ConfirmedAt :: Time
  ca_CancelledAt :: Time

record expiredEvt =
  ex_ReservationID :: string

record checkedOutEvt =
  ch_ReservationID :: string
  ch_ConfirmedAt :: Time
  ch_CheckedInAt :: Time
  ch_CheckedOutAt :: Time

definition decodeCreated :: "json \<Rightarrow> createdEvt option" where
  "decodeCreated j =
     Option.bind (object_of j) (\<lambda>kvs.
     Option.bind (field as_string ''reservation_id'' kvs []) (\<lambda>r.
     Option.bind (field as_string ''driver_id'' kvs []) (\<lambda>d.
       Some \<lparr>cr_ReservationID = r, cr_DriverID = d\<rparr>)))"

definition decodeCancelled :: "json \<Rightarrow> cancelledEvt option" where
  "decodeCancelled j =
     Option.bind (object_of j) (\<lambda>kvs.
     Option.bind (field as_string ''reservation_id'' kvs []) (\<lambda>r.
     Option.bind (field as_string ''reason'' kvs []) (\<lambda>q.
     Option.bind (field as_time ''confirmed_at'' kvs 0) (\<lambda>c.
     Option.bind (field as_time ''cancelled_at'' kvs 0) (\<lambda>x.
       Some \<lparr>ca_ReservationID = r, ca_Reason = q, ca_ConfirmedAt = c, ca_CancelledAt = x\<rparr>)))))"

definition decodeExpired :: "json \<Rightarrow> expiredEvt option" where
  "decodeExpired j =
     Option.bind (object_of j) (\<lambda>kvs.
     Option.bind (field as_string ''reservation_id'' kvs []) (\<lambda>r. Some \<lparr>ex_ReservationID = r\<rparr>))"

definition decodeCheckedOut :: "json \<Rightarrow> checkedOutEvt option" where
  "decodeCheckedOut j =
     Option.bind (object_of j) (\<lambda>kvs.
     Option.bind (field as_string ''reservation_id'' kvs []) (\<lambda>r.
     Option.bind (field as_time ''confirmed_at'' kvs 0) (\<lambda>c.
     Option.bind (field as_time ''checked_in_at'' kvs 0) (\<lambda>i.
     Option.bind (field as_time ''checked_out_at'' kvs 0) (\<lambda>x.
       Some \<lparr>ch_ReservationID = r, ch_ConfirmedAt = c, ch_CheckedInAt = i, ch_CheckedOutAt = x\<rparr>)))))"

section \<open>Handle\<close>

definition checkout_session :: "checkedOutEvt \<Rightarrow> Session" where
  "checkout_session ev =
     \<lparr>ConfirmedAt = ch_ConfirmedAt ev, CheckedInAt = ch_CheckedInAt ev, CheckedOutAt = ch_CheckedOutAt ev,
      CancelledAt = None, NoShow = False, VehicleTypeOf = VehicleCar, Timezone = None\<rparr>"

text \<open>The four branches of the switch, after the body is decoded; \<open>Inr ()\<close> is a nil error.\<close>

definition handleCreated :: "'w billingUsecase \<Rightarrow> createdEvt \<Rightarrow> ('w, goerror, unit) io" where
  "handleCreated u ev =
     (if cr_ReservationID ev = [] then ret ()
      else andThen (OpenInvoice u (cr_ReservationID ev) (cr_DriverID ev) (cr_ReservationID ev)) (\<lambda>_. ret ()))"

definition handleCancelled :: "'w billingUsecase \<Rightarrow> cancelledEvt \<Rightarrow> ('w, goerror, unit) io" where
  "handleCancelled u ev w =
     (let cancelledAt = (if IsZero (ca_CancelledAt ev) then uc_now u w else ca_CancelledAt ev)
      in ApplyCancelFee u (ca_ReservationID ev) (ca_ConfirmedAt ev) cancelledAt w)"

definition handleExpired :: "'w billingUsecase \<Rightarrow> expiredEvt \<Rightarrow> ('w, goerror, unit) io" where
  "handleExpired u ev = ApplyNoShowFee u (ex_ReservationID ev)"

definition handleCheckedOut :: "'w billingUsecase \<Rightarrow> checkedOutEvt \<Rightarrow> ('w, goerror, unit) io" where
  "handleCheckedOut u ev =
     andThen (GetInvoiceByReservation u (ch_ReservationID ev)) (\<lambda>i.
     andThen (CloseInvoice u (inv_ID i) (checkout_session ev)) (\<lambda>_. ret ()))"

definition decoded :: "(json \<Rightarrow> 'e option) \<Rightarrow> json option \<Rightarrow> ('e \<Rightarrow> ('w, goerror, unit) io) \<Rightarrow> ('w, goerror, unit) io" where
  "decoded dec body k = (case Option.bind body dec of None \<Rightarrow> ret () | Some ev \<Rightarrow> k ev)"

definition Handle :: "'w billingUsecase \<Rightarrow> string \<Rightarrow> json option \<Rightarrow> ('w, goerror, unit) io" where
  "Handle u routingKey body =
     (if routingKey = EvtReservationCreated then decoded decodeCreated body (handleCreated u)
      else if routingKey = EvtReservationCancelled then decoded decodeCancelled body (handleCancelled u)
      else if routingKey = EvtReservationExpired then decoded decodeExpired body (handleExpired u)
      else if routingKey = EvtReservationCheckedOut then decoded decodeCheckedOut body (handleCheckedOut u)
      else ret ())"

section \<open>The consuming loop\<close>

text \<open>
  What the two channels of the \<open>select\<close> offer, in the order the loop takes it: the end of the context, the
  end of the delivery channel, or a delivery. The loop's state pairs the world with the answers it has
  sent to the broker. A panic of the handler is not recovered: the process dies and the delivery stays
  unanswered.
\<close>

datatype channel_event = CtxDone | DeliveriesClosed | Deliver string "json option"

datatype answer = Ack | NackRequeue

type_synonym answers = "(string \<times> json option \<times> answer) list"

definition on_world :: "('w, 'e, 'a) io \<Rightarrow> ('w \<times> answers, 'e, 'a) io" where
  "on_world m s = (case m (fst s) of (r, w') \<Rightarrow> (r, (w', snd s)))"

definition answer :: "string \<Rightarrow> json option \<Rightarrow> answer \<Rightarrow> ('w \<times> answers, 'e, unit) io" where
  "answer k b a s = (Inr (), (fst s, snd s @ [(k, b, a)]))"

fun Consume :: "(string \<Rightarrow> json option \<Rightarrow> ('w, goerror, unit) io) \<Rightarrow> channel_event list \<Rightarrow>
    ('w \<times> answers, goerror, unit) io" where
  "Consume handler [] = ret ()"
| "Consume handler (CtxDone # es) = ret ()"
| "Consume handler (DeliveriesClosed # es) = throw (DriverError ''delivery channel closed'')"
| "Consume handler (Deliver k b # es) =
     attempt (on_world (handler k b)) (\<lambda>r. case r of
       Inl (GoPanic m) \<Rightarrow> throw (GoPanic m)
     | Inl _ \<Rightarrow> andThen (answer k b NackRequeue) (\<lambda>_. Consume handler es)
     | Inr _ \<Rightarrow> andThen (answer k b Ack) (\<lambda>_. Consume handler es))"

text \<open>\<open>started\<close> is what \<open>ch.Consume\<close> answers to the request for deliveries.\<close>

definition Subscriber_Consume :: "goerror + unit \<Rightarrow> (string \<Rightarrow> json option \<Rightarrow> ('w, goerror, unit) io) \<Rightarrow> channel_event list \<Rightarrow>
    ('w \<times> answers, goerror, unit) io" where
  "Subscriber_Consume started handler es =
     (case started of Inl err \<Rightarrow> throw (FmtWrap ''consume'' err) | Inr _ \<Rightarrow> Consume handler es)"

section \<open>How handlers move the ledger\<close>

text \<open>
  \<open>evolves b b'\<close>: every entry of \<open>b\<close> is still there with its reservation and its key, keeps its charges,
  and an entry that is no longer OPEN has not changed at all.
\<close>

definition evolves :: "ledger \<Rightarrow> ledger \<Rightarrow> bool" where
  "evolves b b' \<longleftrightarrow> (\<forall>iid e. b iid = Some e \<longrightarrow> (\<exists>e'. b' iid = Some e' \<and>
     e_reservation e' = e_reservation e \<and> e_key e' = e_key e \<and> e_charges e \<subseteq># e_charges e' \<and>
     (e_status e \<noteq> InvoiceOpen \<longrightarrow> e' = e)))"

lemma evolves_refl [simp, intro]: "evolves b b"
  by (simp add: evolves_def)

lemma evolvesD:
  assumes "evolves b b'" "b iid = Some e"
  obtains e' where "b' iid = Some e'" "e_reservation e' = e_reservation e" "e_key e' = e_key e"
    "e_charges e \<subseteq># e_charges e'" "e_status e \<noteq> InvoiceOpen \<longrightarrow> e' = e"
  using assms unfolding evolves_def by blast

lemma evolves_trans:
  assumes "evolves a b" "evolves b c"
  shows "evolves a c"
  unfolding evolves_def
proof (intro allI impI)
  fix iid e
  assume "a iid = Some e"
  then obtain e1 where 1: "b iid = Some e1" "e_reservation e1 = e_reservation e" "e_key e1 = e_key e"
    "e_charges e \<subseteq># e_charges e1" "e_status e \<noteq> InvoiceOpen \<longrightarrow> e1 = e" by (rule evolvesD [OF assms(1)])
  obtain e2 where 2: "c iid = Some e2" "e_reservation e2 = e_reservation e1" "e_key e2 = e_key e1"
    "e_charges e1 \<subseteq># e_charges e2" "e_status e1 \<noteq> InvoiceOpen \<longrightarrow> e2 = e1" by (rule evolvesD [OF assms(2) 1(1)])
  show "\<exists>e'. c iid = Some e' \<and> e_reservation e' = e_reservation e \<and> e_key e' = e_key e \<and>
      e_charges e \<subseteq># e_charges e' \<and> (e_status e \<noteq> InvoiceOpen \<longrightarrow> e' = e)"
    using 1 2 subset_mset.order_trans [OF 1(4) 2(4)] by (intro exI [of _ e2]) auto
qed

lemma evolves_new: "b iid = None \<Longrightarrow> evolves b (b(iid \<mapsto> e))"
  by (auto simp: evolves_def)

lemma evolves_upd:
  assumes "b iid = Some e" "e_status e = InvoiceOpen" "e_reservation e' = e_reservation e"
    "e_key e' = e_key e" "e_charges e \<subseteq># e_charges e'"
  shows "evolves b (b(iid \<mapsto> e'))"
  using assms by (auto simp: evolves_def)

lemma charges_grow [simp]:
  "e_charges e \<subseteq># e_charges (charged ls e)" "e_charges e \<subseteq># e_charges (closed_entry now ls e)"
  by (simp_all add: charged_def closed_entry_def)

text \<open>A fee event: nothing, or one fee of its kind on the OPEN invoice of the reservation, which had none.\<close>

definition fee_move :: "MLineKind \<Rightarrow> string \<Rightarrow> ledger \<Rightarrow> ledger \<Rightarrow> bool" where
  "fee_move k res b b' \<longleftrightarrow> (\<exists>iid e a reason. b iid = Some e \<and> e_reservation e = res \<and>
     e_status e = InvoiceOpen \<and> k \<notin> fst ` set_mset (e_charges e) \<and>
     b' = b(iid \<mapsto> charged [fee_line k a reason] e))"

text \<open>What a message asks for, as a property of the ledger that has it.\<close>

definition has_key :: "string \<Rightarrow> ledger \<Rightarrow> bool" where
  "has_key x b \<longleftrightarrow> (\<exists>e \<in> ran b. e_key e = x)"

definition has_closed :: "string \<Rightarrow> ledger \<Rightarrow> bool" where
  "has_closed res b \<longleftrightarrow> (\<exists>e \<in> ran b. e_reservation e = res \<and> e_status e \<noteq> InvoiceOpen)"

definition has_fee :: "MLineKind \<Rightarrow> string \<Rightarrow> ledger \<Rightarrow> bool" where
  "has_fee k res b \<longleftrightarrow> (\<exists>e \<in> ran b. e_reservation e = res \<and> k \<in> fst ` set_mset (e_charges e))"

definition decodes :: "(json \<Rightarrow> 'e option) \<Rightarrow> json option \<Rightarrow> ('e \<Rightarrow> bool) \<Rightarrow> bool" where
  "decodes dec body P = (case Option.bind body dec of None \<Rightarrow> False | Some ev \<Rightarrow> P ev)"

definition effect_of :: "string \<Rightarrow> json option \<Rightarrow> ledger \<Rightarrow> bool" where
  "effect_of k body b \<longleftrightarrow>
     (if k = EvtReservationCreated
      then decodes decodeCreated body (\<lambda>ev. has_key (cr_ReservationID ev) b)
      else if k = EvtReservationCancelled
      then decodes decodeCancelled body (\<lambda>ev. has_fee MLineCancellation (ca_ReservationID ev) b)
      else if k = EvtReservationExpired
      then decodes decodeExpired body (\<lambda>ev. has_fee MLineNoShow (ex_ReservationID ev) b)
      else if k = EvtReservationCheckedOut
      then decodes decodeCheckedOut body (\<lambda>ev. has_closed (ch_ReservationID ev) b)
      else False)"

text \<open>The messages whose effect an acknowledgement promises.\<close>

definition promises :: "string \<Rightarrow> json option \<Rightarrow> bool" where
  "promises k body \<longleftrightarrow>
     (k = EvtReservationCreated \<and> decodes decodeCreated body (\<lambda>ev. cr_ReservationID ev \<noteq> [])) \<or>
     (k = EvtReservationCheckedOut \<and> decodes decodeCheckedOut body (\<lambda>_. True))"

text \<open>
  What an acknowledgement promises, when the run began with the ledger \<open>b0\<close>: a created reservation has the
  invoice under its key, unless that key was on the invoice of another reservation already; a checked-out one
  has an invoice that is no longer OPEN.
\<close>

definition kept :: "ledger \<Rightarrow> string \<Rightarrow> json option \<Rightarrow> ledger \<Rightarrow> bool" where
  "kept b0 k body b \<longleftrightarrow>
     (k = EvtReservationCreated \<longrightarrow> decodes decodeCreated body (\<lambda>ev.
        \<exists>e \<in> ran b. e_key e = cr_ReservationID ev \<and> (e_reservation e = cr_ReservationID ev \<or>
          (\<exists>f \<in> ran b0. e_key f = cr_ReservationID ev \<and> e_reservation f = e_reservation e)))) \<and>
     (k = EvtReservationCheckedOut \<longrightarrow> decodes decodeCheckedOut body (\<lambda>ev.
        \<exists>e \<in> ran b. e_reservation e = ch_ReservationID ev \<and> e_status e \<noteq> InvoiceOpen))"

text \<open>The messages the handler drops: of another kind, not decodable, or a created event without reservation.\<close>

definition dropped :: "string \<Rightarrow> json option \<Rightarrow> bool" where
  "dropped k body \<longleftrightarrow>
     (if k = EvtReservationCreated then \<not> decodes decodeCreated body (\<lambda>ev. cr_ReservationID ev \<noteq> [])
      else if k = EvtReservationCancelled then Option.bind body decodeCancelled = None
      else if k = EvtReservationExpired then Option.bind body decodeExpired = None
      else if k = EvtReservationCheckedOut then Option.bind body decodeCheckedOut = None
      else True)"

lemma Handle_dropped: "dropped k body \<Longrightarrow> Handle u k body = ret ()"
  by (auto simp: dropped_def Handle_def decoded_def decodes_def handleCreated_def split: if_splits option.splits)

text \<open>Keys of new invoices are their reservations.\<close>

definition keyed_like :: "ledger \<Rightarrow> ledger \<Rightarrow> bool" where
  "keyed_like b0 b \<longleftrightarrow> (\<forall>e \<in> ran b. e_key e = e_reservation e \<or>
     (\<exists>f \<in> ran b0. e_key f = e_key e \<and> e_reservation f = e_reservation e))"

lemma keyed_like_refl [simp]: "keyed_like b b"
  by (auto simp: keyed_like_def)

lemma keyed_like_upd:
  assumes "keyed_like b0 b" "b iid = Some e" "e_key e' = e_key e" "e_reservation e' = e_reservation e"
  shows "keyed_like b0 (b(iid \<mapsto> e'))"
proof -
  have "e \<in> ran b" using assms(2) by (auto simp: ran_def)
  then have "e_key e = e_reservation e \<or> (\<exists>f \<in> ran b0. e_key f = e_key e \<and> e_reservation f = e_reservation e)"
    using assms(1) by (auto simp: keyed_like_def)
  moreover have "g = e' \<or> g \<in> ran b" if "g \<in> ran (b(iid \<mapsto> e'))" for g
    using that by (auto simp: ran_def split: if_splits)
  ultimately show ?thesis using assms(1,3,4) unfolding keyed_like_def by metis
qed

lemma keyed_like_new:
  "keyed_like b0 b \<Longrightarrow> e_key e = e_reservation e \<Longrightarrow> keyed_like b0 (b(iid \<mapsto> e))"
  unfolding keyed_like_def ran_def by (auto split: if_splits)

lemma effect_kept:
  assumes "promises k body" "effect_of k body b" "keyed_like b0 b"
  shows "kept b0 k body b"
proof (cases "k = EvtReservationCreated")
  case True
  then obtain ev where ev: "Option.bind body decodeCreated = Some ev" "has_key (cr_ReservationID ev) b"
    using assms(1,2) by (auto simp: promises_def effect_of_def decodes_def event_names split: option.splits)
  then obtain e where "e \<in> ran b" "e_key e = cr_ReservationID ev" by (auto simp: has_key_def)
  then have "\<exists>e \<in> ran b. e_key e = cr_ReservationID ev \<and> (e_reservation e = cr_ReservationID ev \<or>
          (\<exists>f \<in> ran b0. e_key f = cr_ReservationID ev \<and> e_reservation f = e_reservation e))"
    using assms(3) unfolding keyed_like_def by metis
  then show ?thesis using True ev(1) by (simp add: kept_def decodes_def event_names)
next
  case False
  then show ?thesis using assms(1,2)
    by (auto simp: promises_def kept_def effect_of_def decodes_def has_closed_def event_names split: option.splits)
qed

lemma key_persists: "evolves b b' \<Longrightarrow> has_key x b \<Longrightarrow> has_key x b'"
  by (auto simp: has_key_def ran_def elim!: evolvesD)

lemma fee_persists: "evolves b b' \<Longrightarrow> has_fee k res b \<Longrightarrow> has_fee k res b'"
  unfolding has_fee_def ran_def by (auto elim!: evolvesD dest: mset_subset_eqD)

lemma closed_persists: "evolves b b' \<Longrightarrow> has_closed x b \<Longrightarrow> has_closed x b'"
  by (auto simp: has_closed_def ran_def elim!: evolvesD)

lemma decodes_mono: "decodes dec body P \<Longrightarrow> (\<And>ev. P ev \<Longrightarrow> Q ev) \<Longrightarrow> decodes dec body Q"
  by (auto simp: decodes_def split: option.splits)

lemma effect_persists:
  assumes "evolves b b'" "effect_of k body b"
  shows "effect_of k body b'"
  using assms(2) key_persists [OF assms(1)] fee_persists [OF assms(1)] closed_persists [OF assms(1)]
  unfolding effect_of_def by (auto split: if_splits elim!: decodes_mono)

text \<open>
  One handling of a message with effect \<open>E\<close>: it moves the ledger by an evolution, a change of the ledger
  is the effect, which was not there before, and success of a promising message leaves the effect there.
\<close>

definition sound_step :: "(ledger \<Rightarrow> bool) \<Rightarrow> bool \<Rightarrow> ledger \<Rightarrow> goerror + unit \<Rightarrow> ledger \<Rightarrow> bool" where
  "sound_step E p b r b' \<longleftrightarrow> evolves b b' \<and> (b' = b \<or> E b' \<and> \<not> E b) \<and> (p \<and> r = Inr () \<longrightarrow> E b')"

lemma sound_stay: "\<not> (p \<and> r = Inr ()) \<or> E b \<Longrightarrow> sound_step E p b r b"
  by (auto simp: sound_step_def)

section \<open>Handlers over the contract of the usecase\<close>

text \<open>
  What the redelivery argument needs beyond the contract of the repository: an invoice has at most one
  charge of a one-off kind.
\<close>

locale event_billing = default_billing u ok book clock
  for u :: "'w billingUsecase" and ok :: "'w \<Rightarrow> bool" and book :: "'w \<Rightarrow> ledger" and clock :: "'w \<Rightarrow> Time" +
  assumes one_off_once: "ok w \<Longrightarrow> book w i = Some e \<Longrightarrow> one_off k \<Longrightarrow>
      size (filter_mset (\<lambda>c. fst c = k) (e_charges e)) \<le> 1"
begin

lemma created_step:
  assumes "ok w" "handleCreated u ev w = (r, w')"
  shows "ok w' \<and> evolves (book w) (book w') \<and>
    (book w' = book w \<and> (r = Inr () \<longrightarrow> cr_ReservationID ev = [] \<or> has_key (cr_ReservationID ev) (book w)) \<or>
     (\<exists>iid. book w iid = None \<and> \<not> has_key (cr_ReservationID ev) (book w) \<and>
        book w' = (book w)(iid \<mapsto>
          new_entry (cr_ReservationID ev) (cr_DriverID ev) (cr_ReservationID ev) (BookingFeeIDR (uc_cfg u)))))"
proof (cases "cr_ReservationID ev = []")
  case True
  then show ?thesis using assms by (auto simp: handleCreated_def)
next
  case False
  obtain q where q: "OpenInvoice u (cr_ReservationID ev) (cr_DriverID ev) (cr_ReservationID ev) w = (q, w')"
    and r: "r = Inr () \<Longrightarrow> \<exists>x. q = Inr x"
    using assms(2) False by (auto simp: handleCreated_def andThen_def split: prod.splits sum.splits)
  from OpenInvoice_ledger [OF assms(1) q] show ?thesis
  proof (elim conjE disjE exE)
    assume *: "ok w'" "book w' = book w" "\<forall>x. q = Inr x \<longrightarrow> book w (inv_ID x) = Some (entry_of x) \<and>
        inv_IdempotencyKey x = cr_ReservationID ev"
    have "has_key (cr_ReservationID ev) (book w)" if h: "r = Inr ()"
    proof -
      obtain x where "q = Inr x" using r [OF h] by blast
      then have "entry_of x \<in> ran (book w)" "e_key (entry_of x) = cr_ReservationID ev"
        using *(3) by (auto simp: ran_def)
      then show ?thesis unfolding has_key_def by blast
    qed
    then show ?thesis using * by auto
  next
    fix iid
    assume *: "ok w'" "book w iid = None" "\<forall>e \<in> ran (book w). e_reservation e \<noteq> cr_ReservationID ev \<and> e_key e \<noteq> cr_ReservationID ev"
      "book w' = (book w)(iid \<mapsto> new_entry (cr_ReservationID ev) (cr_DriverID ev) (cr_ReservationID ev) (BookingFeeIDR (uc_cfg u)))"
    then show ?thesis using evolves_new [where b = "book w", OF *(2)] by (auto simp: has_key_def)
  qed
qed

lemma fee_evolves:
  assumes "book w iid = Some e" "e_status e = InvoiceOpen" "book w' = (book w)(iid \<mapsto> charged ls e)"
  shows "evolves (book w) (book w')"
  unfolding assms(3) by (rule evolves_upd [where b = "book w", OF assms(1,2)]) simp_all

lemma fee_step:
  assumes "ok w'" "book w iid = Some e" "one_off k"
    "book w' = (book w)(iid \<mapsto> charged [fee_line k a reason] e)"
  shows "k \<notin> fst ` set_mset (e_charges e)"
proof
  assume "k \<in> fst ` set_mset (e_charges e)"
  then obtain x where "x \<in># filter_mset (\<lambda>c. fst c = k) (e_charges e)" by auto
  then have "filter_mset (\<lambda>c. fst c = k) (e_charges e) \<noteq> {#}" by (metis empty_iff set_mset_empty)
  then have "size (filter_mset (\<lambda>c. fst c = k) (e_charges e)) \<noteq> 0" by simp
  moreover have "size (filter_mset (\<lambda>c. fst c = k) (e_charges (charged [fee_line k a reason] e))) =
      Suc (size (filter_mset (\<lambda>c. fst c = k) (e_charges e)))"
    by (simp add: charged_def charge_def fee_line_def)
  moreover have "book w' iid = Some (charged [fee_line k a reason] e)" using assms(4) by simp
  ultimately show False using one_off_once [OF assms(1) _ assms(3)] by fastforce
qed

lemma fee_moveI:
  assumes "ok w'" "one_off k" "book w iid = Some e" "e_reservation e = res" "e_status e = InvoiceOpen"
    "book w' = (book w)(iid \<mapsto> charged [fee_line k a reason] e)"
  shows "fee_move k res (book w) (book w')"
  using fee_step [OF assms(1,3,2,6)] assms(3-6) unfolding fee_move_def by blast

lemma cancelled_step:
  assumes "ok w" "handleCancelled u ev w = (r, w')"
  shows "ok w' \<and> (book w' = book w \<or> fee_move MLineCancellation (ca_ReservationID ev) (book w) (book w'))"
proof -
  obtain c where run: "ApplyCancelFee u (ca_ReservationID ev) (ca_ConfirmedAt ev) c w = (r, w')"
    using assms(2) by (auto simp: handleCancelled_def Let_def)
  have o1: "one_off MLineCancellation" by (simp add: one_off_def)
  from ApplyCancelFee_ledger [OF assms(1) run] show ?thesis using fee_moveI [OF _ o1] by blast
qed

lemma expired_step:
  assumes "ok w" "handleExpired u ev w = (r, w')"
  shows "ok w' \<and> (book w' = book w \<or> fee_move MLineNoShow (ex_ReservationID ev) (book w) (book w'))"
proof -
  have o1: "one_off MLineNoShow" by (simp add: one_off_def)
  from ApplyNoShowFee_ledger [OF assms(1) assms(2) [unfolded handleExpired_def]] show ?thesis
    using fee_moveI [OF _ o1] by blast
qed

lemma checked_out_step:
  assumes "ok w" "handleCheckedOut u ev w = (r, w')"
  shows "ok w' \<and>
    (book w' = book w \<and> (r = Inr () \<longrightarrow> has_closed (ch_ReservationID ev) (book w)) \<or>
     (\<exists>iid e e'. book w iid = Some e \<and> e_status e = InvoiceOpen \<and> e_reservation e = ch_ReservationID ev \<and>
        e_status e' = InvoiceClosed \<and> e_reservation e' = e_reservation e \<and> e_key e' = e_key e \<and>
        e_charges e \<subseteq># e_charges e' \<and> book w' = (book w)(iid \<mapsto> e')))"
proof -
  obtain g w1 where g: "ir_GetByReservationID (uc_repo u) (ch_ReservationID ev) w = (g, w1)" by fastforce
  note law = GetByReservation_law [OF assms(1) g]
  show ?thesis
  proof (cases g)
    case (Inl e)
    then show ?thesis using law g assms(2) by (auto simp: handleCheckedOut_def GetInvoiceByReservation_def)
  next
    case (Inr i)
    have w1: "ok w1" "book w1 = book w" "book w (inv_ID i) = Some (entry_of i)" "inv_ReservationID i = ch_ReservationID ev"
      using law Inr by auto
    obtain q where q: "CloseInvoice u (inv_ID i) (checkout_session ev) w1 = (q, w')" and r: "r = Inr () \<longrightarrow> (\<exists>x. q = Inr x)"
      using g Inr assms(2)
      by (auto simp: handleCheckedOut_def GetInvoiceByReservation_def andThen_def split: prod.splits sum.splits)
    from CloseInvoice_ledger [OF w1(1) q] show ?thesis
    proof (elim conjE disjE exE)
      assume *: "ok w'" "book w' = book w1" "\<forall>x. q = Inr x \<longrightarrow> inv_ID x = inv_ID i \<and>
          book w1 (inv_ID i) = Some (entry_of x) \<and> inv_Status x \<noteq> InvoiceOpen"
      have "inv_Status i \<noteq> InvoiceOpen" if h: "r = Inr ()"
      proof -
        obtain x where "q = Inr x" using r h by blast
        then have "entry_of x = entry_of i" "inv_Status x \<noteq> InvoiceOpen" using *(3) w1(2,3) by auto
        then show ?thesis by (metis entry_of_sel(1))
      qed
      then have "r = Inr () \<longrightarrow> has_closed (ch_ReservationID ev) (book w)"
        using w1(3,4) by (force simp: has_closed_def ran_def)
      then show ?thesis using * w1(2) by simp
    next
      fix e ls
      assume *: "ok w'" "book w1 (inv_ID i) = Some e" "e_status e = InvoiceOpen"
        "book w' = (book w1)(inv_ID i \<mapsto> closed_entry (clock w1) (dbLines ls) e)"
      have "e_reservation e = ch_ReservationID ev" using * w1 by auto
      then show ?thesis using * w1(2)
        by (intro conjI disjI2 exI [of _ "inv_ID i"] exI [of _ e] exI [of _ "closed_entry (clock w1) (dbLines ls) e"])
          simp_all
    qed
  qed
qed

lemma fee_move_facts:
  assumes "ok w" "fee_move k res (book w) b'"
  shows "evolves (book w) b' \<and> has_fee k res b' \<and> \<not> has_fee k res (book w)"
proof -
  obtain iid e a reason where *: "book w iid = Some e" "e_reservation e = res" "e_status e = InvoiceOpen"
    "k \<notin> fst ` set_mset (e_charges e)" "b' = (book w)(iid \<mapsto> charged [fee_line k a reason] e)"
    using assms(2) unfolding fee_move_def by blast
  have "evolves (book w) b'" unfolding *(5) by (rule evolves_upd [where b = "book w", OF *(1,3)]) simp_all
  moreover have "has_fee k res b'" unfolding has_fee_def *(5)
    using charged_fee_sel [of k a reason e] *(2) by (intro bexI [of _ "charged [fee_line k a reason] e"]) (auto simp: ran_def)
  moreover have "\<not> has_fee k res (book w)"
  proof
    assume "has_fee k res (book w)"
    then obtain j f where f: "book w j = Some f" "e_reservation f = res" "k \<in> fst ` set_mset (e_charges f)"
      by (auto simp: has_fee_def ran_def)
    then have "j = iid" using one_per_reservation [OF assms(1) f(1) *(1)] *(2) by simp
    then show False using f(1,3) *(1,4) by simp
  qed
  ultimately show ?thesis by blast
qed

lemma handleCreated_sound:
  assumes "ok w" "handleCreated u ev w = (r, w')"
  shows "ok w' \<and> sound_step (has_key (cr_ReservationID ev)) (cr_ReservationID ev \<noteq> []) (book w) r (book w')"
proof -
  have "has_key (cr_ReservationID ev) ((book w)(iid \<mapsto> new_entry x y (cr_ReservationID ev) z))" for iid x y z
    by (auto simp: has_key_def ran_def)
  with created_step [OF assms] show ?thesis by (auto simp: sound_step_def)
qed

lemma fee_sound:
  assumes "ok w" "ok w' \<and> (book w' = book w \<or> fee_move k res (book w) (book w'))"
  shows "ok w' \<and> sound_step (has_fee k res) False (book w) r (book w')"
  using assms(2) fee_move_facts [OF assms(1), of k res "book w'"] by (auto simp: sound_step_def)

lemma handleCheckedOut_sound:
  assumes "ok w" "handleCheckedOut u ev w = (r, w')"
  shows "ok w' \<and> sound_step (has_closed (ch_ReservationID ev)) True (book w) r (book w')"
  using checked_out_step [OF assms]
proof (elim conjE disjE exE)
  assume "ok w'" "book w' = book w" "r = Inr () \<longrightarrow> has_closed (ch_ReservationID ev) (book w)"
  then show ?thesis by (auto simp: sound_step_def)
next
  fix iid e e'
  assume *: "ok w'" "book w iid = Some e" "e_status e = InvoiceOpen" "e_reservation e = ch_ReservationID ev"
    "e_status e' = InvoiceClosed" "e_reservation e' = e_reservation e" "e_key e' = e_key e"
    "e_charges e \<subseteq># e_charges e'" "book w' = (book w)(iid \<mapsto> e')"
  have "evolves (book w) (book w')" unfolding *(9)
    by (rule evolves_upd [where b = "book w", OF *(2,3,6,7,8)])
  moreover have "has_closed (ch_ReservationID ev) (book w')"
    unfolding has_closed_def *(9) using *(4-6) by (intro bexI [of _ e']) (auto simp: ran_def)
  moreover have "\<not> has_closed (ch_ReservationID ev) (book w)"
  proof
    assume "has_closed (ch_ReservationID ev) (book w)"
    then obtain j f where f: "book w j = Some f" "e_reservation f = ch_ReservationID ev" "e_status f \<noteq> InvoiceOpen"
      by (auto simp: has_closed_def ran_def)
    then have "j = iid" using one_per_reservation [OF assms(1) f(1) *(2)] *(4) by simp
    then show False using f(1,3) *(2,3) by simp
  qed
  ultimately show ?thesis using *(1) by (simp add: sound_step_def)
qed

lemma decoded_sound:
  assumes "ok w" "decoded dec body k w = (r, w')"
    and "\<And>ev. Option.bind body dec = Some ev \<Longrightarrow> k ev w = (r, w') \<Longrightarrow> ok w' \<and> sound_step (E ev) (p ev) (book w) r (book w')"
  shows "ok w' \<and> sound_step (\<lambda>b. decodes dec body (\<lambda>ev. E ev b)) (decodes dec body p) (book w) r (book w')"
proof (cases "Option.bind body dec")
  case None
  then show ?thesis using assms(1,2) by (auto simp: decoded_def decodes_def sound_step_def)
next
  case (Some ev)
  then show ?thesis using assms(3) [OF Some] assms(2) by (auto simp: decoded_def decodes_def)
qed

lemma Handle_sound:
  assumes "ok w" "Handle u k body w = (r, w')"
  shows "ok w' \<and> sound_step (effect_of k body) (promises k body) (book w) r (book w')"
proof -
  note keys = EvtReservationCreated_def EvtReservationCancelled_def EvtReservationExpired_def EvtReservationCheckedOut_def
  note run = assms(2) [unfolded Handle_def]
  consider (created) "k = EvtReservationCreated" | (cancelled) "k = EvtReservationCancelled"
    | (expired) "k = EvtReservationExpired" | (checked_out) "k = EvtReservationCheckedOut"
    | (other) "k \<notin> {EvtReservationCreated, EvtReservationCancelled, EvtReservationExpired, EvtReservationCheckedOut}"
    by blast
  then show ?thesis
  proof cases
    case created
    then have E: "effect_of k body = (\<lambda>b. decodes decodeCreated body (\<lambda>ev. has_key (cr_ReservationID ev) b))"
      and p: "promises k body = decodes decodeCreated body (\<lambda>ev. cr_ReservationID ev \<noteq> [])" and d: "decoded decodeCreated body (handleCreated u) w = (r, w')"
      using run by (simp_all add: fun_eq_iff effect_of_def promises_def keys decodes_def split: option.split)
    show ?thesis unfolding E p by (rule decoded_sound [OF assms(1) d]) (rule handleCreated_sound [OF assms(1)])
  next
    case cancelled
    then have E: "effect_of k body = (\<lambda>b. decodes decodeCancelled body (\<lambda>ev. has_fee MLineCancellation (ca_ReservationID ev) b))"
      and p: "promises k body = decodes decodeCancelled body (\<lambda>ev. False)" and d: "decoded decodeCancelled body (handleCancelled u) w = (r, w')"
      using run by (simp_all add: fun_eq_iff effect_of_def promises_def keys decodes_def split: option.split)
    show ?thesis unfolding E p by (rule decoded_sound [OF assms(1) d]) (rule fee_sound [OF assms(1) cancelled_step [OF assms(1)]])
  next
    case expired
    then have E: "effect_of k body = (\<lambda>b. decodes decodeExpired body (\<lambda>ev. has_fee MLineNoShow (ex_ReservationID ev) b))"
      and p: "promises k body = decodes decodeExpired body (\<lambda>ev. False)" and d: "decoded decodeExpired body (handleExpired u) w = (r, w')"
      using run by (simp_all add: fun_eq_iff effect_of_def promises_def keys decodes_def split: option.split)
    show ?thesis unfolding E p by (rule decoded_sound [OF assms(1) d]) (rule fee_sound [OF assms(1) expired_step [OF assms(1)]])
  next
    case checked_out
    then have E: "effect_of k body = (\<lambda>b. decodes decodeCheckedOut body (\<lambda>ev. has_closed (ch_ReservationID ev) b))"
      and p: "promises k body = decodes decodeCheckedOut body (\<lambda>ev. True)" and d: "decoded decodeCheckedOut body (handleCheckedOut u) w = (r, w')"
      using run by (simp_all add: fun_eq_iff effect_of_def promises_def keys decodes_def split: option.split)
    show ?thesis unfolding E p by (rule decoded_sound [OF assms(1) d]) (rule handleCheckedOut_sound [OF assms(1)])
  next
    case other
    then have "\<not> promises k body" "Handle u k body = ret ()"
      by (auto simp: promises_def Handle_def)
    then show ?thesis using assms by (auto simp: sound_step_def)
  qed
qed

lemma Handle_keyed:
  assumes "ok w" "Handle u k body w = (r, w')" "keyed_like b0 (book w)"
  shows "keyed_like b0 (book w')"
proof -
  have fee: "keyed_like b0 (book w')" if "book w' = book w \<or> fee_move j res (book w) (book w')" for j res
    using that assms(3) by (auto simp: fee_move_def intro!: keyed_like_upd [where b = "book w"])
  show ?thesis
  proof (cases "dropped k body")
    case True
    then show ?thesis using assms Handle_dropped [of k body u] by simp
  next
    case False
    then consider (created) ev where "handleCreated u ev w = (r, w')" | (cancelled) ev where "handleCancelled u ev w = (r, w')"
      | (expired) ev where "handleExpired u ev w = (r, w')" | (checked_out) ev where "handleCheckedOut u ev w = (r, w')"
      using assms(2) unfolding dropped_def Handle_def decoded_def decodes_def by (auto split: if_splits option.splits)
    then show ?thesis
    proof cases
      case created
      then show ?thesis using created_step [OF assms(1) created] assms(3)
        by (auto intro!: keyed_like_new [where b = "book w"] simp: new_entry_def)
    next
      case cancelled
      then show ?thesis using cancelled_step [OF assms(1) cancelled] fee by blast
    next
      case expired
      then show ?thesis using expired_step [OF assms(1) expired] fee by blast
    next
      case checked_out
      then show ?thesis using checked_out_step [OF assms(1) checked_out] assms(3)
        by (auto intro!: keyed_like_upd [where b = "book w"])
    qed
  qed
qed

lemma Consume_keyed:
  assumes "ok (fst s)" "Consume (Handle u) es s = (r, s')" "keyed_like b0 (book (fst s))"
  shows "keyed_like b0 (book (fst s'))"
  using assms
proof (induction es arbitrary: s)
  case (Cons x es)
  show ?case
  proof (cases x)
    case (Deliver k b)
    obtain q w1 where q: "Handle u k b (fst s) = (q, w1)" by fastforce
    have w1: "ok w1" "keyed_like b0 (book w1)"
      using Handle_sound [OF Cons.prems(1) q] Handle_keyed [OF Cons.prems(1) q Cons.prems(3)] by auto
    have go: ?thesis if "Consume (Handle u) es (w1, as) = (r, s')" for as
      using Cons.IH [OF _ that] w1 by simp
    show ?thesis using Cons.prems(2) [unfolded Deliver] q w1 go
      by (auto simp: attempt_def on_world_def andThen_def answer_def split: sum.splits goerror.splits)
  qed (use Cons.prems in auto)
qed auto

lemma Consume_sound:
  assumes "ok (fst s)" "Consume (Handle u) es s = (r, s')"
  shows "ok (fst s') \<and> evolves (book (fst s)) (book (fst s')) \<and>
    (\<exists>as. snd s' = snd s @ as \<and>
       (\<forall>k b. (k, b, Ack) \<in> set as \<longrightarrow> promises k b \<longrightarrow> effect_of k b (book (fst s'))))"
  using assms
proof (induction es arbitrary: s)
  case (Cons x es)
  show ?case
  proof (cases x)
    case (Deliver k b)
    obtain q w1 where q: "Handle u k b (fst s) = (q, w1)" by fastforce
    have w1: "ok w1" "evolves (book (fst s)) (book w1)" "promises k b \<Longrightarrow> q = Inr () \<Longrightarrow> effect_of k b (book w1)"
      using Handle_sound [OF Cons.prems(1) q] by (auto simp: sound_step_def)
    have go: ?thesis if h: "Consume (Handle u) es (w1, snd s @ [(k, b, a)]) = (r, s')" "a = Ack \<Longrightarrow> q = Inr ()" for a
    proof -
      obtain as where as: "ok (fst s')" "evolves (book w1) (book (fst s'))" "snd s' = (snd s @ [(k, b, a)]) @ as"
        "\<forall>k b. (k, b, Ack) \<in> set as \<longrightarrow> promises k b \<longrightarrow> effect_of k b (book (fst s'))"
        using Cons.IH [OF _ h(1)] w1(1) by auto
      have "effect_of k b (book (fst s'))" if h': "a = Ack" "promises k b"
        using effect_persists [OF as(2) w1(3) [OF h'(2) h(2) [OF h'(1)]]] .
      then show ?thesis using as evolves_trans [OF w1(2) as(2)]
        by (intro conjI exI [of _ "(k, b, a) # as"]) auto
    qed
    note run = Cons.prems(2) [unfolded Deliver]
    show ?thesis
    proof (cases "\<exists>m. q = Inl (GoPanic m)")
      case True
      then show ?thesis using run q w1(1,2) by (auto simp: attempt_def on_world_def)
    next
      case False
      define a where "a = (case q of Inl _ \<Rightarrow> NackRequeue | Inr _ \<Rightarrow> Ack)"
      have "Consume (Handle u) es (w1, snd s @ [(k, b, a)]) = (r, s')"
        using run q False
        by (auto simp: a_def attempt_def on_world_def andThen_def answer_def split: sum.splits goerror.splits)
      moreover have "a = Ack \<Longrightarrow> q = Inr ()" by (simp add: a_def split: sum.splits)
      ultimately show ?thesis by (rule go)
    qed
  qed (use Cons.prems in auto)
qed auto

end

section \<open>The consumer of the program\<close>

lemma pg_one_off:
  assumes "pg_ok w" "pg_book w i = Some e" "one_off k"
  shows "size (filter_mset (\<lambda>c. fst c = k) (e_charges e)) \<le> 1"
proof -
  obtain r where r: "e = entry_of (invoice_of (w_tables w) r)"
    using assms(2) by (auto simp: pg_book_def view_Some)
  let ?ls = "filter (\<lambda>l. ln_kind l = k) (lines_of (w_tables w) (iv_id r))"
  have "size (filter_mset (\<lambda>c. fst c = k) (e_charges e)) = length ?ls"
    unfolding r entry_of_invoice_of by (simp add: filter_mset_image_mset comp_def flip: mset_filter size_mset)
  moreover have "length ?ls \<le> 1"
  proof (cases ?ls)
    case (Cons l ls)
    then have "l \<in> set ?ls" by simp
    then have l: "l \<in> set (t_invoice_line (w_tables w))" "ln_kind l = k" "ln_invoice_id l = iv_id r"
      by (auto simp: lines_of_def)
    have "one_off_ok (t_invoice_line (w_tables w))" using assms(1) by (simp add: pg_ok_def books_ok_def lines_ok_def)
    then show ?thesis using l assms(3) unfolding one_off_ok_def lines_of_def filter_filter by force
  qed simp
  ultimately show ?thesis by simp
qed

interpretation ev: event_billing "main_usecase c tzdb" pg_ok pg_book w_now for c tzdb
  by (intro event_billing.intro event_billing_axioms.intro)
    (use svc.default_billing_axioms pg_one_off in \<open>simp_all\<close>)

section \<open>Properties\<close>

text \<open>
  C10: a delivery has its effect at most once. When handling a message changed the ledger (whatever
  \<open>Handle\<close> returned: the answer of the database may have been lost after the commit), handling the same
  message again never changes the ledger, at any later time, after any other activity that let the ledger
  evolve, and under any failures.
\<close>

theorem Handle_effect_once:
  assumes "pg_ok w" and "Handle (main_usecase c tzdb) k body w = (r, w')" and "pg_book w' \<noteq> pg_book w"
    and "pg_ok v" and "evolves (pg_book w') (pg_book v)" and "Handle (main_usecase c tzdb) k body v = (q, v')"
  shows "pg_book v' = pg_book v"
proof -
  have "effect_of k body (pg_book w')" using ev.Handle_sound [OF assms(1,2)] assms(3) by (simp add: sound_step_def)
  then have "effect_of k body (pg_book v)" by (rule effect_persists [OF assms(5)])
  then show ?thesis using ev.Handle_sound [OF assms(4,6)] by (auto simp: sound_step_def)
qed

definition created_body :: json where
  "created_body = JObj [(''reservation_id'', JStr reservation_1), (''driver_id'', JStr ''d'')]"

lemma decode_created_body: "decodeCreated created_body = Some \<lparr>cr_ReservationID = reservation_1, cr_DriverID = ''d''\<rparr>"
  by (simp add: decodeCreated_def created_body_def object_of_def as_string_def)

lemma sample_created:
  "\<exists>x w1. Handle (main_usecase envDefault None) EvtReservationCreated (Some created_body)
       (init_world (\<lambda>_. None) (\<lambda>_. None) 7) = (Inr (), w1) \<and> pg_book w1 = [inv_ID x \<mapsto> entry_of x]"
proof -
  let ?w = "init_world (\<lambda>_. None) (\<lambda>_. None) 7"
  let ?p = "opened_payload (pricingCfg envDefault) reservation_1 ''d'' reservation_1"
  have e: "pg_book ?w = Map.empty" by simp
  obtain x w1 where x: "invoiceRepo_Open reservation_1 ''d'' reservation_1 5000 (Some ?p) ?w = (Inr x, w1)"
    "pg_book w1 = (pg_book ?w)(inv_ID x \<mapsto> entry_of x)"
    using Open_quiet [of ?w reservation_1 reservation_1 "''d''" 5000 ?p] by auto
  then show ?thesis
    by (intro exI [of _ x] exI [of _ w1]) (simp add: Handle_def decoded_def decode_created_body handleCreated_def OpenInvoice_def trimmed
        NewInvoiceRepository_def andThen_def envDefault_def)
qed

theorem Handle_effect_once_witness:
  "\<exists>w1 w2. Handle (main_usecase envDefault None) EvtReservationCreated (Some created_body)
       (init_world (\<lambda>_. None) (\<lambda>_. None) 7) = (Inr (), w1) \<and> pg_book w1 \<noteq> Map.empty \<and>
     snd (Handle (main_usecase envDefault None) EvtReservationCreated (Some created_body) w1) = w2 \<and>
     pg_book w2 = pg_book w1"
proof -
  let ?w = "init_world (\<lambda>_. None) (\<lambda>_. None) 7"
  obtain x w1 where h: "Handle (main_usecase envDefault None) EvtReservationCreated (Some created_body) ?w = (Inr (), w1)"
    and x: "pg_book w1 = [inv_ID x \<mapsto> entry_of x]" using sample_created by blast
  have ok: "pg_ok w1" using ev.Handle_sound [OF init_world_ok h] by simp
  have ne: "pg_book w1 \<noteq> pg_book ?w" using x by auto
  from Handle_effect_once [OF init_world_ok h ne ok evolves_refl surjective_pairing] h ne show ?thesis by auto
qed

text \<open>
  C11: an acknowledgement of a well-formed created or checked-out event is a promise kept. Whether or not the
  subscription starts, whatever the loop of \<open>Consume\<close> is fed and however it ends (shutdown, closed channel, a
  panic of the handler), the invariant of the database still holds, the ledger has evolved, no earlier answer
  was taken back, and for every message acknowledged in the run that decodes: a created event with a
  reservation number has the invoice of that reservation under the number as its key, unless the invoice
  under that key was opened for another reservation before the run; a checked-out reservation has an invoice
  that is no longer OPEN. The other acknowledged events promise nothing: a message that does not decode, that
  is of no known kind, or a created event without reservation number is answered with nothing done.
\<close>

theorem Consume_acks_are_effects:
  assumes "pg_ok w" and "Subscriber_Consume started (Handle (main_usecase c tzdb)) es (w, as) = (r, (w', as'))"
  shows "pg_ok w' \<and> evolves (pg_book w) (pg_book w') \<and>
    (\<exists>bs. as' = as @ bs \<and>
      (\<forall>body ev. (EvtReservationCreated, body, Ack) \<in> set bs \<longrightarrow> Option.bind body decodeCreated = Some ev \<longrightarrow>
         cr_ReservationID ev \<noteq> [] \<longrightarrow>
         (\<exists>e \<in> ran (pg_book w'). e_key e = cr_ReservationID ev \<and> (e_reservation e = cr_ReservationID ev \<or>
            (\<exists>f \<in> ran (pg_book w). e_key f = cr_ReservationID ev \<and> e_reservation f = e_reservation e)))) \<and>
      (\<forall>body ev. (EvtReservationCheckedOut, body, Ack) \<in> set bs \<longrightarrow> Option.bind body decodeCheckedOut = Some ev \<longrightarrow>
         (\<exists>e \<in> ran (pg_book w'). e_reservation e = ch_ReservationID ev \<and> e_status e \<noteq> InvoiceOpen))) \<and>
    (\<forall>k body v. dropped k body \<longrightarrow> Handle (main_usecase c tzdb) k body v = (Inr (), v))"
proof (cases started)
  case (Inl err)
  then have "w' = w" "as' = as" using assms(2) by (simp_all add: Subscriber_Consume_def)
  then show ?thesis using assms(1) Handle_dropped [of _ _ "main_usecase c tzdb"] by simp
next
  case (Inr u)
  then have run: "Consume (Handle (main_usecase c tzdb)) es (w, as) = (r, (w', as'))"
    using assms(2) by (simp add: Subscriber_Consume_def)
  obtain bs where bs: "pg_ok w'" "evolves (pg_book w) (pg_book w')" "as' = as @ bs"
    "\<forall>k b. (k, b, Ack) \<in> set bs \<longrightarrow> promises k b \<longrightarrow> effect_of k b (pg_book w')"
    using ev.Consume_sound [OF _ run] assms(1) by auto
  have "keyed_like (pg_book w) (pg_book w')" using ev.Consume_keyed [OF _ run] assms(1) by simp
  then have k: "kept (pg_book w) k b (pg_book w')" if "(k, b, Ack) \<in> set bs" "promises k b" for k b
    using bs(4) that by (blast intro: effect_kept)
  have "\<exists>e \<in> ran (pg_book w'). e_key e = cr_ReservationID ev \<and> (e_reservation e = cr_ReservationID ev \<or>
            (\<exists>f \<in> ran (pg_book w). e_key f = cr_ReservationID ev \<and> e_reservation f = e_reservation e))"
    if "(EvtReservationCreated, body, Ack) \<in> set bs" "Option.bind body decodeCreated = Some ev" "cr_ReservationID ev \<noteq> []" for body ev
    using k [OF that(1)] that(2,3) by (simp add: promises_def kept_def decodes_def)
  moreover have "\<exists>e \<in> ran (pg_book w'). e_reservation e = ch_ReservationID ev \<and> e_status e \<noteq> InvoiceOpen"
    if "(EvtReservationCheckedOut, body, Ack) \<in> set bs" "Option.bind body decodeCheckedOut = Some ev" for body ev
    using k [OF that(1)] that(2) by (simp add: promises_def kept_def decodes_def)
  ultimately show ?thesis using bs(1-3) Handle_dropped [of _ _ "main_usecase c tzdb"]
    by (intro conjI exI [of _ bs]) simp_all
qed

theorem Consume_acks_are_effects_witness:
  "\<exists>r w'. Subscriber_Consume (Inr ()) (Handle (main_usecase envDefault None))
      [Deliver EvtReservationCreated (Some created_body), CtxDone] (init_world (\<lambda>_. None) (\<lambda>_. None) 7, []) =
      (r, (w', [(EvtReservationCreated, Some created_body, Ack)])) \<and>
     (\<exists>e \<in> ran (pg_book w'). e_key e = reservation_1 \<and> e_reservation e = reservation_1)"
proof -
  obtain x w1 where h: "Handle (main_usecase envDefault None) EvtReservationCreated (Some created_body)
      (init_world (\<lambda>_. None) (\<lambda>_. None) 7) = (Inr (), w1)" using sample_created by blast
  then have r: "Subscriber_Consume (Inr ()) (Handle (main_usecase envDefault None))
      [Deliver EvtReservationCreated (Some created_body), CtxDone] (init_world (\<lambda>_. None) (\<lambda>_. None) 7, []) =
      (Inr (), (w1, [(EvtReservationCreated, Some created_body, Ack)]))"
    by (simp add: Subscriber_Consume_def attempt_def on_world_def answer_def andThen_def)
  from Consume_acks_are_effects [OF init_world_ok r] have
    "\<exists>e \<in> ran (pg_book w1). e_key e = reservation_1 \<and> e_reservation e = reservation_1"
    by (auto simp: decode_created_body)
  with r show ?thesis by blast
qed

lemma uuid_trim:
  assumes "uuid_text s"
  shows "s \<noteq> []" "TrimSpace s = s"
proof -
  have m: "map uuid_shape s = ''xxxxxxxx-xxxx-xxxx-xxxx-xxxxxxxxxxxx''" using assms by (simp add: uuid_text_def)
  then show n: "s \<noteq> []" by auto
  have "uuid_shape (hd s) = CHR ''x''" "uuid_shape (last s) = CHR ''x''"
    using hd_map [OF n, of uuid_shape] last_map [OF n, of uuid_shape] unfolding m by simp_all
  moreover have "visible c" if "uuid_shape c = CHR ''x''" for c
    using that by (auto simp: uuid_shape_def visible_def split: if_splits)
  ultimately show "TrimSpace s = s" using TrimSpace_visible [OF n] by blast
qed

text \<open>
  A created event whose key is on the invoice of another reservation (a call of \<open>OpenInvoice\<close> may bring any
  key) is acknowledged, and its reservation gets no invoice.
\<close>

lemma created_under_foreign_key:
  assumes "Option.bind body decodeCreated = Some ev" "pg_ok w" "quiet w" "e \<in> ran (pg_book w)"
    "e_key e = cr_ReservationID ev" "\<forall>f \<in> ran (pg_book w). e_reservation f \<noteq> cr_ReservationID ev"
    "uuid_text (cr_ReservationID ev)"
  shows "\<exists>w'. Handle (main_usecase c tzdb) EvtReservationCreated body w = (Inr (), w') \<and> pg_book w' = pg_book w"
proof -
  let ?u = "main_usecase c tzdb" and ?r = "cr_ReservationID ev"
  obtain q where q: "q \<in> set (t_invoice (w_tables w))" "e = entry_of (invoice_of (w_tables w) q)"
    using assms(4) by (auto simp: ran_def pg_book_def view_def dest: find_Some_mem)
  have "None \<notin> iv_idempotency_key ` set (t_invoice (w_tables w))" using assms(2) by (simp add: pg_ok_def books_ok_def keys_ok_def)
  then have "iv_idempotency_key q = Some ?r" using q assms(5)
    by (cases "iv_idempotency_key q") (auto simp: rev_image_eqI)
  from Open_replay_total [OF assms(3,2) q(1) this assms(7)] obtain w' where
    o1: "invoiceRepo_Open ?r (cr_DriverID ev) ?r (BookingFeeIDR (pricingCfg c))
      (Some (opened_payload (pricingCfg c) ?r (cr_DriverID ev) ?r)) w = (Inr (invoice_of (w_tables w) q), w')" by blast
  have h: "Handle ?u EvtReservationCreated body w = (Inr (), w')"
    using o1 assms(1) uuid_trim [OF assms(7)] by (simp add: Handle_def decoded_def handleCreated_def OpenInvoice_def NewInvoiceRepository_def andThen_def)
  have "pg_book w' = pg_book w"
    using ev.Handle_sound [OF assms(2) h] assms(1,4,5) by (auto simp: sound_step_def effect_of_def decodes_def has_key_def)
  with h show ?thesis by blast
qed

text \<open>An event whose reservation number is not a UUID is refused by the database, and so requeued, each time.\<close>

lemma malformed_reservation_requeued:
  assumes "Option.bind body decodeExpired = Some ev" "quiet w" "\<not> uuid_text (ex_ReservationID ev)"
  shows "Handle (main_usecase c tzdb) EvtReservationExpired body w = (Inl (PqError codeInvalidText), tick_call w)"
proof -
  have "invoiceRepo_GetByReservationID (ex_ReservationID ev) w = (Inl (PqError codeInvalidText), tick_call w)"
    using assms(2,3) by (simp add: invoiceRepo_GetByReservationID_def sql_invoice_by_reservation_def orNotFound_def
        andThen_def attempt_def quiet_simps)
  moreover have "\<not> errors_Is (PqError codeInvalidText) ErrNotFound" by (simp add: ErrNotFound_def)
  ultimately show ?thesis using assms(1)
    by (simp add: Handle_def decoded_def handleExpired_def ApplyNoShowFee_def getOpenInvoice_def NewInvoiceRepository_def
        andThen_def attempt_def event_names)
qed

text \<open>
  C32: a cancellation event without \<open>confirmed_at\<close> is charged as if the grace period were over: the missing
  time is the zero time of Go, and every date after the first minutes of the year 1 is past the grace of
  the default tariff.
\<close>

theorem missing_confirmation_is_charged:
  assumes "Option.bind body decodeCancelled = Some ev" and "ca_ConfirmedAt ev = 0" and "120000000000 < ca_CancelledAt ev"
    and "pg_ok w" and "quiet w" and "fresh_uuids w" and "pg_book w iid = Some e"
    and "e_reservation e = ca_ReservationID ev" and "e_status e = InvoiceOpen"
    and "MLineCancellation \<notin> fst ` set_mset (e_charges e)" and "int64_ok (sint (e_total e) + 5000)"
  shows "\<exists>w'. Handle (main_usecase envDefault tzdb) EvtReservationCancelled body w = (Inr (), w') \<and>
    pg_book w' = (pg_book w)(iid \<mapsto> charged [fee_line MLineCancellation 5000 ''post-grace cancel''] e)"
proof -
  let ?u = "main_usecase envDefault tzdb"
  have due: "cancel_due (pricingCfg envDefault) (ca_ConfirmedAt ev) (ca_CancelledAt ev)"
    using assms(2,3) by (simp add: cancel_due_def pricingCfg_default DefaultConfig_def Minute_def)
  have am: "cfg_CancelFeeIDR envDefault = 5000" by (simp add: envDefault_def)
  obtain w' where w': "ApplyCancelFee ?u (e_reservation e) (ca_ConfirmedAt ev) (ca_CancelledAt ev) w = (Inr (), w')"
    "pg_book w' = (pg_book w)(iid \<mapsto> charged [fee_line MLineCancellation 5000 ''post-grace cancel''] e)"
    using cancel_quiet [OF assms(4-7,9,10) _ due, of tzdb] assms(11) am by auto
  moreover have "\<not> IsZero (ca_CancelledAt ev)" using assms(3) by (simp add: IsZero_def)
  ultimately have "handleCancelled ?u ev w = (Inr (), w')"
    using assms(8) by (simp add: handleCancelled_def Let_def)
  moreover have "Handle ?u EvtReservationCancelled body = decoded decodeCancelled body (handleCancelled ?u)"
    by (simp add: Handle_def EvtReservationCancelled_def EvtReservationCreated_def)
  ultimately show ?thesis using assms(1) w'(2) by (simp add: decoded_def)
qed

definition cancelled_body :: json where
  "cancelled_body = JObj [(''reservation_id'', JStr reservation_1), (''cancelled_at'', JStr (print_utc 2026 1 1 0 0 0))]"

lemma decode_cancelled_body:
  "decodeCancelled cancelled_body = Some \<lparr>ca_ReservationID = reservation_1, ca_Reason = [], ca_ConfirmedAt = 0,
     ca_CancelledAt = Date 2026 1 1 0 0 0 0 (FixedZone 0)\<rparr>"
  by (simp add: decodeCancelled_def cancelled_body_def object_of_def as_string_def as_time_def
      parse_print daysIn_def days_before_def isLeap_def)

lemma year_2026: "120000000000 < Date 2026 1 1 0 0 0 0 (FixedZone 0)"
  by (simp add: Date_FixedZone days_of_date_def year_start_def)

theorem missing_confirmation_is_charged_witness:
  "\<exists>w'. Handle (main_usecase envDefault None) EvtReservationCancelled (Some cancelled_body)
      (one_world (\<lambda>_. None) (\<lambda>_. None) 7) = (Inr (), w') \<and>
    (\<exists>e. pg_book w' ''i'' = Some e \<and> e_total e = 10000)"
proof -
  let ?ev = "\<lparr>ca_ReservationID = reservation_1, ca_Reason = [], ca_ConfirmedAt = 0,
     ca_CancelledAt = Date 2026 1 1 0 0 0 0 (FixedZone 0)\<rparr>"
  have b: "pg_book (one_world (\<lambda>_. None) (\<lambda>_. None) 7) ''i'' = Some (new_entry reservation_1 ''d'' ''k'' 5000)" by simp
  from missing_confirmation_is_charged [OF _ _ _ one_world_ok _ one_world_fresh b, of "Some cancelled_body" ?ev None]
  obtain w' where "Handle (main_usecase envDefault None) EvtReservationCancelled (Some cancelled_body)
      (one_world (\<lambda>_. None) (\<lambda>_. None) 7) = (Inr (), w')"
    "pg_book w' = (pg_book (one_world (\<lambda>_. None) (\<lambda>_. None) 7))(''i'' \<mapsto>
      charged [fee_line MLineCancellation 5000 ''post-grace cancel''] (new_entry reservation_1 ''d'' ''k'' 5000))"
    by (auto simp: decode_cancelled_body year_2026 new_entry_def int64_ok_def)
  then show ?thesis by (auto simp: charged_def fee_line_def new_entry_def)
qed

end
