(* ===== verification/Idempotency.thy ===== *)
theory Idempotency
  imports Consumer
begin

text \<open>
  \<^verbatim>\<open>pkg/utils\<close> and \<^verbatim>\<open>pkg/idempotency\<close>: request metadata, and the PostgreSQL store of replayed responses.
\<close>

section \<open>Request contexts\<close>

text \<open>
  Of a request context the service reads the incoming gRPC metadata, as the lookup \<open>metadata.MD.Get\<close> of
  the gRPC library gives (\<open>None\<close> when there is none), and the deadline.
\<close>

record ctx =
  ctx_md :: "(string \<Rightarrow> string list) option"
  ctx_deadline :: "Time option"

definition HeaderIdempotencyKey :: string where
  "HeaderIdempotencyKey = ''Idempotency-Key''"

definition HeaderDriverID :: string where
  "HeaderDriverID = ''X-Driver-Id''"

definition headerFromCtx :: "string \<Rightarrow> ctx \<Rightarrow> string" where
  "headerFromCtx h c =
     (case ctx_md c of None \<Rightarrow> [] | Some get \<Rightarrow> (case get h of [] \<Rightarrow> [] | v # _ \<Rightarrow> v))"

definition IdempotencyKeyFromCtx :: "ctx \<Rightarrow> string" where
  "IdempotencyKeyFromCtx c = headerFromCtx HeaderIdempotencyKey c"

definition DriverIDFromCtx :: "ctx \<Rightarrow> string" where
  "DriverIDFromCtx c = headerFromCtx HeaderDriverID c"

text \<open>
  \<open>CtxWithIdempotencyKey\<close> appends to the outgoing metadata; \<open>incoming\<close> is what the lookup finds on the other side.
\<close>

definition CtxWithIdempotencyKey :: "(string \<times> string) list \<Rightarrow> string \<Rightarrow> (string \<times> string) list" where
  "CtxWithIdempotencyKey outgoing key = outgoing @ [(HeaderIdempotencyKey, key)]"

definition incoming :: "(string \<times> string) list \<Rightarrow> string \<Rightarrow> string list" where
  "incoming md h = map snd (filter (\<lambda>kv. fst kv = h) md)"

lemma idempotency_key_roundtrip:
  "HeaderIdempotencyKey \<notin> fst ` set outgoing \<Longrightarrow>
   IdempotencyKeyFromCtx \<lparr>ctx_md = Some (incoming (CtxWithIdempotencyKey outgoing key)), ctx_deadline = d\<rparr> = key"
proof -
  assume "HeaderIdempotencyKey \<notin> fst ` set outgoing"
  then have "filter (\<lambda>kv. fst kv = HeaderIdempotencyKey) outgoing = []" by (force simp: filter_empty_conv)
  then show ?thesis by (simp add: IdempotencyKeyFromCtx_def headerFromCtx_def incoming_def CtxWithIdempotencyKey_def)
qed

text \<open>\<open>init\<close> of \<^verbatim>\<open>utils/time.go\<close>: the zone from the host's database, or the fixed offset.\<close>

definition JakartaTZ :: "Location option \<Rightarrow> Location" where
  "JakartaTZ tzdb = (case tzdb of None \<Rightarrow> FixedZone (7 * 3600) | Some l \<Rightarrow> l)"

text \<open>\<open>NowJakarta\<close>: the instant, and the zone it is shown in.\<close>

definition NowJakarta :: "('w \<Rightarrow> Time) \<Rightarrow> Location option \<Rightarrow> 'w \<Rightarrow> Time \<times> Location" where
  "NowJakarta now tzdb w = (now w, JakartaTZ tzdb)"

section \<open>Durations as text\<close>

text \<open>\<open>Duration.String\<close> of the standard library. \<open>fmtFrac\<close> prints up to \<open>prec\<close> digits without trailing zeros.\<close>

definition digitc :: "nat \<Rightarrow> char" where
  "digitc d = ''0123456789'' ! d"

fun fmtInt :: "nat \<Rightarrow> string" where
  "fmtInt n = (if n < 10 then [digitc n] else fmtInt (n div 10) @ [digitc (n mod 10)])"

declare fmtInt.simps [simp del]

fun fmtFrac :: "nat \<Rightarrow> nat \<Rightarrow> bool \<Rightarrow> string \<Rightarrow> string \<times> nat" where
  "fmtFrac v 0 print acc = ((if print then CHR ''.'' # acc else acc), v)"
| "fmtFrac v (Suc prec) print acc =
     (let d = v mod 10; print' = (print \<or> d \<noteq> 0)
      in fmtFrac (v div 10) prec print' (if print' then digitc d # acc else acc))"

definition micro :: string where
  "micro = bytes [194, 181]"

definition durationMagnitude :: "nat \<Rightarrow> string" where
  "durationMagnitude u =
     (if u = 0 then ''0s''
      else if u < 1000 then fmtInt u @ ''ns''
      else if u < 1000000 then (case fmtFrac u 3 False [] of (f, v) \<Rightarrow> fmtInt v @ f @ micro @ ''s'')
      else if u < 1000000000 then (case fmtFrac u 6 False [] of (f, v) \<Rightarrow> fmtInt v @ f @ ''ms'')
      else (case fmtFrac u 9 False [] of (f, v) \<Rightarrow>
              let s = fmtInt (v mod 60) @ f @ ''s''; m = v div 60; h = m div 60
              in (if h > 0 then fmtInt h @ ''h'' else []) @
                 (if m > 0 then fmtInt (m mod 60) @ ''m'' else []) @ s))"

definition durationString :: "Duration \<Rightarrow> string" where
  "durationString d =
     (if sint d < 0 then CHR ''-'' # durationMagnitude (nat (- sint d)) else durationMagnitude (nat (sint d)))"

text \<open>\<open>time.Duration(d.Seconds())\<close>: the seconds in binary64, truncated towards zero.\<close>

definition whole_seconds :: "nat \<Rightarrow> nat" where
  "whole_seconds n =
     (let x = f64_add_nat (n div 1000000000) (f64_of_frac (n mod 1000000000) 1000000000)
      in fst x div 2 ^ snd x)"

definition truncSeconds :: "Duration \<Rightarrow> Duration" where
  "truncSeconds d =
     (if sint d < 0 then - of_nat (whole_seconds (nat (- sint d))) else of_nat (whole_seconds (nat (sint d))))"

definition formatInterval :: "Duration \<Rightarrow> string" where
  "formatInterval d = durationString (truncSeconds d) @ ''s''"

section \<open>The store\<close>

record 'w StoreInterface =
  si_Get :: "string \<Rightarrow> string \<Rightarrow> ('w, goerror, string \<times> bool) io"
  si_Put :: "string \<Rightarrow> string \<Rightarrow> string \<Rightarrow> Duration \<Rightarrow> ('w, goerror, unit) io"

definition sql_idem_get :: "string \<Rightarrow> string \<Rightarrow> idempotency_row dbio" where
  "sql_idem_get scope key = select_row (\<lambda>r. ik_scope r = scope \<and> ik_key r = key) t_idempotency_key"

text \<open>
  The insert of \<open>Put\<close>. \<open>interval\<close> is PostgreSQL's reading of an interval literal, \<open>None\<close> when it
  rejects it; the conversion happens before the conflict is looked for.
\<close>

definition sql_idem_put ::
    "(string \<Rightarrow> Duration option) \<Rightarrow> string \<Rightarrow> string \<Rightarrow> string \<Rightarrow> string \<Rightarrow> unit dbio" where
  "sql_idem_put interval scope key payload ttl w =
     (case interval ttl of
        None \<Rightarrow> (Inl (PqError ''22007''), w)
      | Some d \<Rightarrow>
          if \<exists>r \<in> set (t_idempotency_key (w_tables w)). ik_scope r = scope \<and> ik_key r = key
          then (Inr (), w)
          else (Inr (), set_tables (\<lambda>t. t\<lparr>t_idempotency_key := t_idempotency_key t @
                  [\<lparr>ik_scope = scope, ik_key = key, ik_response_payload = payload,
                    ik_created_at = w_now w, ik_expires_at = Add (w_now w) d\<rparr>]\<rparr>) w))"

definition postgresStore_Get :: "string \<Rightarrow> string \<Rightarrow> (string \<times> bool) dbio" where
  "postgresStore_Get scope key =
     (if key = [] then ret ([], False)
      else attempt (db_call (sql_idem_get scope key)) (\<lambda>r. case r of
        Inl err \<Rightarrow> if errors_Is err ErrNoRows then ret ([], False) else throw err
      | Inr row \<Rightarrow> ret (ik_response_payload row, True)))"

definition postgresStore_Put ::
    "(string \<Rightarrow> Duration option) \<Rightarrow> string \<Rightarrow> string \<Rightarrow> string \<Rightarrow> Duration \<Rightarrow> unit dbio" where
  "postgresStore_Put interval scope key payload ttl =
     (if key = [] then ret ()
      else db_call (sql_idem_put interval scope key payload (formatInterval ttl)))"

definition NewPostgresStore :: "(string \<Rightarrow> Duration option) \<Rightarrow> world StoreInterface" where
  "NewPostgresStore interval = \<lparr>si_Get = postgresStore_Get, si_Put = postgresStore_Put interval\<rparr>"

section \<open>Facts\<close>

text \<open>Whole seconds are exact, and the text the code sends for a day is not a number of seconds.\<close>

lemma whole_seconds_exact: "n mod 1000000000 = 0 \<Longrightarrow> whole_seconds n = n div 1000000000"
proof -
  assume "n mod 1000000000 = 0"
  then have z: "f64_of_frac (n mod 1000000000) 1000000000 = (0, 0)"
    by (simp add: f64_of_frac_def f64_scale.simps [of 0] round_half_even_def)
  show ?thesis unfolding whole_seconds_def z f64_add_nat_def Let_def
    using round_half_even_exact [of 1] by (simp add: f64_of_frac_def Let_def)
qed

lemma day_interval: "formatInterval (24 * Hour) = ''86.4'' @ micro @ ''ss''"
proof -
  have "sint (24 * Hour) = 86400000000000" by (simp add: Hour_def)
  then have "truncSeconds (24 * Hour) = 86400"
    by (simp add: truncSeconds_def whole_seconds_exact)
  moreover have "fmtFrac 86400 3 False [] = (''.4'', 86)"
    unfolding numeral_3_eq_3 by (simp add: digitc_def)
  moreover have "fmtInt 86 = ''86''"
    by (subst fmtInt.simps, simp add: digitc_def, subst fmtInt.simps, simp add: digitc_def)
  ultimately have "durationString 86400 = ''86.4'' @ micro @ ''s''" "truncSeconds (24 * Hour) = 86400"
    by (simp_all add: durationString_def durationMagnitude_def)
  then show ?thesis by (simp add: formatInterval_def)
qed

lemma idem_frames [frame_intros]:
  "rel reads_only (sql_idem_get scope key)" "rel same_tx (sql_idem_put interval scope key p ttl)"
  by (auto simp: sql_idem_get_def sql_idem_put_def select_row_def rel_def same_tx_def split: option.split)

lemma Get_frame [frame_intros]: "rel reads_only (postgresStore_Get scope key)"
  unfolding postgresStore_Get_def by (auto intro!: frame_intros split: sum.split)

text \<open>\<open>Put\<close> changes nothing but the table of keys.\<close>

lemma Put_frame:
  assumes "postgresStore_Put interval scope key p ttl w = (r, w')"
  shows "same_tx w w' \<and> t_invoice (w_tables w') = t_invoice (w_tables w) \<and>
    t_invoice_line (w_tables w') = t_invoice_line (w_tables w) \<and> outbox w' = outbox w \<and> pg_pays w' = pg_pays w"
proof -
  have "rel same_tx (postgresStore_Put interval scope key p ttl)"
    unfolding postgresStore_Put_def by (auto intro!: frame_intros)
  from relD [OF this assms] show ?thesis using assms
    by (auto simp: postgresStore_Put_def db_call_def sql_idem_put_def outbox_def pg_pays_def
        split: if_splits option.splits fault.splits)
qed

section \<open>Properties\<close>

lemma sint_seconds:
  assumes "n \<le> 9223372036"
  shows "sint (of_nat n * 1000000000 :: 64 word) = int n * 1000000000"
proof -
  have e: "of_nat n * 1000000000 = (word_of_int (int n * 1000000000) :: 64 word)" by simp
  have "int64_ok (int n * 1000000000)" using assms by (simp add: int64_ok_def)
  then show ?thesis unfolding e by (rule sint_word_of_int64)
qed

text \<open>
  A time to live is sent with its seconds read as nanoseconds: the interval literal for a whole number of
  seconds is the duration text of that many nanoseconds with an \<open>s\<close> appended, so that a day, the time to
  live of every cached response, goes out as \<open>86.4\<close>, the micro sign and \<open>ss\<close>, which is no number of
  seconds.
\<close>

theorem interval_counts_nanoseconds:
  assumes "n \<le> 9223372036"
  shows "formatInterval (of_nat n * 1000000000) = durationString (of_nat n) @ ''s'' \<and>
    formatInterval (24 * Hour) = ''86.4'' @ micro @ ''ss''"
proof -
  have "nat (int n * 1000000000) = n * 1000000000" by simp
  then have "truncSeconds (of_nat n * 1000000000) = of_nat n"
    by (simp add: truncSeconds_def sint_seconds [OF assms] whole_seconds_exact)
  then show ?thesis by (simp add: formatInterval_def [of "of_nat n * 1000000000"] day_interval)
qed

theorem interval_counts_nanoseconds_witness:
  "formatInterval (of_nat 86400 * 1000000000) = durationString (of_nat 86400) @ ''s'' \<and>
   formatInterval (24 * Hour) = ''86.4'' @ micro @ ''ss''"
  by (rule interval_counts_nanoseconds) simp

text \<open>Where PostgreSQL rejects that text, no response is ever cached; the interceptor drops the error.\<close>

lemma Put_day_fails:
  assumes "interval (''86.4'' @ micro @ ''ss'') = None" and "key \<noteq> []"
  shows "\<exists>e w'. postgresStore_Put interval scope key payload (24 * Hour) w = (Inl e, w') \<and> w_tables w' = w_tables w"
proof -
  have "sql_idem_put interval scope key payload (formatInterval (24 * Hour)) v = (Inl (PqError ''22007''), v)" for v
    unfolding sql_idem_put_def day_interval assms(1) by simp
  then show ?thesis using assms(2)
    by (auto simp: postgresStore_Put_def db_call_def split: option.split fault.split)
qed

end
