(* ===== verification/Grpc.thy ===== *)
theory Grpc
  imports Idempotency
begin

text \<open>
  \<^verbatim>\<open>pkg/grpcserver\<close> and \<^verbatim>\<open>internal/billing/handler/grpc\<close>: the interceptor stack, the mapping of errors to
  gRPC codes, the handlers of the service and the translation of invoices to messages.
\<close>

section \<open>Errors on the wire\<close>

definition appErrorStatus :: "string \<Rightarrow> Code" where
  "appErrorStatus c =
     (if c = ''NOT_FOUND'' then NotFound
      else if c = ''CONFLICT'' \<or> c = ''DOUBLE_BOOK'' then AlreadyExists
      else if c = ''INVALID_STATE'' then FailedPrecondition
      else if c = ''LOCK_UNAVAILABLE'' then ResourceExhausted
      else if c = ''UNAUTHENTICATED'' then Unauthenticated
      else if c = ''UPSTREAM_DOWN'' then Unavailable
      else Internal)"

definition mapError :: "goerror \<Rightarrow> goerror" where
  "mapError err =
     (case errors_As_AppError err of
        None \<Rightarrow> err
      | Some (c, m) \<Rightarrow> StatusError (appErrorStatus c) m)"

section \<open>Interceptors\<close>

text \<open>
  A unary handler takes the context and the request; an interceptor wraps it, knowing the full name of
  the method. \<open>now\<close> is \<open>time.Now\<close>.
\<close>

type_synonym ('w, 'q, 'p) UnaryHandler = "ctx \<Rightarrow> 'q \<Rightarrow> ('w, goerror, 'p) io"

type_synonym ('w, 'q, 'p) Interceptor = "string \<Rightarrow> ('w, 'q, 'p) UnaryHandler \<Rightarrow> ('w, 'q, 'p) UnaryHandler"

definition recoveryInterceptor :: "('w, 'q, 'p) Interceptor" where
  "recoveryInterceptor method handler c req =
     attempt (handler c req) (\<lambda>r. case r of
       Inl (GoPanic m) \<Rightarrow> throw (StatusError Internal ''internal server error'')
     | _ \<Rightarrow> lift_res r)"

text \<open>The log lines leave no trace in the state. A panic passes through.\<close>

definition loggingInterceptor :: "('w, 'q, 'p) Interceptor" where
  "loggingInterceptor method handler c req =
     attempt (handler c req) (\<lambda>r. case r of
       Inl (GoPanic m) \<Rightarrow> throw (GoPanic m)
     | Inl err \<Rightarrow> throw (mapError err)
     | Inr resp \<Rightarrow> ret resp)"

definition timeoutInterceptor :: "('w \<Rightarrow> Time) \<Rightarrow> Duration \<Rightarrow> ('w, 'q, 'p) Interceptor" where
  "timeoutInterceptor now d method handler c req w =
     (if ctx_deadline c = None then handler (c\<lparr>ctx_deadline := Some (Add (now w) d)\<rparr>) req w
      else handler c req w)"

text \<open>
  \<open>protoZero\<close> gives the message a cached response is decoded into, here as its decoder: it is nil for every
  request. \<open>marshal\<close> is \<open>proto.Marshal\<close>.
\<close>

definition protoZero :: "'q \<Rightarrow> (string \<Rightarrow> 'p option) option" where
  "protoZero req = None"

definition runAndCache :: "'w StoreInterface \<Rightarrow> ('p \<Rightarrow> string option) \<Rightarrow> string \<Rightarrow> string \<Rightarrow>
    ('w, goerror, 'p) io \<Rightarrow> ('w, goerror, 'p) io" where
  "runAndCache store marshal method key call =
     andThen call (\<lambda>resp.
       case marshal resp of
         None \<Rightarrow> ret resp
       | Some payload \<Rightarrow> attempt (si_Put store method key payload (24 * Hour)) (\<lambda>_. ret resp))"

definition idempotencyInterceptor ::
    "'w StoreInterface \<Rightarrow> string list \<Rightarrow> ('p \<Rightarrow> string option) \<Rightarrow> ('w, 'q, 'p) Interceptor" where
  "idempotencyInterceptor store methods marshal method handler c req =
     (if method \<notin> set methods then handler c req
      else
        let key = IdempotencyKeyFromCtx c
        in if key = [] then throw (StatusError InvalidArgument ''Idempotency-Key header required'')
           else attempt (si_Get store method key) (\<lambda>g.
             let call = runAndCache store marshal method key (handler c req)
             in case g of
                  Inr (cached, True) \<Rightarrow>
                    (case protoZero req of
                       None \<Rightarrow> call
                     | Some unmarshal \<Rightarrow> (case unmarshal cached of None \<Rightarrow> call | Some out \<Rightarrow> ret out))
                | _ \<Rightarrow> call))"

text \<open>\<open>newGrpcSrv\<close>: the chain, outermost first, with the options of \<open>main\<close> (a store, no extra interceptor).\<close>

definition serverChain :: "('w \<Rightarrow> Time) \<Rightarrow> 'w StoreInterface \<Rightarrow> string list \<Rightarrow> ('p \<Rightarrow> string option) \<Rightarrow> ('w, 'q, 'p) Interceptor" where
  "serverChain now store methods marshal method handler =
     recoveryInterceptor method (loggingInterceptor method
       (timeoutInterceptor now 2000000000 method
         (idempotencyInterceptor store methods marshal method handler)))"

section \<open>Messages\<close>

datatype PInvoiceStatus = INVOICE_STATUS_UNSPECIFIED | P_OPEN | P_CLOSED | P_PAID | P_VOID

datatype PLineKind = LINE_KIND_UNSPECIFIED | P_BOOKING | P_HOURLY | P_OVERNIGHT | P_CANCELLATION | P_NOSHOW

record PLineItem =
  pl_Id :: string
  pl_Kind :: PLineKind
  pl_AmountIdr :: int64

record PInvoice =
  pi_Id :: string
  pi_ReservationId :: string
  pi_Status :: PInvoiceStatus
  pi_TotalIdr :: int64
  pi_CreatedAt :: Time
  pi_ClosedAt :: "Time option"
  pi_PaidAt :: "Time option"
  pi_Lines :: "PLineItem list"

fun statusToProto :: "InvoiceStatus \<Rightarrow> PInvoiceStatus" where
  "statusToProto InvoiceOpen = P_OPEN"
| "statusToProto InvoiceClosed = P_CLOSED"
| "statusToProto InvoicePaid = P_PAID"
| "statusToProto InvoiceVoid = P_VOID"
| "statusToProto _ = INVOICE_STATUS_UNSPECIFIED"

fun lineKindToProto :: "MLineKind \<Rightarrow> PLineKind" where
  "lineKindToProto MLineBooking = P_BOOKING"
| "lineKindToProto MLineHourly = P_HOURLY"
| "lineKindToProto MLineOvernight = P_OVERNIGHT"
| "lineKindToProto MLineCancellation = P_CANCELLATION"
| "lineKindToProto MLineNoShow = P_NOSHOW"
| "lineKindToProto _ = LINE_KIND_UNSPECIFIED"

definition invoiceToProto :: "Invoice \<Rightarrow> PInvoice" where
  "invoiceToProto i =
     \<lparr>pi_Id = inv_ID i, pi_ReservationId = inv_ReservationID i, pi_Status = statusToProto (inv_Status i),
      pi_TotalIdr = inv_TotalIDR i, pi_CreatedAt = inv_CreatedAt i, pi_ClosedAt = inv_ClosedAt i,
      pi_PaidAt = inv_PaidAt i,
      pi_Lines = map (\<lambda>l. \<lparr>pl_Id = ml_ID l, pl_Kind = lineKindToProto (ml_Kind l),
                          pl_AmountIdr = ml_AmountIDR l\<rparr>) (inv_LineItems i)\<rparr>"

section \<open>Handlers\<close>

record OpenInvoiceRequest =
  oi_ReservationId :: string
  oi_DriverId :: string

record CloseInvoiceRequest =
  cl_InvoiceId :: string
  cl_CheckedInAt :: "Time option"
  cl_CheckedOutAt :: "Time option"

record CreatePaymentReq =
  cp_ReservationId :: string
  cp_DriverId :: string
  cp_AmountIdr :: int64
  cp_Method :: string
  cp_CcToken :: string

record PPaymentRequest =
  ppr_Id :: string
  ppr_Method :: string
  ppr_Status :: string
  ppr_QrisUrl :: string
  ppr_PaymentRef :: string
  ppr_ExpiresAt :: int64

text \<open>\<open>AsTime\<close> of an absent timestamp is the Unix epoch; \<open>asTime\<close> turns years up to 1971 into the zero time.\<close>

definition timestampAsTime :: "Time option \<Rightarrow> Time" where
  "timestampAsTime t = (case t of None \<Rightarrow> unixToInternal * second_ns | Some x \<Rightarrow> x)"

definition asTime :: "Time \<Rightarrow> Time" where
  "asTime t = (if Year (FixedZone 0) t \<le> 1971 then 0 else t)"

definition Server_OpenInvoice :: "'w billingUsecase \<Rightarrow> ('w, OpenInvoiceRequest, PInvoice) UnaryHandler" where
  "Server_OpenInvoice u c req =
     andThen (OpenInvoice u (oi_ReservationId req) (oi_DriverId req) (IdempotencyKeyFromCtx c)) (\<lambda>i.
       ret (invoiceToProto i))"

definition close_session :: "Location option \<Rightarrow> CloseInvoiceRequest \<Rightarrow> Session" where
  "close_session tzdb req =
     \<lparr>ConfirmedAt = 0, CheckedInAt = asTime (timestampAsTime (cl_CheckedInAt req)),
      CheckedOutAt = asTime (timestampAsTime (cl_CheckedOutAt req)), CancelledAt = None, NoShow = False,
      VehicleTypeOf = VehicleCar, Timezone = tzdb\<rparr>"

definition Server_CloseInvoice :: "'w billingUsecase \<Rightarrow> ('w, CloseInvoiceRequest, PInvoice) UnaryHandler" where
  "Server_CloseInvoice u c req =
     andThen (CloseInvoice u (cl_InvoiceId req) (close_session (uc_tzdb u) req)) (\<lambda>i. ret (invoiceToProto i))"

definition Server_GetInvoice :: "'w billingUsecase \<Rightarrow> ('w, string, PInvoice) UnaryHandler" where
  "Server_GetInvoice u c i = andThen (GetInvoice u i) (\<lambda>i. ret (invoiceToProto i))"

definition Server_CreatePaymentRequest :: "'w billingUsecase \<Rightarrow> ('w, CreatePaymentReq, PPaymentRequest) UnaryHandler" where
  "Server_CreatePaymentRequest u c req =
     andThen (CreatePaymentRequest u
       \<lparr>ci_ReservationID = cp_ReservationId req, ci_DriverID = cp_DriverId req, ci_AmountIDR = cp_AmountIdr req,
        ci_Method = cp_Method req, ci_CCToken = cp_CcToken req\<rparr>) (\<lambda>out.
       ret \<lparr>ppr_Id = co_ID out, ppr_Method = co_Method out, ppr_Status = co_Status out,
            ppr_QrisUrl = co_QRISURL out, ppr_PaymentRef = co_PaymentRef out, ppr_ExpiresAt = co_ExpiresAt out\<rparr>)"

text \<open>The methods as \<open>main\<close> serves them: only \<open>OpenInvoice\<close> is guarded by the store.\<close>

definition served :: "(string \<Rightarrow> Duration option) \<Rightarrow> ('p \<Rightarrow> string option) \<Rightarrow> string \<Rightarrow>
    (world, 'q, 'p) UnaryHandler \<Rightarrow> (world, 'q, 'p) UnaryHandler" where
  "served interval marshal = serverChain w_now (NewPostgresStore interval) [ScopeOpenInvoice] marshal"

section \<open>What the chain does to a call\<close>

text \<open>What the caller sees of a result, and the context the handler sees.\<close>

definition wire :: "goerror + 'p \<Rightarrow> goerror + 'p" where
  "wire r = (case r of Inl (GoPanic m) \<Rightarrow> Inl (StatusError Internal ''internal server error'')
     | Inl e \<Rightarrow> Inl (mapError e) | Inr x \<Rightarrow> Inr x)"

definition with_deadline :: "Time \<Rightarrow> ctx \<Rightarrow> ctx" where
  "with_deadline now c = (if ctx_deadline c = None then c\<lparr>ctx_deadline := Some (Add now 2000000000)\<rparr> else c)"

lemma with_deadline_key [simp]: "IdempotencyKeyFromCtx (with_deadline now c) = IdempotencyKeyFromCtx c"
  by (simp add: with_deadline_def IdempotencyKeyFromCtx_def headerFromCtx_def)

lemma mapError_not_panic: "(\<forall>m. e \<noteq> GoPanic m) \<Longrightarrow> mapError e \<noteq> GoPanic m"
  by (auto simp: mapError_def split: option.splits)

lemma wire_simps [simp]: "wire (Inr x) = Inr x" "wire r = Inr x \<longleftrightarrow> r = Inr x"
  by (auto simp: wire_def split: sum.splits goerror.splits)

lemma recover_log:
  "recoveryInterceptor m (loggingInterceptor m h) c req w = (let (r, w') = h c req w in (wire r, w'))"
proof -
  obtain r w' where h: "h c req w = (r, w')" by fastforce
  show ?thesis
  proof (cases r)
    case (Inr x)
    then show ?thesis by (simp add: recoveryInterceptor_def loggingInterceptor_def attempt_def h)
  next
    case (Inl e)
    show ?thesis
    proof (cases "\<exists>m. e = GoPanic m")
      case True
      then show ?thesis using Inl
        by (auto simp: recoveryInterceptor_def loggingInterceptor_def attempt_def h wire_def)
    next
      case False
      have w: "wire r = Inl (mapError e)" using False by (simp add: wire_def Inl split: goerror.split)
      have l: "loggingInterceptor m h c req w = (Inl (mapError e), w')"
        using False by (simp add: loggingInterceptor_def attempt_def h Inl split: goerror.split)
      have "recoveryInterceptor m (loggingInterceptor m h) c req w = (Inl (mapError e), w')"
        using mapError_not_panic [of e] False
        by (cases "mapError e") (auto simp: recoveryInterceptor_def attempt_def l)
      then show ?thesis by (simp add: h w)
    qed
  qed
qed

lemma serverChain_wire:
  "serverChain now store methods marshal method h c req w =
     (let (r, w') = idempotencyInterceptor store methods marshal method h (with_deadline (now w) c) req w
      in (wire r, w'))"
  unfolding serverChain_def recover_log by (simp add: timeoutInterceptor_def with_deadline_def)

lemma served_unguarded:
  assumes "method \<noteq> ScopeOpenInvoice"
  shows "served interval marshal method h c req w =
    (let (r, w') = h (with_deadline (w_now w) c) req w in (wire r, w'))"
  using assms by (simp add: served_def serverChain_wire idempotencyInterceptor_def)

text \<open>
  The guarded call reads the store and runs the handler all the same: \<open>protoZero\<close> gives nothing to decode
  a cached response into. What follows the handler touches the table of keys only.
\<close>

lemma runAndCache_frame:
  assumes "call w = (r, w1)"
  shows "\<exists>w'. runAndCache (NewPostgresStore interval) marshal method key call w = (r, w') \<and> same_tx w1 w' \<and>
    t_invoice (w_tables w') = t_invoice (w_tables w1) \<and> t_invoice_line (w_tables w') = t_invoice_line (w_tables w1) \<and>
    outbox w' = outbox w1 \<and> pg_pays w' = pg_pays w1"
proof (cases r)
  case (Inl e)
  then show ?thesis using assms by (simp add: runAndCache_def)
next
  case (Inr x)
  show ?thesis
  proof (cases "marshal x")
    case None
    then show ?thesis using assms Inr by (simp add: runAndCache_def)
  next
    case (Some p)
    obtain q w' where q: "postgresStore_Put interval method key p (24 * Hour) w1 = (q, w')" by fastforce
    then show ?thesis using assms Inr Some Put_frame [OF q] by (simp add: runAndCache_def NewPostgresStore_def)
  qed
qed

lemma same_book:
  "t_invoice (w_tables w') = t_invoice (w_tables w) \<Longrightarrow> t_invoice_line (w_tables w') = t_invoice_line (w_tables w) \<Longrightarrow>
    pg_book w' = pg_book w"
  by (simp add: pg_book_def view_def entry_of_invoice_of lines_of_def fun_eq_iff comp_def)

lemma served_guarded:
  assumes "IdempotencyKeyFromCtx c \<noteq> []"
  shows "\<exists>w1 r w2 w'. reads_only w w1 \<and> h (with_deadline (w_now w) c) req w1 = (r, w2) \<and>
    served interval marshal ScopeOpenInvoice h c req w = (wire r, w') \<and> same_tx w2 w' \<and>
    t_invoice (w_tables w') = t_invoice (w_tables w2) \<and> t_invoice_line (w_tables w') = t_invoice_line (w_tables w2) \<and>
    outbox w' = outbox w2 \<and> pg_pays w' = pg_pays w2 \<and> pg_book w' = pg_book w2"
proof -
  let ?c = "with_deadline (w_now w) c" and ?key = "IdempotencyKeyFromCtx c"
  obtain g w1 where g: "postgresStore_Get ScopeOpenInvoice ?key w = (g, w1)" by fastforce
  have ro: "reads_only w w1" using relD [OF Get_frame g] .
  obtain r w2 where h: "h ?c req w1 = (r, w2)" by fastforce
  obtain w' where w': "runAndCache (NewPostgresStore interval) marshal ScopeOpenInvoice ?key (h ?c req) w1 = (r, w')"
    "same_tx w2 w'" "t_invoice (w_tables w') = t_invoice (w_tables w2)"
    "t_invoice_line (w_tables w') = t_invoice_line (w_tables w2)" "outbox w' = outbox w2" "pg_pays w' = pg_pays w2"
    using runAndCache_frame [of "h ?c req" w1, OF h] by blast
  have "idempotencyInterceptor (NewPostgresStore interval) [ScopeOpenInvoice] marshal ScopeOpenInvoice h ?c req w = (r, w')"
    using assms g w'(1) by (simp add: idempotencyInterceptor_def Let_def NewPostgresStore_def protoZero_def attempt_def
        split: sum.split prod.split bool.split)
  then show ?thesis using ro h w' same_book [OF w'(3,4)] by (auto simp: served_def serverChain_wire)
qed

section \<open>Properties\<close>

text \<open>
  C36: no panic of a handler reaches the caller or the runtime: whatever the handler, the method, the
  request and the state, a served call ends with a response or with an error that is not a panic.
\<close>

theorem served_never_panics: "fst (served interval marshal method h c req w) \<noteq> Inl (GoPanic m)"
proof -
  have "wire r \<noteq> Inl (GoPanic m)" for r :: "goerror + 'p"
    using mapError_not_panic [of _ m] by (auto simp: wire_def split: sum.splits goerror.splits)
  then show ?thesis by (auto simp: served_def serverChain_wire split: prod.split)
qed

text \<open>
  C35: the replay cache is transparent: a guarded call with a key, whatever the store holds for it, is the
  handler's call. It runs the handler once, in a state that differs by the read of the store only, gives its
  result to the caller, and leaves the invoices, lines, events and payment requests the handler left. No
  stored response is ever returned in place of the handler's.
\<close>

theorem replay_cache_transparent:
  assumes "IdempotencyKeyFromCtx c \<noteq> []"
  shows "\<exists>w1 r w2 w'. reads_only w w1 \<and> h (with_deadline (w_now w) c) req w1 = (r, w2) \<and>
    served interval marshal ScopeOpenInvoice h c req w = (wire r, w') \<and> pg_book w' = pg_book w2 \<and>
    outbox w' = outbox w2 \<and> pg_pays w' = pg_pays w2"
  using served_guarded [OF assms, of w h req interval marshal] by blast

text \<open>A context that carries a key.\<close>

definition keyed :: "string \<Rightarrow> ctx" where
  "keyed k = \<lparr>ctx_md = Some (\<lambda>h. if h = HeaderIdempotencyKey then [k] else []), ctx_deadline = None\<rparr>"

lemma keyed_key [simp]: "IdempotencyKeyFromCtx (keyed k) = k"
  by (simp add: keyed_def IdempotencyKeyFromCtx_def headerFromCtx_def)

theorem replay_cache_transparent_witness:
  "\<exists>w1 r w2. reads_only (init_world (\<lambda>_. None) (\<lambda>_. None) 7) w1 \<and>
     Server_OpenInvoice (main_usecase envDefault None) (with_deadline 7 (keyed ''k'')) \<lparr>oi_ReservationId = reservation_1, oi_DriverId = ''d''\<rparr> w1 = (r, w2) \<and>
     fst (served (\<lambda>_. None) (\<lambda>_. None) ScopeOpenInvoice (Server_OpenInvoice (main_usecase envDefault None)) (keyed ''k'')
       \<lparr>oi_ReservationId = reservation_1, oi_DriverId = ''d''\<rparr> (init_world (\<lambda>_. None) (\<lambda>_. None) 7)) = wire r"
proof -
  have "IdempotencyKeyFromCtx (keyed ''k'') \<noteq> []" by simp
  from replay_cache_transparent [OF this, of "init_world (\<lambda>_. None) (\<lambda>_. None) 7"
      "Server_OpenInvoice (main_usecase envDefault None)" "\<lparr>oi_ReservationId = reservation_1, oi_DriverId = ''d''\<rparr>" "\<lambda>_. None" "\<lambda>_. None"]
  show ?thesis by auto
qed

lemma pg_row_of_key:
  assumes "pg_ok w" "pg_book w iid = Some e"
  shows "\<exists>r \<in> set (t_invoice (w_tables w)). iv_id r = iid \<and> iv_idempotency_key r = Some (e_key e)"
proof -
  obtain r where r: "find (\<lambda>r. iv_id r = iid) (t_invoice (w_tables w)) = Some r"
    "e = entry_of (invoice_of (w_tables w) r)" using assms(2) by (auto simp: pg_book_def view_Some)
  have mem: "r \<in> set (t_invoice (w_tables w))" "iv_id r = iid" using find_Some_mem [OF r(1)] by auto
  have "iv_idempotency_key r \<noteq> None"
    using assms(1) imageI [OF mem(1), of iv_idempotency_key] by (metis pg_ok_def books_ok_def keys_ok_def)
  then have "iv_idempotency_key r = Some (e_key e)" unfolding r(2) entry_of_invoice_of by auto
  with mem show ?thesis by blast
qed

lemma OpenInvoice_replay:
  assumes "pg_ok w" "quiet w" "pg_book w iid = Some e" "TrimSpace res \<noteq> []" "TrimSpace (e_key e) \<noteq> []" "uuid_text res"
  shows "\<exists>r w'. OpenInvoice (main_usecase c tzdb) res drv (e_key e) w = (Inr (invoice_of (w_tables w) r), w') \<and>
    find (\<lambda>r. iv_id r = iid) (t_invoice (w_tables w)) = Some r \<and> w_tables w' = w_tables w"
proof -
  obtain r where r: "r \<in> set (t_invoice (w_tables w))" "iv_id r = iid" "iv_idempotency_key r = Some (e_key e)"
    using pg_row_of_key [OF assms(1,3)] by blast
  have k: "keys_ok (w_tables w)" using assms(1) by (simp add: pg_ok_def books_ok_def)
  let ?p = "Some (opened_payload (pricingCfg c) res drv (e_key e))"
  obtain w' where w': "invoiceRepo_Open res drv (e_key e) (cfg_BookingFeeIDR c) ?p w = (Inr (invoice_of (w_tables w) r), w')"
    using Open_replay_total [OF assms(2,1) r(1,3) assms(6), of drv "cfg_BookingFeeIDR c" ?p] by blast
  have "e \<in> ran (view (w_tables w))" using assms(3) by (auto simp: ran_def pg_book_def)
  then have "w_tables w' = w_tables w" using Open_tables [OF assms(1) w'] opens_fresh [OF _ k] by blast
  moreover have "find (\<lambda>r. iv_id r = iid) (t_invoice (w_tables w)) = Some r"
    using find_distinct_map [of iv_id "t_invoice (w_tables w)" r] k r(1,2) by (simp add: keys_ok_def)
  ultimately show ?thesis using w' assms(4,5)
    by (intro exI [of _ r] exI [of _ w']) (simp add: OpenInvoice_def NewInvoiceRepository_def)
qed

text \<open>What \<open>Open\<close> returns is the row the tables hold after it.\<close>

lemma OpenInvoice_row:
  assumes "pg_ok w" "OpenInvoice (main_usecase c tzdb) res drv key w = (Inr x, w')"
  shows "find (\<lambda>r. iv_id r = inv_ID x) (t_invoice (w_tables w')) \<noteq> None \<and>
    (\<forall>r. find (\<lambda>r. iv_id r = inv_ID x) (t_invoice (w_tables w')) = Some r \<longrightarrow> x = invoice_of (w_tables w') r)"
proof -
  have ok: "w_saved w = None" "keys_ok (w_tables w)" using assms(1) by (auto simp: pg_ok_def books_ok_def)
  have run: "invoiceRepo_Open res drv key (cfg_BookingFeeIDR c) (Some (opened_payload (pricingCfg c) res drv key)) w = (Inr x, w')"
    using assms(2) by (auto simp: OpenInvoice_def NewInvoiceRepository_def split: if_splits)
  from Open_effect [OF run ok(1)] consider
      (same) "w_tables w' = w_tables w" "returned (invoiceRepo_findByIdem key) x (w_tables w)"
    | (new) iid where "returned (invoiceRepo_GetByID iid) x (w_tables w')" by auto
  then show ?thesis
  proof cases
    case same
    then obtain v v' where "invoiceRepo_findByIdem key v = (Inr x, v')" "w_tables v = w_tables w" by (auto simp: returned_def)
    then obtain r where r: "find (\<lambda>r. iv_idempotency_key r = Some key) (t_invoice (w_tables w)) = Some r" "x = invoice_of (w_tables w) r"
      using find_row_Inr [of "\<lambda>r. iv_idempotency_key r = Some key" v x v'] ok(2)
      by (auto simp: invoiceRepo_findByIdem_def sql_invoice_by_idem_def keys_ok_def)
    have "find (\<lambda>q. iv_id q = inv_ID x) (t_invoice (w_tables w)) = Some r"
      using find_distinct_map [of iv_id "t_invoice (w_tables w)" r] ok(2) find_Some_mem [OF r(1)] r(2) by (simp add: keys_ok_def)
    then show ?thesis using r(2) same(1) by simp
  next
    case new
    then obtain r where r: "find (\<lambda>r. iv_id r = iid) (t_invoice (w_tables w')) = Some r" "x = invoice_of (w_tables w') r"
      using returned_GetByID by blast
    then show ?thesis using find_Some_mem [OF r(1)] by simp
  qed
qed

text \<open>
  C34: \<open>OpenInvoice\<close> over gRPC is idempotent on the \<open>Idempotency-Key\<close> header. Once a call for a UUID has
  returned an invoice, the same call made later, after anything that let the ledger evolve and when the
  database answers, returns that invoice as it is stored then, and leaves every invoice, line, outbox event and
  payment request as it was: only rows of the replay store may change. If the invoice tables are those the
  first call left, the two messages are equal. It is the key stored with the invoice that gives this.
\<close>

theorem rpc_OpenInvoice_idempotent:
  assumes "pg_ok w" and "uuid_text (oi_ReservationId req)"
    and "served interval marshal ScopeOpenInvoice (Server_OpenInvoice (main_usecase c tzdb)) cx req w = (Inr p, w1)"
    and "pg_ok v" and "quiet v" and "evolves (pg_book w1) (pg_book v)"
  shows "\<exists>i v'. served interval marshal ScopeOpenInvoice (Server_OpenInvoice (main_usecase c tzdb)) cx req v =
      (Inr (invoiceToProto i), v') \<and> inv_ID i = pi_Id p \<and> pg_book v (inv_ID i) = Some (entry_of i) \<and>
    t_invoice (w_tables v') = t_invoice (w_tables v) \<and> t_invoice_line (w_tables v') = t_invoice_line (w_tables v) \<and>
    outbox v' = outbox v \<and> pg_pays v' = pg_pays v \<and>
    (t_invoice (w_tables v) = t_invoice (w_tables w1) \<longrightarrow> t_invoice_line (w_tables v) = t_invoice_line (w_tables w1) \<longrightarrow>
       invoiceToProto i = p)"
proof -
  let ?h = "Server_OpenInvoice (main_usecase c tzdb)" and ?key = "IdempotencyKeyFromCtx cx"
  have key: "?key \<noteq> []"
    using assms(3) by (auto simp: served_def serverChain_wire idempotencyInterceptor_def Let_def split: if_splits)
  obtain u1 r u2 where u: "reads_only w u1" "?h (with_deadline (w_now w) cx) req u1 = (r, u2)" "wire r = Inr p"
    "pg_book w1 = pg_book u2" "t_invoice (w_tables w1) = t_invoice (w_tables u2)"
    "t_invoice_line (w_tables w1) = t_invoice_line (w_tables u2)"
    using served_guarded [OF key, of w ?h req interval marshal] assms(3) by (metis prod.inject)
  have u1: "pg_ok u1" using u(1) assms(1) by (auto simp: reads_only_def same_tx_def pg_ok_def serials_ok_def)
  obtain x where x: "OpenInvoice (main_usecase c tzdb) (oi_ReservationId req) (oi_DriverId req) ?key u1 = (Inr x, u2)"
    "p = invoiceToProto x"
    using u(2,3) by (auto simp: Server_OpenInvoice_def elim!: andThen_InrE)
  have trim: "TrimSpace (oi_ReservationId req) \<noteq> []" "TrimSpace ?key \<noteq> []"
    using x(1) by (auto simp: OpenInvoice_def split: if_splits)
  have "pg_book u2 (inv_ID x) = Some (entry_of x) \<and> e_key (entry_of x) = ?key"
    using svc.OpenInvoice_ledger [OF u1 x(1)] by (auto simp del: entry_of_sel simp: entry_of_sel(4) [symmetric])
  then obtain e where e: "pg_book v (inv_ID x) = Some e" "e_key e = ?key"
    using evolvesD [OF assms(6), of "inv_ID x" "entry_of x"] u(4) by (metis entry_of_sel(4))
  obtain v1 q v2 v' where v: "reads_only v v1" "?h (with_deadline (w_now v) cx) req v1 = (q, v2)"
    "served interval marshal ScopeOpenInvoice ?h cx req v = (wire q, v')"
    "t_invoice (w_tables v') = t_invoice (w_tables v2)" "t_invoice_line (w_tables v') = t_invoice_line (w_tables v2)"
    "outbox v' = outbox v2" "pg_pays v' = pg_pays v2"
    using served_guarded [OF key, of v ?h req interval marshal] by blast
  have v1: "pg_ok v1" "quiet v1" "pg_book v1 (inv_ID x) = Some e" "w_tables v1 = w_tables v"
    using v(1) assms(4,5) e(1) by (auto simp: reads_only_def same_tx_def pg_ok_def serials_ok_def quiet_def pg_book_def)
  obtain y v3 where y: "OpenInvoice (main_usecase c tzdb) (oi_ReservationId req) (oi_DriverId req) ?key v1 =
      (Inr (invoice_of (w_tables v) y), v3)" "find (\<lambda>r. iv_id r = inv_ID x) (t_invoice (w_tables v)) = Some y"
      "w_tables v3 = w_tables v"
    using OpenInvoice_replay [OF v1(1-3) trim(1) _ assms(2), of c tzdb "oi_DriverId req"] e(2) trim(2) v1(4) by auto
  let ?i = "invoice_of (w_tables v) y"
  have q: "wire q = Inr (invoiceToProto ?i)" "v2 = v3" using v(2) y(1) by (auto simp: Server_OpenInvoice_def wire_def)
  have id: "inv_ID ?i = pi_Id p" using find_Some_mem [OF y(2)] x(2) by (simp add: invoiceToProto_def)
  have "pg_book v (inv_ID ?i) = Some (entry_of ?i)" using y(2) find_Some_mem [OF y(2)] by (simp add: pg_book_def view_def)
  moreover have "invoiceToProto ?i = p" if "t_invoice (w_tables v) = t_invoice (w_tables w1)"
    "t_invoice_line (w_tables v) = t_invoice_line (w_tables w1)"
  proof -
    have "x = invoice_of (w_tables u2) y" using OpenInvoice_row [OF u1 x(1)] y(2) that(1) u(5) by simp
    then have "x = ?i" using that(2) u(6) by (simp add: invoice_of_def lines_of_def)
    then show ?thesis using x(2) by simp
  qed
  ultimately show ?thesis using v(3-7) q y(3) id
    by (intro exI [of _ ?i] exI [of _ v']) (auto simp: outbox_def pg_pays_def)
qed

lemma rpc_first_open:
  "\<exists>p w1. served (\<lambda>_. None) (\<lambda>_. None) ScopeOpenInvoice (Server_OpenInvoice (main_usecase envDefault None)) (keyed reservation_1)
     \<lparr>oi_ReservationId = reservation_1, oi_DriverId = ''d''\<rparr> (init_world (\<lambda>_. None) (\<lambda>_. None) 7) = (Inr p, w1) \<and> pg_ok w1 \<and> quiet w1"
proof -
  let ?w = "init_world (\<lambda>_. None) (\<lambda>_. None) 7" and ?q = "\<lparr>oi_ReservationId = reservation_1, oi_DriverId = ''d''\<rparr>"
  let ?h = "Server_OpenInvoice (main_usecase envDefault None)"
  obtain w1 r w2 w' where s: "reads_only ?w w1" "?h (with_deadline (w_now ?w) (keyed reservation_1)) ?q w1 = (r, w2)"
    "served (\<lambda>_. None) (\<lambda>_. None) ScopeOpenInvoice ?h (keyed reservation_1) ?q ?w = (wire r, w')" "same_tx w2 w'"
    "t_invoice (w_tables w') = t_invoice (w_tables w2)" "t_invoice_line (w_tables w') = t_invoice_line (w_tables w2)"
    "outbox w' = outbox w2"
    using served_guarded [of "keyed reservation_1" ?w ?h ?q "\<lambda>_. None" "\<lambda>_. None"] by auto
  have w1: "quiet w1" "pg_ok w1" "fresh_uuids w1" "pg_book w1 = Map.empty"
    using s(1) init_world_ok init_world_fresh init_world_sel
    by (auto simp: reads_only_def same_tx_def quiet_def pg_ok_def serials_ok_def fresh_uuids_def pg_book_def)
  let ?p = "opened_payload (pricingCfg envDefault) reservation_1 ''d'' reservation_1"
  obtain x u where x: "invoiceRepo_Open reservation_1 ''d'' reservation_1 5000 (Some ?p) w1 = (Inr x, u)"
    using Open_quiet [OF w1(1-3), of "reservation_1" "reservation_1" "''d''" 5000 ?p] w1(4) by auto
  have r: "r = Inr (invoiceToProto x)" "w2 = u"
    using s(2) x by (simp_all add: Server_OpenInvoice_def OpenInvoice_def trimmed NewInvoiceRepository_def envDefault_def)
  have "pg_ok u" "same_tx w1 u" using pg_Open_law [OF w1(2) x] Open_effect [OF x] w1(2) by (auto simp: pg_ok_def)
  then have "pg_ok w'" "quiet w'" using pg_ok_frame [OF _ s(4-7)] w1(1) s(4) r(2) by (auto simp: quiet_def same_tx_def)
  then show ?thesis using s(3) r(1) by simp
qed

theorem rpc_OpenInvoice_idempotent_witness:
  "\<exists>p w1 w2. served (\<lambda>_. None) (\<lambda>_. None) ScopeOpenInvoice (Server_OpenInvoice (main_usecase envDefault None)) (keyed reservation_1)
      \<lparr>oi_ReservationId = reservation_1, oi_DriverId = ''d''\<rparr> (init_world (\<lambda>_. None) (\<lambda>_. None) 7) = (Inr p, w1) \<and>
     served (\<lambda>_. None) (\<lambda>_. None) ScopeOpenInvoice (Server_OpenInvoice (main_usecase envDefault None)) (keyed reservation_1)
      \<lparr>oi_ReservationId = reservation_1, oi_DriverId = ''d''\<rparr> w1 = (Inr p, w2) \<and> outbox w2 = outbox w1"
proof -
  obtain p w1 where 1: "served (\<lambda>_. None) (\<lambda>_. None) ScopeOpenInvoice (Server_OpenInvoice (main_usecase envDefault None)) (keyed reservation_1)
      \<lparr>oi_ReservationId = reservation_1, oi_DriverId = ''d''\<rparr> (init_world (\<lambda>_. None) (\<lambda>_. None) 7) = (Inr p, w1)" "pg_ok w1" "quiet w1"
    using rpc_first_open by blast
  from rpc_OpenInvoice_idempotent [OF init_world_ok _ 1 evolves_refl] 1(1) show ?thesis by fastforce
qed

text \<open>
  What \<open>GetInvoice\<close> tells over gRPC adds up: the message is about the asked invoice, nothing was
  written, its total is the sum of its lines, it has exactly one booking line, its status is OPEN or
  CLOSED and it carries a closing time exactly when it is CLOSED.
\<close>

theorem rpc_GetInvoice_balanced:
  assumes "pg_ok w" and "method \<noteq> ScopeOpenInvoice"
    and "served interval marshal method (Server_GetInvoice (main_usecase c tzdb)) cx iid w = (Inr p, w')"
  shows "w_tables w' = w_tables w \<and> pi_Id p = iid \<and>
    pi_TotalIdr p = sum_list (map pl_AmountIdr (pi_Lines p)) \<and>
    length (filter (\<lambda>l. pl_Kind l = P_BOOKING) (pi_Lines p)) = 1 \<and>
    pi_Status p \<in> {P_OPEN, P_CLOSED} \<and> (pi_Status p = P_CLOSED \<longleftrightarrow> pi_ClosedAt p \<noteq> None)"
proof -
  obtain x where x: "invoiceRepo_GetByID iid w = (Inr x, w')" "p = invoiceToProto x"
    using assms(3) unfolding served_unguarded [OF assms(2)]
    by (auto simp: Server_GetInvoice_def GetInvoice_def NewInvoiceRepository_def split: prod.splits elim!: andThen_InrE)
  have ro: "w_tables w' = w_tables w" using relD [OF read_frames(2) x(1)] by (simp add: reads_only_def)
  have e: "inv_ID x = iid" "balanced (entry_of x)"
    using pg_Get_law [OF assms(1) x(1)] pg.all_balanced [OF assms(1)] by auto
  have "(lineKindToProto k = P_BOOKING) = (k = MLineBooking)" for k by (cases k) simp_all
  then have "length (filter (\<lambda>l. pl_Kind l = P_BOOKING) (pi_Lines p)) = length (filter (\<lambda>l. ml_Kind l = MLineBooking) (inv_LineItems x))"
    by (simp add: x(2) invoiceToProto_def filter_map comp_def)
  also have "\<dots> = size (filter_mset (\<lambda>c. fst c = MLineBooking) (e_charges (entry_of x)))"
    by (simp add: entry_of_def charge_def filter_mset_image_mset comp_def flip: mset_filter size_mset)
  finally have b: "length (filter (\<lambda>l. pl_Kind l = P_BOOKING) (pi_Lines p)) = 1" using e(2) by (simp add: balanced_def)
  have "e_total (entry_of x) = sum_mset (image_mset snd (e_charges (entry_of x)))" using e(2) by (simp add: balanced_def)
  then have "inv_TotalIDR x = sum_list (map ml_AmountIDR (inv_LineItems x))"
    by (simp add: entry_of_def charge_def [abs_def] image_mset.compositionality comp_def flip: sum_mset_sum_list)
  moreover have "inv_Status x = InvoiceOpen \<and> inv_ClosedAt x = None \<or> inv_Status x = InvoiceClosed \<and> inv_ClosedAt x \<noteq> None"
    using e(2) by (auto simp: balanced_def entry_of_def)
  ultimately show ?thesis using ro e(1) b by (auto simp: x(2) invoiceToProto_def comp_def)
qed

theorem rpc_GetInvoice_balanced_witness:
  "\<exists>p. fst (served (\<lambda>_. None) (\<lambda>_. None) ''GetInvoice'' (Server_GetInvoice (main_usecase envDefault None)) (keyed ''k'') ''i''
      (one_world (\<lambda>_. None) (\<lambda>_. None) 7)) = Inr p \<and> pi_Id p = ''i'' \<and>
     pi_TotalIdr p = sum_list (map pl_AmountIdr (pi_Lines p))"
proof -
  let ?w = "one_world (\<lambda>_. None) (\<lambda>_. None) 7" and ?h = "Server_GetInvoice (main_usecase envDefault None)"
  have m: "''GetInvoice'' \<noteq> ScopeOpenInvoice" by (simp add: ScopeOpenInvoice_def)
  have "pg_book ?w ''i'' = Some (new_entry reservation_1 ''d'' ''k'' 5000)" by simp
  from uc_GetByID_quiet [OF _ one_world_ok this] obtain x w' where "invoiceRepo_GetByID ''i'' ?w = (Inr x, w')" by auto
  then have "served (\<lambda>_. None) (\<lambda>_. None) ''GetInvoice'' ?h (keyed ''k'') ''i'' ?w = (Inr (invoiceToProto x), w')"
    unfolding served_unguarded [OF m] by (simp add: Server_GetInvoice_def GetInvoice_def NewInvoiceRepository_def)
  from rpc_GetInvoice_balanced [OF one_world_ok m this] this show ?thesis by auto
qed

lemma epoch_is_zero: "asTime (timestampAsTime None) = 0"
  by (simp add: asTime_def timestampAsTime_def Year_def local_day_FixedZone civil_def year_yday_def month_day_def Let_def)

lemma no_checkin_lines:
  "CheckedInAt s = 0 \<Longrightarrow> CancelledAt s = None \<Longrightarrow> \<not> NoShow s \<Longrightarrow>
    Apply tzdb (NewDefaultEngine cfg) s = Inr [\<lparr>Kind = LineBooking, AmountIDR = BookingFeeIDR cfg, Note = ''booking fee''\<rparr>]"
  by (simp add: Apply_def NewDefaultEngine_def cancellationRule_def noShowRule_def bookingRule_def
      overnightRule_def hourlyRule_def IsZero_def)

text \<open>
  A checkout over gRPC without a check-in time is billed the booking fee only: the absent timestamp
  becomes the zero time, no parking line is priced, and the invoice is CLOSED for good at the booking fee.
\<close>

theorem rpc_CloseInvoice_without_checkin:
  assumes "pg_ok w" and "quiet w" and "fresh_uuids w" and "pg_book w (cl_InvoiceId req) = Some e"
    and "e_status e = InvoiceOpen" and "e_charges e = {#(MLineBooking, cfg_BookingFeeIDR c)#}"
    and "cl_CheckedInAt req = None" and "method \<noteq> ScopeOpenInvoice"
  shows "\<exists>p w'. served interval marshal method (Server_CloseInvoice (main_usecase c tzdb)) cx req w = (Inr p, w') \<and>
    pi_Status p = P_CLOSED \<and> pi_TotalIdr p = cfg_BookingFeeIDR c"
proof -
  let ?s = "close_session tzdb req"
  have s: "CancelledAt ?s = None" "Apply tzdb (NewDefaultEngine (pricingCfg c)) ?s =
      Inr [\<lparr>Kind = LineBooking, AmountIDR = cfg_BookingFeeIDR c, Note = ''booking fee''\<rparr>]"
    using no_checkin_lines [of ?s tzdb "pricingCfg c"] assms(7) by (simp_all add: close_session_def epoch_is_zero)
  obtain x w' where x: "CloseInvoice (main_usecase c tzdb) (cl_InvoiceId req) ?s w = (Inr x, w')"
    "inv_Status x = InvoiceClosed" "inv_TotalIDR x = cfg_BookingFeeIDR c"
    using checkout_quiet [OF assms(1-6) s] by (auto simp: total_def)
  then show ?thesis unfolding served_unguarded [OF assms(8)]
    by (simp add: Server_CloseInvoice_def invoiceToProto_def)
qed

theorem rpc_CloseInvoice_without_checkin_witness:
  "\<exists>p w'. served (\<lambda>_. None) (\<lambda>_. None) ScopeCloseInvoice (Server_CloseInvoice (main_usecase envDefault None)) (keyed ''k'')
      \<lparr>cl_InvoiceId = ''i'', cl_CheckedInAt = None, cl_CheckedOutAt = Some 63913964400000000000\<rparr>
      (one_world (\<lambda>_. None) (\<lambda>_. None) 7) = (Inr p, w') \<and> pi_TotalIdr p = 5000"
proof -
  let ?req = "\<lparr>cl_InvoiceId = ''i'', cl_CheckedInAt = None, cl_CheckedOutAt = Some 63913964400000000000\<rparr> :: CloseInvoiceRequest"
  have m: "ScopeCloseInvoice \<noteq> ScopeOpenInvoice" by (simp add: ScopeOpenInvoice_def ScopeCloseInvoice_def)
  have b: "pg_book (one_world (\<lambda>_. None) (\<lambda>_. None) 7) (cl_InvoiceId ?req) = Some (new_entry reservation_1 ''d'' ''k'' 5000)" by simp
  from rpc_CloseInvoice_without_checkin [OF one_world_ok _ one_world_fresh b _ _ _ m, of envDefault "\<lambda>_. None" "\<lambda>_. None" None "keyed ''k''"]
  show ?thesis by (auto simp: new_entry_def envDefault_def)
qed

text \<open>
  A rejected input is reported as a server failure: \<open>OpenInvoice\<close> over gRPC with a blank reservation
  answers the code INTERNAL, because \<open>mapError\<close> knows no code for validation errors, and writes nothing.
\<close>

theorem rpc_validation_is_internal:
  assumes "IdempotencyKeyFromCtx cx \<noteq> []" and "TrimSpace (oi_ReservationId req) = []"
  shows "\<exists>w'. served interval marshal ScopeOpenInvoice (Server_OpenInvoice (main_usecase c tzdb)) cx req w =
      (Inl (StatusError Internal ''reservation_id required''), w') \<and> pg_book w' = pg_book w \<and> outbox w' = outbox w"
proof -
  let ?h = "Server_OpenInvoice (main_usecase c tzdb)"
  obtain w1 r w2 w' where *: "reads_only w w1" "?h (with_deadline (w_now w) cx) req w1 = (r, w2)"
    "served interval marshal ScopeOpenInvoice ?h cx req w = (wire r, w')" "pg_book w' = pg_book w2" "outbox w' = outbox w2"
    using served_guarded [OF assms(1), of w ?h req interval marshal] by blast
  have "r = Inl (VALIDATION ''reservation_id required'')" "w2 = w1"
    using *(2) assms(2) by (simp_all add: Server_OpenInvoice_def OpenInvoice_def)
  moreover have "wire (Inl (VALIDATION ''reservation_id required'')) = Inl (StatusError Internal ''reservation_id required'')"
    by (simp add: wire_def VALIDATION_def mapError_def appErrorStatus_def)
  ultimately show ?thesis using * by (auto simp: reads_only_def pg_book_def outbox_def)
qed

theorem rpc_validation_is_internal_witness:
  "fst (served (\<lambda>_. None) (\<lambda>_. None) ScopeOpenInvoice (Server_OpenInvoice (main_usecase envDefault None)) (keyed ''k'')
     \<lparr>oi_ReservationId = [], oi_DriverId = ''d''\<rparr> (init_world (\<lambda>_. None) (\<lambda>_. None) 7)) =
   Inl (StatusError Internal ''reservation_id required'')"
  using rpc_validation_is_internal [of "keyed ''k''" "\<lparr>oi_ReservationId = [], oi_DriverId = ''d''\<rparr>"
      "\<lambda>_. None" "\<lambda>_. None" envDefault None "init_world (\<lambda>_. None) (\<lambda>_. None) 7"] by auto

end
