(* ===== verification/Http.thy ===== *)
theory Http
  imports Grpc
begin

text \<open>
  \<^verbatim>\<open>internal/billing/handler/http\<close> and the routing of \<^verbatim>\<open>cmd/billing/main.go\<close>: invoice queries, the webhook of the
  payment gateway, and the split of one port between gRPC and HTTP.
\<close>

section \<open>Requests and responses\<close>

text \<open>
  \<open>rq_Query\<close> is \<open>r.URL.Query().Get\<close>; \<open>rq_Read n\<close> is what one \<open>Read\<close> of the body into a buffer of
  \<open>n\<close> bytes gives: bytes, and the text of an error.
\<close>

record http_request =
  rq_Method :: string
  rq_ProtoMajor :: nat
  rq_ContentType :: string
  rq_Path :: string
  rq_Query :: "string \<Rightarrow> string"
  rq_Read :: "nat \<Rightarrow> string \<times> string option"

datatype http_body = Text string | Json json

record http_response =
  rs_Status :: nat
  rs_Body :: http_body

definition respond :: "nat \<Rightarrow> http_body \<Rightarrow> ('w, goerror, http_response) io" where
  "respond code b = ret \<lparr>rs_Status = code, rs_Body = b\<rparr>"

text \<open>\<open>http.Error\<close> ends the text with a newline.\<close>

definition httpError :: "string \<Rightarrow> nat \<Rightarrow> ('w, goerror, http_response) io" where
  "httpError msg code = respond code (Text (msg @ [CHR 0x0A]))"

section \<open>Invoice queries\<close>

definition invoice_json :: "Invoice \<Rightarrow> json" where
  "invoice_json i =
     JObj [(''id'', JStr (inv_ID i)), (''reservation_id'', JStr (inv_ReservationID i)),
           (''status'', JStr (InvoiceStatus_string (inv_Status i))), (''total_idr'', JInt (sint (inv_TotalIDR i)))]"

text \<open>Every error of the usecase becomes a 404; a panic goes on to the server.\<close>

definition answerInvoice :: "('w, goerror, Invoice) io \<Rightarrow> ('w, goerror, http_response) io" where
  "answerInvoice m =
     attempt m (\<lambda>r. case r of
       Inl (GoPanic msg) \<Rightarrow> throw (GoPanic msg)
     | Inl _ \<Rightarrow> httpError ''{\"error\":\"not_found\"}'' 404
     | Inr i \<Rightarrow> respond 200 (Json (invoice_json i)))"

definition getByID :: "'w billingUsecase \<Rightarrow> string \<Rightarrow> ('w, goerror, http_response) io" where
  "getByID u i = answerInvoice (GetInvoice u i)"

definition invoicesPath :: string where "invoicesPath = ''/v1/invoices''"
definition invoicesPrefix :: string where "invoicesPrefix = ''/v1/invoices/''"

definition byReservation :: "'w billingUsecase \<Rightarrow> http_request \<Rightarrow> ('w, goerror, http_response) io" where
  "byReservation u rq =
     (let resID = rq_Query rq ''reservation_id''
      in if resID = [] then httpError ''{\"error\":\"reservation_id required\"}'' 400
         else answerInvoice (GetInvoiceByReservation u resID))"

definition GetByReservation :: "'w billingUsecase \<Rightarrow> http_request \<Rightarrow> ('w, goerror, http_response) io" where
  "GetByReservation u rq =
     (let path = rq_Path rq
      in if path = invoicesPath then byReservation u rq
         else if length path < length invoicesPrefix then throw (GoPanic ''slice bounds out of range'')
         else if drop (length invoicesPrefix) path \<noteq> [] then getByID u (drop (length invoicesPrefix) path)
         else byReservation u rq)"

section \<open>The webhook\<close>

definition readBody :: "http_request \<Rightarrow> string option + string" where
  "readBody rq =
     (case rq_Read rq 4096 of (b, e) \<Rightarrow> if e \<noteq> None \<and> e \<noteq> Some ''EOF'' then Inl e else Inr b)"

text \<open>
  \<open>json.Unmarshal\<close> into a \<open>map[string]interface{}\<close>, from the value the body denotes: only an object or
  \<open>null\<close> is accepted, and the last of equal keys stays. \<open>v.(string)\<close> succeeds on strings.
\<close>

definition map_lookup :: "string \<Rightarrow> (string \<times> json) list \<Rightarrow> json option" where
  "map_lookup k kvs = map_of (rev kvs) k"

definition string_at :: "string \<Rightarrow> (string \<times> json) list \<Rightarrow> string option" where
  "string_at k kvs = (case map_lookup k kvs of Some (JStr s) \<Rightarrow> Some s | _ \<Rightarrow> None)"

definition getOrderID :: "(string \<times> json) list \<Rightarrow> string" where
  "getOrderID kvs =
     (case string_at ''order_id'' kvs of
        Some s \<Rightarrow> s
      | None \<Rightarrow> (case string_at ''payment_ref'' kvs of Some s \<Rightarrow> s | None \<Rightarrow> []))"

text \<open>\<open>hmac key body\<close> is the hexadecimal HMAC-SHA256 of the standard library.\<close>

definition verifySignature :: "(string \<Rightarrow> string \<Rightarrow> string) \<Rightarrow> string \<Rightarrow> string \<Rightarrow> string \<Rightarrow> bool" where
  "verifySignature hmac sig key body \<longleftrightarrow> sig = hmac key body"

definition signature_rejected :: "(string \<Rightarrow> string \<Rightarrow> string) \<Rightarrow> string \<Rightarrow> string \<Rightarrow> json option \<Rightarrow> bool" where
  "signature_rejected hmac signKey body v \<longleftrightarrow>
     (case Option.bind v object_of of
        None \<Rightarrow> False
      | Some kvs \<Rightarrow>
          (case string_at ''signature_key'' kvs of
             None \<Rightarrow> False
           | Some sig \<Rightarrow> sig \<noteq> [] \<and> \<not> verifySignature hmac sig signKey body))"

text \<open>\<open>parse\<close> gives the JSON value a body denotes, \<open>None\<close> when it is not JSON.\<close>

record 'w WebhookHandler =
  wh_uc :: "'w billingUsecase"
  wh_signKey :: string

definition WebhookHandle :: "(string \<Rightarrow> string \<Rightarrow> string) \<Rightarrow> (string \<Rightarrow> json option) \<Rightarrow> 'w WebhookHandler \<Rightarrow>
    http_request \<Rightarrow> ('w, goerror, http_response) io" where
  "WebhookHandle hmac parse h rq =
     (if rq_Method rq \<noteq> ''POST'' then httpError ''Method not allowed'' 405
      else case readBody rq of
        Inl _ \<Rightarrow> httpError ''Bad request'' 400
      | Inr body \<Rightarrow>
          if signature_rejected hmac (wh_signKey h) body (parse body) then httpError ''Unauthorized'' 401
          else attempt (HandlePaymentNotification (wh_uc h) (parse body)) (\<lambda>r. case r of
            Inl (GoPanic m) \<Rightarrow> throw (GoPanic m)
          | Inl _ \<Rightarrow> httpError ''Internal server error'' 500
          | Inr _ \<Rightarrow> respond 200 (Text ''OK'')))"

section \<open>Routing\<close>

text \<open>
  The patterns registered on the \<open>ServeMux\<close>, for a path in canonical form (the standard library
  redirects the others), and the split by protocol in front of it. \<open>main\<close> gives the webhook an empty key.
\<close>

datatype route = ToGrpc | ToHealth | ToInvoices | ToWebhook | ToNotFound

definition muxRoute :: "string \<Rightarrow> route" where
  "muxRoute path =
     (if path = ''/health'' then ToHealth
      else if path = invoicesPath \<or> prefix invoicesPrefix path then ToInvoices
      else if path = ''/webhook/payment'' then ToWebhook
      else ToNotFound)"

definition grpcHTTPMux :: "http_request \<Rightarrow> route" where
  "grpcHTTPMux rq =
     (if rq_ProtoMajor rq = 2 \<and> prefix ''application/grpc'' (rq_ContentType rq) then ToGrpc
      else muxRoute (rq_Path rq))"

definition serveHTTP :: "(string \<Rightarrow> string \<Rightarrow> string) \<Rightarrow> (string \<Rightarrow> json option) \<Rightarrow> 'w billingUsecase \<Rightarrow>
    ('w, goerror, http_response) io \<Rightarrow> http_request \<Rightarrow> ('w, goerror, http_response) io" where
  "serveHTTP hmac parse u grpc rq =
     (case grpcHTTPMux rq of
        ToGrpc \<Rightarrow> grpc
      | ToHealth \<Rightarrow> respond 200 (Text ''{\"status\":\"ok\"}'')
      | ToInvoices \<Rightarrow> GetByReservation u rq
      | ToWebhook \<Rightarrow> WebhookHandle hmac parse \<lparr>wh_uc = u, wh_signKey = []\<rparr> rq
      | ToNotFound \<Rightarrow> httpError ''404 page not found'' 404)"

section \<open>Reads do not panic\<close>

definition no_panic :: "('w, goerror, 'a) io \<Rightarrow> bool" where
  "no_panic m \<longleftrightarrow> (\<forall>w msg. fst (m w) \<noteq> Inl (GoPanic msg))"

lemma no_panic_andThen [intro]: "no_panic m \<Longrightarrow> (\<And>x. no_panic (k x)) \<Longrightarrow> no_panic (andThen m k)"
  unfolding no_panic_def andThen_def by (auto split: prod.split sum.split) (metis fst_conv)+

lemma no_panic_attempt [intro]: "(\<And>r. (\<And>msg. r \<noteq> Inl (GoPanic msg)) \<Longrightarrow> no_panic (k r)) \<Longrightarrow> no_panic m \<Longrightarrow> no_panic (attempt m k)"
  unfolding no_panic_def attempt_def by (auto split: prod.split) (metis fst_conv)

lemma no_panic_basic [simp, intro]: "no_panic (ret x)" "no_panic (throw e) \<longleftrightarrow> (\<forall>msg. e \<noteq> GoPanic msg)"
  by (auto simp: no_panic_def)

lemma no_panic_db_call [intro]: "no_panic stmt \<Longrightarrow> no_panic (db_call stmt)"
  unfolding no_panic_def db_call_def by (auto split: option.split fault.split) (metis go_of_dberror.elims goerror.distinct)+

lemma no_panic_select [simp, intro]: "no_panic (select_row P tab)"
  by (auto simp: no_panic_def select_row_def split: option.split)

lemma no_panic_uuid_param [intro]: "no_panic stmt \<Longrightarrow> no_panic (uuid_param s stmt)"
  by (auto simp: no_panic_def uuid_param_def)

lemma no_panic_reads:
  "no_panic (invoiceRepo_GetByID i)" "no_panic (invoiceRepo_GetByReservationID i)"
proof -
  have or_nf: "no_panic (orNotFound (db_call stmt))" if "no_panic stmt" for stmt :: "'r dbio"
    unfolding orNotFound_def using that
    by (intro no_panic_attempt no_panic_db_call) (auto simp: ErrNotFound_def split: sum.split)
  have lines: "no_panic (db_call (sql_lines j))" for j
    by (intro no_panic_db_call) (simp add: no_panic_def sql_lines_def)
  show get: "no_panic (invoiceRepo_GetByID i)" for i
    unfolding invoiceRepo_GetByID_def fetchLines_def sql_invoice_by_id_def
    by (intro no_panic_andThen or_nf no_panic_select lines) (auto simp: no_panic_def)
  show "no_panic (invoiceRepo_GetByReservationID i)"
    unfolding invoiceRepo_GetByReservationID_def sql_invoice_by_reservation_def
    by (intro no_panic_andThen or_nf no_panic_uuid_param no_panic_select get)
qed

lemma answerInvoice_reads:
  assumes "no_panic m" "rel reads_only m"
  shows "\<exists>rs w'. answerInvoice m w = (Inr rs, w') \<and> reads_only w w' \<and>
    (rs_Status rs = 200 \<and> (\<exists>i. m w = (Inr i, w') \<and> rs_Body rs = Json (invoice_json i)) \<or>
     rs_Status rs = 404 \<and> (\<exists>e. m w = (Inl e, w')))"
proof -
  obtain r w' where m: "m w = (r, w')" by fastforce
  have ro: "reads_only w w'" using relD [OF assms(2) m] .
  show ?thesis
  proof (cases r)
    case (Inr i)
    then show ?thesis using m ro by (simp add: answerInvoice_def respond_def httpError_def)
  next
    case (Inl e)
    have "fst (m w) \<noteq> Inl (GoPanic msg)" for msg using assms(1) by (simp add: no_panic_def)
    then have "\<forall>msg. e \<noteq> GoPanic msg" using m Inl by simp
    then show ?thesis using m ro Inl by (cases e) (simp_all add: answerInvoice_def respond_def httpError_def)
  qed
qed

lemma answer_truthful:
  assumes "no_panic m" "rel reads_only m" "\<And>i w'. m w = (Inr i, w') \<Longrightarrow> P i"
  shows "\<exists>rs w'. answerInvoice m w = (Inr rs, w') \<and> w_tables w' = w_tables w \<and> rs_Status rs \<in> {200, 400, 404} \<and>
    (rs_Status rs = 200 \<longrightarrow> (\<exists>i. rs_Body rs = Json (invoice_json i) \<and> P i))"
proof -
  obtain rs w' where rs: "answerInvoice m w = (Inr rs, w')" "reads_only w w'"
    "rs_Status rs = 200 \<and> (\<exists>i. m w = (Inr i, w') \<and> rs_Body rs = Json (invoice_json i)) \<or>
     rs_Status rs = 404 \<and> (\<exists>e. m w = (Inl e, w'))" using answerInvoice_reads [OF assms(1,2), of w] by blast
  then show ?thesis using assms(3) [of _ w'] by (intro exI [of _ rs] exI [of _ w']) (auto simp: reads_only_def)
qed

section \<open>Properties\<close>

text \<open>
  The invoice queries over HTTP are safe and truthful: every path the mux sends to the handler is
  answered (no slice is out of range, no read panics), nothing is written, the status is 200, 400 or 404,
  and a 200 answer tells a stored invoice: the one with the identifier in the path, or else the one of the
  reservation in the query.
\<close>

theorem http_invoice_answers:
  assumes "pg_ok w" and "grpcHTTPMux rq = ToInvoices"
  shows "\<exists>rs w'. serveHTTP hmac parse (main_usecase c tzdb) grpc rq w = (Inr rs, w') \<and> w_tables w' = w_tables w \<and>
    rs_Status rs \<in> {200, 400, 404} \<and>
    (rs_Status rs = 200 \<longrightarrow> (\<exists>i. rs_Body rs = Json (invoice_json i) \<and> pg_book w (inv_ID i) = Some (entry_of i) \<and>
       (rq_Path rq = invoicesPrefix @ inv_ID i \<or> inv_ReservationID i = rq_Query rq ''reservation_id'')))"
proof -
  let ?u = "main_usecase c tzdb"
  have serve: "serveHTTP hmac parse ?u grpc rq = GetByReservation ?u rq" by (simp add: serveHTTP_def assms(2))
  have path: "rq_Path rq = invoicesPath \<or> prefix invoicesPrefix (rq_Path rq)"
    using assms(2) by (auto simp: grpcHTTPMux_def muxRoute_def split: if_splits)
  have get: "GetInvoice ?u i = invoiceRepo_GetByID i" "GetInvoiceByReservation ?u i = invoiceRepo_GetByReservationID i" for i
    by (simp_all add: GetInvoice_def GetInvoiceByReservation_def NewInvoiceRepository_def)
  consider (by_id) j where "rq_Path rq = invoicesPrefix @ j" "GetByReservation ?u rq = answerInvoice (invoiceRepo_GetByID j)"
    | (by_res) "GetByReservation ?u rq = byReservation ?u rq"
  proof (cases "rq_Path rq = invoicesPath")
    case True
    then show ?thesis using by_res by (simp add: GetByReservation_def)
  next
    case False
    then obtain j where j: "rq_Path rq = invoicesPrefix @ j" using path by (auto simp: prefix_def)
    show ?thesis
    proof (cases "j = []")
      case True
      then show ?thesis using by_res j False by (simp add: GetByReservation_def)
    next
      case j': False
      then have "GetByReservation ?u rq = answerInvoice (invoiceRepo_GetByID j)"
        using j False by (simp add: GetByReservation_def getByID_def get)
      then show ?thesis by (rule by_id [OF j])
    qed
  qed
  then show ?thesis
  proof cases
    case by_id
    have "pg_book w (inv_ID i) = Some (entry_of i) \<and> (rq_Path rq = invoicesPrefix @ inv_ID i \<or>
        inv_ReservationID i = rq_Query rq ''reservation_id'')" if "invoiceRepo_GetByID j w = (Inr i, w')" for i w'
      using pg_Get_law [OF assms(1) that] by_id(1) by auto
    then show ?thesis unfolding serve by_id(2) by (rule answer_truthful [OF no_panic_reads(1) read_frames(2)])
  next
    case by_res
    show ?thesis
    proof (cases "rq_Query rq ''reservation_id'' = []")
      case True
      then show ?thesis by (simp add: serve by_res byReservation_def respond_def httpError_def)
    next
      case False
      then have "GetByReservation ?u rq = answerInvoice (invoiceRepo_GetByReservationID (rq_Query rq ''reservation_id''))"
        by (simp add: by_res byReservation_def get)
      moreover have "pg_book w (inv_ID i) = Some (entry_of i) \<and> (rq_Path rq = invoicesPrefix @ inv_ID i \<or>
          inv_ReservationID i = rq_Query rq ''reservation_id'')"
        if "invoiceRepo_GetByReservationID (rq_Query rq ''reservation_id'') w = (Inr i, w')" for i w'
        using pg_GetByReservation_law [OF assms(1) that] by auto
      ultimately show ?thesis unfolding serve by (simp only: answer_truthful [OF no_panic_reads(2) read_frames(4)])
    qed
  qed
qed

text \<open>A request for an invoice.\<close>

definition get_request :: "string \<Rightarrow> http_request" where
  "get_request path = \<lparr>rq_Method = ''GET'', rq_ProtoMajor = 1, rq_ContentType = [], rq_Path = path,
     rq_Query = (\<lambda>_. []), rq_Read = (\<lambda>_. ([], Some ''EOF''))\<rparr>"

theorem http_invoice_answers_witness:
  "\<exists>rs w'. serveHTTP (\<lambda>_ _. []) (\<lambda>_. None) (main_usecase envDefault None) (throw ErrNotFound) (get_request ''/v1/invoices/i'')
     (one_world (\<lambda>_. None) (\<lambda>_. None) 7) = (Inr rs, w') \<and> rs_Status rs \<in> {200, 400, 404}"
proof -
  have "grpcHTTPMux (get_request ''/v1/invoices/i'') = ToInvoices"
    by (simp add: grpcHTTPMux_def muxRoute_def get_request_def invoicesPath_def invoicesPrefix_def)
  from http_invoice_answers [OF one_world_ok this, of "\<lambda>_ _. []" "\<lambda>_. None" envDefault None "throw ErrNotFound"]
  show ?thesis by blast
qed

text \<open>
  C39: the webhook can change payment requests only through a well-formed, unrejected notification: for
  every request and every signing key, whatever the webhook answers and whatever fails, the ledger is as
  it was, and if a payment request changed then the method was POST, the body was read, its signature was
  absent, empty or the HMAC of the body under the key, and exactly the requests it names were settled. Absent
  means that the body is no object or has no text under exactly the name \<open>signature_key\<close>: unlike the
  fields of the notification, this name is looked up with its case.
\<close>

theorem webhook_guards:
  assumes "pg_ok w"
    and "WebhookHandle hmac parse \<lparr>wh_uc = main_usecase c tzdb, wh_signKey = key\<rparr> rq w = (r, w')"
  shows "pg_ok w' \<and> pg_book w' = pg_book w \<and>
    (pg_pays w' = pg_pays w \<or>
     (\<exists>body n st ev. rq_Method rq = ''POST'' \<and> readBody rq = Inr body \<and>
        \<not> signature_rejected hmac key body (parse body) \<and>
        Option.bind (parse body) decodeNotification = Some n \<and> new_status n = Some (st, ev) \<and>
        pg_pays w' = map (settle (pn_OrderID n) st (w_now w)) (pg_pays w)))"
proof (cases "\<exists>body. rq_Method rq = ''POST'' \<and> readBody rq = Inr body \<and> \<not> signature_rejected hmac key body (parse body)")
  case False
  then have "w' = w" using assms(2) by (auto simp: WebhookHandle_def respond_def httpError_def split: if_splits sum.splits)
  then show ?thesis using assms(1) by simp
next
  case True
  then obtain body where b: "rq_Method rq = ''POST''" "readBody rq = Inr body" "\<not> signature_rejected hmac key body (parse body)"
    by blast
  obtain q where q: "HandlePaymentNotification (main_usecase c tzdb) (parse body) w = (q, w')"
    using assms(2) b by (auto simp: WebhookHandle_def respond_def httpError_def attempt_def split: prod.splits sum.splits goerror.splits)
  from svcp.HandlePaymentNotification_spec [OF assms(1) q] b show ?thesis by blast
qed

theorem webhook_guards_witness:
  "pg_pays (snd (WebhookHandle (\<lambda>_ _. []) (\<lambda>_. None) \<lparr>wh_uc = main_usecase envDefault None, wh_signKey = []\<rparr>
     (get_request ''/webhook/payment'') (one_world (\<lambda>_. None) (\<lambda>_. None) 7))) = pg_pays (one_world (\<lambda>_. None) (\<lambda>_. None) 7)"
  using webhook_guards [OF one_world_ok surjective_pairing, of "\<lambda>_ _. []" "\<lambda>_. None" envDefault None "[]"
      "get_request ''/webhook/payment''" "\<lambda>_. None" "\<lambda>_. None" 7]
  by (simp add: get_request_def)

section \<open>An unsigned notification\<close>

lemma Update_quiet:
  assumes "quiet w" "w_saved w = None" "find (\<lambda>r. pq_payment_ref r = ref) (t_payment_requests (w_tables w)) = Some q"
  shows "\<exists>x w'. paymentRequestRepo_UpdateStatusByPaymentRef ref st ev (Some p) w = (Inr x, w')"
proof -
  have q: "q \<in> set (t_payment_requests (w_tables w))" using find_Some_mem [OF assms(3)] by simp
  have "find (\<lambda>r. pq_id r = pq_id q) (map (status_row P st now) (t_payment_requests (w_tables w))) \<noteq> None" for P now
  proof -
    have "pq_id (status_row P st now q) = pq_id q" by (simp add: status_row_def)
    then show ?thesis using q by (auto simp: find_None_iff)
  qed
  then show ?thesis using assms
    by (auto simp: quiet_def paymentRequestRepo_UpdateStatusByPaymentRef_def andThen_def attempt_def BeginTxx_def db_call_def
        deferRollback_def orNotFound_def sql_update_status_by_ref_def set_payments_def sql_insert_outbox_def Let_def Commit_def
        paymentRequestRepo_GetByID_def scanPaymentRequest_def sql_payment_by_id_def select_row_def split: option.splits)
qed

lemma notification_quiet:
  assumes "pg_ok w" "quiet w" "decodeNotification v = Some n" "pn_OrderID n \<noteq> []" "new_status n = Some (st, ev)"
    "find (\<lambda>p. pr_PaymentRef p = pn_OrderID n) (pg_pays w) = Some pr"
  shows "\<exists>w' k. HandlePaymentNotification (main_usecase c tzdb) (Some v) w = (Inr (), w') \<and> pg_ok w' \<and> quiet w' \<and>
    w_now w' = w_now w \<and> pg_pays w' = map (settle (pn_OrderID n) st (w_now w)) (pg_pays w) \<and>
    outbox w' = outbox w @ [outbox_row_of k (pr_InvoiceID pr) ev (payment_payload pr st) (w_now w)]"
proof -
  obtain q where q: "find (\<lambda>r. pq_payment_ref r = pn_OrderID n) (t_payment_requests (w_tables w)) = Some q"
    "pr = paymentRequestRow_toModel q" using assms(6) by (auto simp: find_pays)
  have g: "paymentRequestRepo_GetByPaymentRef (pn_OrderID n) w = (Inr pr, tick_call w)"
    using q assms(2)
    by (simp add: paymentRequestRepo_GetByPaymentRef_def scanPaymentRequest_def sql_payment_by_ref_def andThen_def
        orNotFound_def attempt_def quiet_simps select_row_def)
  have t: "quiet (tick_call w)" "w_saved (tick_call w) = None" "pg_ok (tick_call w)" "pg_pays (tick_call w) = pg_pays w"
    "outbox (tick_call w) = outbox w"
    using assms(1,2) by (auto simp: quiet_def pg_ok_def serials_ok_def pg_pays_def outbox_def)
  obtain x w' where x: "paymentRequestRepo_UpdateStatusByPaymentRef (pn_OrderID n) st ev (Some (payment_payload pr st)) (tick_call w) = (Inr x, w')"
    using Update_quiet [OF t(1,2), of "pn_OrderID n" q st ev "payment_payload pr st"] q by auto
  have "ev \<noteq> EvtInvoiceOpened" using assms(5) by (auto simp: new_status_def split: if_splits)
  then have "pg_ok w'" "w_now w' = w_now w" "pg_pays w' = map (settle (pn_OrderID n) st (w_now w)) (pg_pays w)"
    "\<exists>k. outbox w' = outbox w @ [outbox_row_of k (pr_InvoiceID pr) ev (payment_payload pr st) (w_now w)]"
    using pg_Update_law [OF t(3) _ x] t(4,5) assms(6) by auto
  moreover have "quiet w'" using Update_effect [OF t(2) x] t(1) by (auto simp: quiet_def same_tx_def)
  ultimately show ?thesis using assms(3-5) g x by (simp add: HandlePaymentNotification_def NewPaymentRequestRepository_def)
qed

text \<open>
  C40: a notification without a signature is believed. For every signing key, a POST whose body has no
  \<open>signature_key\<close> string and names a stored payment request is answered 200 and gives the request the
  status the body asks for, whatever its amount and its current status, when the database answers.
\<close>

theorem webhook_unsigned_settles:
  assumes "pg_ok w" and "quiet w" and "rq_Method rq = ''POST''" and "readBody rq = Inr body" and "parse body = Some v"
    and "Option.bind (object_of v) (string_at ''signature_key'') = None"
    and "decodeNotification v = Some n" and "pn_OrderID n \<noteq> []" and "new_status n = Some (st, ev)"
    and "find (\<lambda>p. pr_PaymentRef p = pn_OrderID n) (pg_pays w) \<noteq> None"
  shows "\<exists>w'. WebhookHandle hmac parse \<lparr>wh_uc = main_usecase c tzdb, wh_signKey = key\<rparr> rq w =
      (Inr \<lparr>rs_Status = 200, rs_Body = Text ''OK''\<rparr>, w') \<and>
    pg_pays w' = map (settle (pn_OrderID n) st (w_now w)) (pg_pays w)"
proof -
  have "\<not> signature_rejected hmac key body (parse body)"
    using assms(5,6) by (auto simp: signature_rejected_def split: option.splits)
  moreover obtain w' where "HandlePaymentNotification (main_usecase c tzdb) (Some v) w = (Inr (), w')"
    "pg_pays w' = map (settle (pn_OrderID n) st (w_now w)) (pg_pays w)"
    using notification_quiet [OF assms(1,2,7-9), of _ c tzdb] assms(10) by blast
  ultimately show ?thesis using assms(3-5) by (simp add: WebhookHandle_def respond_def httpError_def)
qed

definition unsigned :: json where
  "unsigned = JObj [(''order_id'', JStr ''PAY-''), (''transaction_status'', JStr ''settlement'')]"

definition post_request :: http_request where
  "post_request = (get_request ''/webhook/payment'')\<lparr>rq_Method := ''POST''\<rparr>"

theorem webhook_unsigned_settles_witness:
  "\<exists>w1 w2. pg_pays w1 \<noteq> [] \<and>
     WebhookHandle (\<lambda>_ _. []) (\<lambda>_. Some unsigned) \<lparr>wh_uc = main_usecase envDefault None, wh_signKey = ''secret''\<rparr> post_request w1 =
       (Inr \<lparr>rs_Status = 200, rs_Body = Text ''OK''\<rparr>, w2) \<and>
     pg_pays w2 = map (settle ''PAY-'' PaymentRequestSuccess (w_now w1)) (pg_pays w1)"
proof -
  obtain x w1 where x: "paymentRequestRepo_Create sample_request (one_world (\<lambda>_. None) (\<lambda>_. None) 7) = (Inr x, w1)"
    "quiet w1" "pr_PaymentRef x = ''PAY-''" using sample_Create by blast
  let ?f = "pg_expiry (one_world (\<lambda>_. None) (\<lambda>_. None) 7)"
  have w1: "pg_ok w1" "pg_pays w1 = pg_pays (one_world (\<lambda>_. None) (\<lambda>_. None) 7) @ [as_stored ?f x]"
    using pg_Create_law [OF one_world_ok x(1)] by (auto simp: sample_request_def answers_def)
  let ?n = "\<lparr>pn_OrderID = ''PAY-'', pn_TransactionStatus = ''settlement'', pn_FraudStatus = [], pn_GrossAmount = [], pn_SignatureKey = []\<rparr>"
  have n: "decodeNotification unsigned = Some ?n"
    by (simp add: decodeNotification_def unsigned_def object_of_def as_string_def)
  have f: "find (\<lambda>p. pr_PaymentRef p = pn_OrderID ?n) (pg_pays w1) \<noteq> None"
    using w1(2) x(3) by (simp add: find_append split: option.split)
  have p: "rq_Method post_request = ''POST''" "readBody post_request = Inr []"
    by (simp_all add: post_request_def get_request_def readBody_def)
  have u: "Option.bind (object_of unsigned) (string_at ''signature_key'') = None"
    by (simp add: unsigned_def object_of_def string_at_def map_lookup_def)
  have st: "pn_OrderID ?n \<noteq> []" "new_status ?n = Some (PaymentRequestSuccess, EvtPaymentSuccess)"
    by (simp_all add: new_status_def)
  from webhook_unsigned_settles [OF w1(1) x(2) p refl u n st f, of "\<lambda>_ _. []" envDefault None "''secret''"]
  obtain w2 where w2: "WebhookHandle (\<lambda>_ _. []) (\<lambda>_. Some unsigned)
      \<lparr>wh_uc = main_usecase envDefault None, wh_signKey = ''secret''\<rparr> post_request w1 =
      (Inr \<lparr>rs_Status = 200, rs_Body = Text ''OK''\<rparr>, w2)"
    "pg_pays w2 = map (settle (pn_OrderID ?n) PaymentRequestSuccess (w_now w1)) (pg_pays w1)" by blast
  have "pg_pays w1 \<noteq> []" using w1(2) by simp
  with w2 show ?thesis by - (rule exI [of _ w1], rule exI [of _ w2], simp)
qed

end
