(* ===== verification/Rabbit.thy ===== *)
theory Rabbit
  imports Http
begin

text \<open>
  The rest of \<^verbatim>\<open>pkg/rabbit\<close> (how connections to the broker are set up and taken down, and the header carrier of
  the tracer) and \<^verbatim>\<open>pkg/grpcclient\<close> (the client of the payment service).
\<close>

section \<open>A connection to the broker\<close>

text \<open>
  What a broker client can observe of its connection: whether connection and channel are open, and the
  topology it declared. \<open>am_faults\<close> is the failure script of the calls, indexed by \<open>am_calls\<close>; errors of
  \<open>Close\<close> are dropped by the code.
\<close>

record amqp =
  am_conn :: bool
  am_ch :: bool
  am_exchanges :: "(string \<times> string) list"
  am_queues :: "string list"
  am_bindings :: "(string \<times> string \<times> string) list"
  am_prefetch :: "nat option"
  am_calls :: nat
  am_faults :: "nat \<Rightarrow> string option"

type_synonym 'a amqpio = "(amqp, goerror, 'a) io"

definition amqp_call :: "(amqp \<Rightarrow> amqp) \<Rightarrow> unit amqpio" where
  "amqp_call f a =
     (let a1 = a\<lparr>am_calls := am_calls a + 1\<rparr>
      in case am_faults a (am_calls a) of
           None \<Rightarrow> (Inr (), f a1)
         | Some m \<Rightarrow> (Inl (DriverError m), a1))"

definition Dial :: "unit amqpio" where
  "Dial = amqp_call (\<lambda>a. a\<lparr>am_conn := True\<rparr>)"

definition Channel :: "unit amqpio" where
  "Channel = amqp_call (\<lambda>a. a\<lparr>am_ch := True\<rparr>)"

definition ExchangeDeclare :: "string \<Rightarrow> unit amqpio" where
  "ExchangeDeclare exchange = amqp_call (\<lambda>a. a\<lparr>am_exchanges := am_exchanges a @ [(exchange, ''topic'')]\<rparr>)"

definition QueueDeclare :: "string \<Rightarrow> unit amqpio" where
  "QueueDeclare queue = amqp_call (\<lambda>a. a\<lparr>am_queues := am_queues a @ [queue]\<rparr>)"

definition QueueBind :: "string \<Rightarrow> string \<Rightarrow> string \<Rightarrow> unit amqpio" where
  "QueueBind queue key exchange = amqp_call (\<lambda>a. a\<lparr>am_bindings := am_bindings a @ [(queue, key, exchange)]\<rparr>)"

definition Qos :: "nat \<Rightarrow> unit amqpio" where
  "Qos n = amqp_call (\<lambda>a. a\<lparr>am_prefetch := Some n\<rparr>)"

definition closeConn :: "unit amqpio" where
  "closeConn a = (Inr (), a\<lparr>am_conn := False\<rparr>)"

definition closeCh :: "unit amqpio" where
  "closeCh a = (Inr (), a\<lparr>am_ch := False\<rparr>)"

text \<open>\<open>if err := m; err != nil { cleanup; return nil, fmt.Errorf("what: %w", err) }\<close>.\<close>

definition orFail :: "('s, goerror, 'a) io \<Rightarrow> ('s, goerror, unit) io \<Rightarrow> string \<Rightarrow> ('s, goerror, unit) io" where
  "orFail m cleanup what =
     attempt m (\<lambda>r. case r of Inl e \<Rightarrow> andThen cleanup (\<lambda>_. throw (FmtWrap what e)) | Inr _ \<Rightarrow> ret ())"

definition closeBoth :: "unit amqpio" where
  "closeBoth = andThen closeCh (\<lambda>_. closeConn)"

definition NewPublisher :: "string \<Rightarrow> unit amqpio" where
  "NewPublisher exchange =
     andThen (orFail Dial (ret ()) ''amqp dial'') (\<lambda>_.
     andThen (orFail Channel closeConn ''amqp channel'') (\<lambda>_.
     orFail (ExchangeDeclare exchange) closeBoth ''exchange declare''))"

fun bindAll :: "string \<Rightarrow> string \<Rightarrow> string list \<Rightarrow> unit amqpio" where
  "bindAll queue exchange [] = ret ()"
| "bindAll queue exchange (k # ks) =
     andThen (orFail (QueueBind queue k exchange) closeBoth (''queue bind '' @ k)) (\<lambda>_. bindAll queue exchange ks)"

definition NewSubscriber :: "string \<Rightarrow> string \<Rightarrow> string list \<Rightarrow> unit amqpio" where
  "NewSubscriber exchange queue routingKeys =
     andThen (orFail Dial (ret ()) ''amqp dial'') (\<lambda>_.
     andThen (orFail Channel closeConn ''amqp channel'') (\<lambda>_.
     andThen (orFail (ExchangeDeclare exchange) closeBoth ''exchange declare'') (\<lambda>_.
     andThen (orFail (QueueDeclare queue) closeBoth ''queue declare'') (\<lambda>_.
     andThen (bindAll queue exchange routingKeys) (\<lambda>_.
     orFail (Qos 10) closeBoth ''qos'')))))"

text \<open>\<open>Close\<close> of a publisher or a subscriber, whose connection and channel are never nil.\<close>

definition Publisher_Close :: "unit amqpio" where
  "Publisher_Close = closeBoth"

definition Subscriber_Close :: "unit amqpio" where
  "Subscriber_Close = closeBoth"

text \<open>The keys \<open>main\<close> subscribes to.\<close>

definition subscribedKeys :: "string list" where
  "subscribedKeys = [EvtReservationCreated, EvtReservationCancelled, EvtReservationExpired, EvtReservationCheckedOut]"

section \<open>The header carrier\<close>

datatype field_value = FString string | FOther

definition carrier_Get :: "(string \<rightharpoonup> field_value) \<Rightarrow> string \<Rightarrow> string" where
  "carrier_Get headers key = (case headers key of Some (FString s) \<Rightarrow> s | _ \<Rightarrow> [])"

definition carrier_Set :: "(string \<rightharpoonup> field_value) \<Rightarrow> string \<Rightarrow> string \<Rightarrow> (string \<rightharpoonup> field_value)" where
  "carrier_Set headers key val = headers(key \<mapsto> FString val)"

text \<open>The keys, in the unspecified order of a map.\<close>

definition carrier_Keys :: "(string \<rightharpoonup> field_value) \<Rightarrow> string set" where
  "carrier_Keys headers = dom headers"

section \<open>The client of the payment service\<close>

text \<open>The generated stub is a parameter: what it answers to a request.\<close>

record CreateQrisIntentResponse =
  qr_PaymentId :: string
  qr_SnapToken :: string
  qr_RedirectUrl :: string
  qr_PgReference :: string
  qr_ExpiresAt :: "Time option"

record PPayment =
  py_Id :: string
  py_InvoiceId :: string
  py_Method :: string
  py_Status :: string
  py_PgReference :: string
  py_AmountIdr :: int64
  py_CreatedAt :: "Time option"
  py_PaidAt :: "Time option"

definition paymentClient_CreateQrisIntent :: "(string \<times> int64 \<Rightarrow> ('w, goerror, CreateQrisIntentResponse) io) \<Rightarrow>
    string \<Rightarrow> int64 \<Rightarrow> ('w, goerror, QrisIntentResult) io" where
  "paymentClient_CreateQrisIntent stub invoiceID amountIDR =
     andThen (stub (invoiceID, amountIDR)) (\<lambda>resp.
       ret \<lparr>qi_PaymentID = qr_PaymentId resp, qi_SnapToken = qr_SnapToken resp, qi_RedirectURL = qr_RedirectUrl resp,
            qi_PgReference = qr_PgReference resp,
            qi_ExpiresAt = (case qr_ExpiresAt resp of None \<Rightarrow> 0 | Some t \<Rightarrow> t)\<rparr>)"

definition paymentClient_GetPayment :: "(string \<Rightarrow> ('w, goerror, PPayment) io) \<Rightarrow> string \<Rightarrow> ('w, goerror, PaymentResult) io" where
  "paymentClient_GetPayment stub paymentID =
     andThen (stub paymentID) (\<lambda>resp.
       ret \<lparr>ps_ID = py_Id resp, ps_InvoiceID = py_InvoiceId resp, ps_Method = py_Method resp, ps_Status = py_Status resp,
            ps_PgReference = py_PgReference resp, ps_AmountIDR = py_AmountIdr resp,
            ps_CreatedAt = timestampAsTime (py_CreatedAt resp), ps_PaidAt = py_PaidAt resp\<rparr>)"

text \<open>The client as the interface the usecase sees, over the two methods of the stub.\<close>

definition paymentClient :: "(string \<times> int64 \<Rightarrow> ('w, goerror, CreateQrisIntentResponse) io) \<Rightarrow>
    (string \<Rightarrow> ('w, goerror, PPayment) io) \<Rightarrow> 'w PaymentClient" where
  "paymentClient createQrisIntent getPayment =
     \<lparr>CreateQrisIntent = paymentClient_CreateQrisIntent createQrisIntent, GetPayment = paymentClient_GetPayment getPayment\<rparr>"

section \<open>Facts and properties\<close>

lemma orFail_cases:
  assumes "orFail m cleanup what a = (r, a')"
  obtains (failed) e a1 where "m a = (Inl e, a1)" "andThen cleanup (\<lambda>_. throw (FmtWrap what e)) a1 = (r, a')"
  | (fine) x where "m a = (Inr x, a')" "r = Inr ()"
  using assms by (auto simp: orFail_def attempt_def split: prod.splits sum.splits)

lemma amqp_call_cases:
  assumes "amqp_call f a = (r, a')"
  obtains (failed) e where "r = Inl e" "a' = a\<lparr>am_calls := am_calls a + 1\<rparr>"
  | (fine) "r = Inr ()" "a' = f (a\<lparr>am_calls := am_calls a + 1\<rparr>)"
  using assms by (auto simp: amqp_call_def Let_def split: option.splits)

text \<open>An open session, and one that was taken down.\<close>

definition session_open :: "amqp \<Rightarrow> bool" where "session_open a \<longleftrightarrow> am_conn a \<and> am_ch a"
definition session_down :: "amqp \<Rightarrow> bool" where "session_down a \<longleftrightarrow> \<not> am_conn a \<and> \<not> am_ch a"

text \<open>
  \<open>declares m Q\<close>: run in an open session, \<open>m\<close> fails and takes the session down, or succeeds, keeps it open
  and relates the states by \<open>Q\<close>. Steps compose.
\<close>

definition declares :: "unit amqpio \<Rightarrow> (amqp \<Rightarrow> amqp \<Rightarrow> bool) \<Rightarrow> bool" where
  "declares m Q \<longleftrightarrow> (\<forall>a r a'. session_open a \<longrightarrow> m a = (r, a') \<longrightarrow>
     (\<exists>e. r = Inl e) \<and> session_down a' \<or> r = Inr () \<and> session_open a' \<and> Q a a')"

lemma declaresD:
  "declares m Q \<Longrightarrow> session_open a \<Longrightarrow> m a = (r, a') \<Longrightarrow>
    (\<exists>e. r = Inl e) \<and> session_down a' \<or> r = Inr () \<and> session_open a' \<and> Q a a'"
  by (simp add: declares_def)

lemma declares_andThen: "declares m P \<Longrightarrow> declares k Q \<Longrightarrow> declares (andThen m (\<lambda>_. k)) (P OO Q)"
  unfolding declares_def by (fastforce elim!: andThen_E)

lemma declares_mono: "declares m P \<Longrightarrow> (\<And>a a'. P a a' \<Longrightarrow> Q a a') \<Longrightarrow> declares m Q"
  unfolding declares_def by blast

lemma declare_step:
  assumes "\<And>a. am_conn (f a) = am_conn a \<and> am_ch (f a) = am_ch a"
  shows "declares (orFail (amqp_call f) closeBoth what) (\<lambda>a a'. a' = f (a\<lparr>am_calls := am_calls a + 1\<rparr>))"
  unfolding declares_def
proof (intro allI impI)
  fix a r a'
  assume o1: "session_open a" and "orFail (amqp_call f) closeBoth what a = (r, a')"
  from this(2) show "(\<exists>e. r = Inl e) \<and> session_down a' \<or>
      r = Inr () \<and> session_open a' \<and> a' = f (a\<lparr>am_calls := am_calls a + 1\<rparr>)"
  proof (cases rule: orFail_cases)
    case (failed e a1)
    then show ?thesis by (auto simp: closeBoth_def closeCh_def closeConn_def andThen_def session_down_def)
  next
    case (fine x)
    from fine(1) show ?thesis using fine o1 assms by (cases rule: amqp_call_cases) (auto simp: session_open_def)
  qed
qed

lemma declare_steps:
  "declares (orFail (ExchangeDeclare x) closeBoth what) (\<lambda>a a'. am_bindings a' = am_bindings a)"
  "declares (orFail (QueueDeclare q) closeBoth what) (\<lambda>a a'. am_bindings a' = am_bindings a)"
  "declares (orFail (QueueBind q k x) closeBoth what) (\<lambda>a a'. am_bindings a' = am_bindings a @ [(q, k, x)])"
  "declares (orFail (Qos n) closeBoth what) (\<lambda>a a'. am_bindings a' = am_bindings a \<and> am_prefetch a' = Some n)"
  unfolding ExchangeDeclare_def QueueDeclare_def QueueBind_def Qos_def
  by (rule declares_mono [OF declare_step]; simp)+

lemma bindAll_declares:
  "declares (bindAll queue exchange ks) (\<lambda>a a'. am_bindings a' = am_bindings a @ map (\<lambda>k. (queue, k, exchange)) ks)"
proof (induction ks)
  case Nil
  then show ?case by (simp add: declares_def)
next
  case (Cons k ks)
  show ?case unfolding bindAll.simps
    by (rule declares_mono [OF declares_andThen [OF declare_steps(3) Cons.IH]]) auto
qed

lemma connect_step:
  assumes "session_down a"
    "andThen (orFail Dial (ret ()) ''amqp dial'') (\<lambda>_. orFail Channel closeConn ''amqp channel'') a = (r, a')"
  shows "(\<exists>e. r = Inl e) \<and> session_down a' \<or>
    r = Inr () \<and> session_open a' \<and> am_bindings a' = am_bindings a \<and> am_exchanges a' = am_exchanges a"
  using assms(2)
proof (cases rule: andThen_E)
  case (failed e)
  from failed(1) show ?thesis using failed(2) assms(1) unfolding Dial_def
    by (auto elim!: orFail_cases amqp_call_cases simp: session_down_def)
next
  case (went_on x a1)
  have a1: "am_conn a1" "\<not> am_ch a1" "am_bindings a1 = am_bindings a" "am_exchanges a1 = am_exchanges a"
    using went_on(1) assms(1) unfolding Dial_def by (auto elim!: orFail_cases amqp_call_cases simp: session_down_def)
  from went_on(2) show ?thesis using a1 unfolding Channel_def
    by (auto elim!: orFail_cases amqp_call_cases simp: session_down_def session_open_def closeConn_def andThen_def)
qed

lemma andThen_assoc: "andThen (andThen m k) l = andThen m (\<lambda>x. andThen (k x) l)"
  by (auto simp: andThen_def fun_eq_iff split: prod.split sum.split)

text \<open>
  No set-up of a subscriber leaks a connection: starting with nothing open, whichever call to the broker
  fails, an error leaves neither connection nor channel open, and success leaves both open, the queue
  bound to every routing key in order, and the prefetch limit at 10, and \<open>Close\<close> takes both down.
\<close>

theorem NewSubscriber_no_leak:
  assumes "session_down a" and "NewSubscriber exchange queue keys a = (r, a')"
  shows "(\<exists>e. r = Inl e) \<and> session_down a' \<or>
    r = Inr () \<and> session_open a' \<and> am_prefetch a' = Some 10 \<and>
    am_bindings a' = am_bindings a @ map (\<lambda>k. (queue, k, exchange)) keys \<and>
    session_down (snd (Subscriber_Close a'))"
proof -
  define rest where "rest = andThen (orFail (ExchangeDeclare exchange) closeBoth ''exchange declare'') (\<lambda>_.
        andThen (orFail (QueueDeclare queue) closeBoth ''queue declare'') (\<lambda>_.
        andThen (bindAll queue exchange keys) (\<lambda>_. orFail (Qos 10) closeBoth ''qos'')))"
  have split: "NewSubscriber exchange queue keys =
      andThen (andThen (orFail Dial (ret ()) ''amqp dial'') (\<lambda>_. orFail Channel closeConn ''amqp channel'')) (\<lambda>_. rest)"
    by (simp add: NewSubscriber_def andThen_assoc rest_def)
  have rest: "declares rest (\<lambda>a a'. am_prefetch a' = Some 10 \<and>
      am_bindings a' = am_bindings a @ map (\<lambda>k. (queue, k, exchange)) keys)" unfolding rest_def
    by (rule declares_mono [OF declares_andThen [OF declare_steps(1) declares_andThen [OF declare_steps(2)
          declares_andThen [OF bindAll_declares declare_steps(4)]]]]) auto
  have down: "session_down (snd (Subscriber_Close x))" for x
    by (simp add: Subscriber_Close_def closeBoth_def closeCh_def closeConn_def andThen_def session_down_def)
  from assms(2) [unfolded split] show ?thesis
  proof (cases rule: andThen_E)
    case (failed e)
    then show ?thesis using connect_step [OF assms(1) failed(1)] by auto
  next
    case (went_on x a1)
    then show ?thesis using connect_step [OF assms(1) went_on(1)] declaresD [OF rest _ went_on(2)] down by auto
  qed
qed

definition fresh_amqp :: "(nat \<Rightarrow> string option) \<Rightarrow> amqp" where
  "fresh_amqp faults = \<lparr>am_conn = False, am_ch = False, am_exchanges = [], am_queues = [], am_bindings = [],
     am_prefetch = None, am_calls = 0, am_faults = faults\<rparr>"

theorem NewSubscriber_no_leak_witness:
  "session_down (snd (NewSubscriber ''x'' ''q'' subscribedKeys (fresh_amqp (\<lambda>n. if n = 5 then Some ''refused'' else None))))"
proof -
  let ?a = "fresh_amqp (\<lambda>n. if n = 5 then Some ''refused'' else None)"
  have d: "session_down ?a" by (simp add: session_down_def fresh_amqp_def)
  have "fst (NewSubscriber ''x'' ''q'' subscribedKeys ?a) \<noteq> Inr ()"
    by (simp add: NewSubscriber_def subscribedKeys_def fresh_amqp_def orFail_def attempt_def andThen_def amqp_call_def Let_def
        Dial_def Channel_def ExchangeDeclare_def QueueDeclare_def QueueBind_def closeBoth_def closeCh_def closeConn_def)
  with NewSubscriber_no_leak [OF d surjective_pairing, of "''x''" "''q''" subscribedKeys] show ?thesis by auto
qed

text \<open>
  The header carrier returns what was set: reading a key after setting it gives the value, and setting
  a key changes no other.
\<close>

lemma carrier_roundtrip: "carrier_Get (carrier_Set headers k v) j = (if j = k then v else carrier_Get headers j)"
  by (simp add: carrier_Get_def carrier_Set_def)

lemma carrier_keys: "carrier_Keys (carrier_Set headers k v) = insert k (carrier_Keys headers)"
  by (auto simp: carrier_Keys_def carrier_Set_def)

end
