(* ===== verification/Invariants.thy ===== *)
theory Invariants
  imports Rabbit
begin

text \<open>
  How an invariant of the database travels from the SQL statements to the entry points of the service, in two
  locales: what every statement keeps of the rows, every repository operation keeps, committed or rolled
  back; and what every repository operation keeps, every usecase operation and handler keeps.
\<close>

section \<open>Invariants of rows\<close>

text \<open>
  \<open>tx_holds J\<close>: the tables at work satisfy \<open>J\<close>, and so do those that a rollback of the open transaction
  restores. \<open>row_stable J m\<close>: the statement \<open>m\<close> keeps \<open>J\<close> of the tables at work.
\<close>

definition tx_holds :: "(world \<Rightarrow> tables \<Rightarrow> bool) \<Rightarrow> world \<Rightarrow> bool" where
  "tx_holds J w \<longleftrightarrow> J w (w_tables w) \<and> (\<forall>t. w_saved w = Some t \<longrightarrow> J w t)"

definition row_stable :: "(world \<Rightarrow> tables \<Rightarrow> bool) \<Rightarrow> 'a dbio \<Rightarrow> bool" where
  "row_stable J m \<longleftrightarrow> (\<forall>w r w'. J w (w_tables w) \<longrightarrow> m w = (r, w') \<longrightarrow> J w' (w_tables w'))"

lemma row_stableI: "(\<And>w r w'. J w (w_tables w) \<Longrightarrow> m w = (r, w') \<Longrightarrow> J w' (w_tables w')) \<Longrightarrow> row_stable J m"
  unfolding row_stable_def by blast

lemma row_stableD: "row_stable J m \<Longrightarrow> J w (w_tables w) \<Longrightarrow> m w = (r, w') \<Longrightarrow> J w' (w_tables w')"
  unfolding row_stable_def by blast

lemma tx_holds_idle: "w_saved w = None \<Longrightarrow> tx_holds J w \<longleftrightarrow> J w (w_tables w)"
  by (simp add: tx_holds_def)

lemmas statement_defs =
  sql_insert_invoice_def sql_insert_line_def sql_close_invoice_def sql_add_total_def sql_insert_payment_request_def
  sql_update_status_def sql_update_status_by_ref_def sql_idem_put_def new_uuid_def set_payments_def Let_def uuid_param_def

lemma new_uuid_frame [frame_intros]: "rel same_tx new_uuid"
  by (auto simp: rel_def new_uuid_def same_tx_def)

lemma idem_put_frame [frame_intros]: "rel same_tx (sql_idem_put interval scope key p ttl)"
  by (auto simp: rel_def sql_idem_put_def same_tx_def Let_def split: option.split)

lemma keeps_pair [inv_intros]: "keeps I (Pair r)"
  by (rule keepsI) simp

lemma keeps_clock [inv_intros]: "keeps I (\<lambda>w. (f w, w))"
  by (rule keepsI) auto

text \<open>
  \<open>row_invariant J\<close>: \<open>J\<close> depends on the tables, what was sent and the identifiers still to be drawn only, and
  every statement on invoices, lines, outbox and idempotency keys keeps it.
\<close>

locale row_invariant =
  fixes J :: "world \<Rightarrow> tables \<Rightarrow> bool"
  assumes env: "J w t \<Longrightarrow> w_uuid w' = w_uuid w \<Longrightarrow> w_sent w' = w_sent w \<Longrightarrow> w_draws w \<le> w_draws w' \<Longrightarrow> J w' t"
    and stable_insert_invoice: "row_stable J (sql_insert_invoice res drv fee idem)"
    and stable_insert_line: "row_stable J (sql_insert_line i k a m)"
    and stable_insert_outbox: "row_stable J (sql_insert_outbox i ev q)"
    and stable_close_invoice: "row_stable J (sql_close_invoice i n)"
    and stable_add_total: "row_stable J (sql_add_total i n)"
    and stable_idem_put: "row_stable J (sql_idem_put interval scope key p ttl)"
begin

lemma keeps_stable: "row_stable J m \<Longrightarrow> rel same_tx m \<Longrightarrow> keeps (tx_holds J) m"
proof (rule keepsI)
  fix w r w'
  assume st: "row_stable J m" and fr: "rel same_tx m" and I: "tx_holds J w" and run: "m w = (r, w')"
  have "J w' t" if "J w t" for t using env [OF that, of w'] relD [OF fr run] by (simp add: same_tx_def)
  then show "tx_holds J w'" using row_stableD [OF st _ run] relD [OF fr run] I by (auto simp: tx_holds_def same_tx_def)
qed

lemma tx_holds_reads: "tx_holds J w \<Longrightarrow> reads_only w w' \<Longrightarrow> tx_holds J w'"
  by (auto simp: tx_holds_def reads_only_def same_tx_def elim!: env)

lemma keeps_reads: "rel reads_only m \<Longrightarrow> keeps (tx_holds J) m"
  by (rule keepsI) (auto dest!: relD elim: tx_holds_reads)

lemma keeps_call [inv_intros]: "keeps (tx_holds J) stmt \<Longrightarrow> keeps (tx_holds J) (db_call stmt)"
  by (rule keeps_db_call) (auto elim: tx_holds_reads)

lemma keeps_statements [inv_intros]:
  "keeps (tx_holds J) (sql_insert_invoice res drv fee idem)" "keeps (tx_holds J) (sql_insert_line i k a m)"
  "keeps (tx_holds J) (sql_insert_outbox i ev q)" "keeps (tx_holds J) (sql_close_invoice i n)"
  "keeps (tx_holds J) (sql_add_total i n)" "keeps (tx_holds J) (sql_idem_put interval scope key p ttl)"
  by (intro keeps_stable frame_intros stable_insert_invoice stable_insert_line stable_insert_outbox stable_close_invoice
      stable_add_total stable_idem_put)+

lemma keeps_uuid [inv_intros]: "keeps (tx_holds J) new_uuid"
  by (rule keepsI) (auto simp: new_uuid_def tx_holds_def elim!: env)

lemma tx_holds_rollback: "tx_holds J w \<Longrightarrow> tx_holds J (rollback w)"
  by (auto simp: tx_holds_def rollback_def split: option.splits elim!: env)

lemma keeps_tx [inv_intros]: "keeps (tx_holds J) BeginTxx" "keeps (tx_holds J) Rollback" "keeps (tx_holds J) Commit"
proof -
  show "keeps (tx_holds J) BeginTxx"
    by (rule keepsI) (auto simp: BeginTxx_def tx_holds_def split: option.splits fault.splits elim!: env)
  show "keeps (tx_holds J) Rollback" by (rule keepsI) (auto simp: Rollback_def tx_holds_rollback)
  have tick: "tx_holds J (tick_call w)" if "tx_holds J w" for w by (rule tx_holds_reads [OF that]) simp
  have committed: "tx_holds J ((tick_call w)\<lparr>w_saved := None\<rparr>)" if "tx_holds J w" for w
    using tick [OF that] by (auto simp: tx_holds_def elim!: env)
  show "keeps (tx_holds J) Commit"
    by (intro keepsI, elim Commit_E) (simp_all add: committed tx_holds_rollback tick)
qed

lemma keeps_deferRollback [inv_intros]: "keeps (tx_holds J) m \<Longrightarrow> keeps (tx_holds J) (deferRollback m)"
  by (rule keepsI) (auto simp: deferRollback_def tx_holds_rollback split: prod.splits dest!: keepsD)

lemma keeps_orNotFound [inv_intros]: "keeps (tx_holds J) m \<Longrightarrow> keeps (tx_holds J) (orNotFound m)"
  unfolding orNotFound_def by (auto intro!: inv_intros split: sum.split)

lemma keeps_select [inv_intros]:
  "keeps (tx_holds J) (sql_invoice_by_id i)" "keeps (tx_holds J) (invoiceRepo_GetByID i)"
  "keeps (tx_holds J) (invoiceRepo_findByIdem i)" "keeps (tx_holds J) (invoiceRepo_GetByReservationID i)"
  "keeps (tx_holds J) (paymentRequestRepo_GetByID i)" "keeps (tx_holds J) (paymentRequestRepo_GetByPaymentRef i)"
  "keeps (tx_holds J) (postgresStore_Get scope key)"
  by (intro keeps_reads frame_intros)+

lemma keeps_insertLine [inv_intros]: "keeps (tx_holds J) (insertLine i l)"
  unfolding insertLine_def Let_def by (intro inv_intros)

lemma keeps_closeLines [inv_intros]: "keeps (tx_holds J) (closeLines i ls n)"
  by (induction i ls n rule: closeLines.induct) (auto intro!: inv_intros)

lemma keeps_Open: "keeps (tx_holds J) (invoiceRepo_Open res drv idem fee evt)"
  unfolding invoiceRepo_Open_def by (auto intro!: inv_intros split: sum.split)

lemma keeps_Close: "keeps (tx_holds J) (invoiceRepo_Close i ls evt)"
  unfolding invoiceRepo_Close_def by (auto intro!: inv_intros)

lemma keeps_AppendLine: "keeps (tx_holds J) (invoiceRepo_AppendLine i l evt)"
  unfolding invoiceRepo_AppendLine_def by (auto intro!: inv_intros)

lemma keeps_Put: "keeps (tx_holds J) (postgresStore_Put interval scope key p ttl)"
  unfolding postgresStore_Put_def by (auto intro!: inv_intros)

text \<open>An update of statuses is kept when its statement is.\<close>

lemma keeps_Update:
  assumes "row_stable J (sql_update_status_by_ref ref st)"
  shows "keeps (tx_holds J) (paymentRequestRepo_UpdateStatusByPaymentRef ref st ev p)"
  unfolding paymentRequestRepo_UpdateStatusByPaymentRef_def
  by (auto intro!: inv_intros keeps_stable [OF assms] frame_intros)

end

section \<open>Invariants of the repositories\<close>

text \<open>
  What every operation of the repositories of \<open>main\<close> keeps, every usecase operation and every handler keeps.
  The two payment operations of the usecase are taken as a whole, since what they store depends on their input.
\<close>

locale repository_invariant =
  fixes I :: "world \<Rightarrow> bool"
  assumes Open [inv_intros]: "keeps I (invoiceRepo_Open res drv idem fee evt)"
    and Close [inv_intros]: "keeps I (invoiceRepo_Close i ls evt)"
    and AppendLine [inv_intros]: "keeps I (invoiceRepo_AppendLine i l evt)"
    and GetByID [inv_intros]: "keeps I (invoiceRepo_GetByID i)"
    and GetByReservationID [inv_intros]: "keeps I (invoiceRepo_GetByReservationID res)"
    and Get [inv_intros]: "keeps I (postgresStore_Get scope key)"
    and Put [inv_intros]: "keeps I (postgresStore_Put interval scope key payload ttl)"
    and payments [inv_intros]: "keeps I (CreatePaymentRequest (main_usecase c tzdb) input)"
      "keeps I (HandlePaymentNotification (main_usecase c tzdb) body)"
begin

lemma keeps_lookup [inv_intros]: "keeps I (lookupMSISDN (main_usecase c tzdb) d)"
  unfolding lookupMSISDN_def by (auto intro!: inv_intros)

lemma keeps_usecase [inv_intros]:
  "keeps I (OpenInvoice (main_usecase c tzdb) res drv key)"
  "keeps I (CloseInvoice (main_usecase c tzdb) i s)"
  "keeps I (GetInvoice (main_usecase c tzdb) i)"
  "keeps I (GetInvoiceByReservation (main_usecase c tzdb) res)"
  "keeps I (getOpenInvoice (main_usecase c tzdb) res)"
  "keeps I (appendFee (main_usecase c tzdb) iv res k a reason)"
  unfolding OpenInvoice_def CloseInvoice_def GetInvoice_def GetInvoiceByReservation_def getOpenInvoice_def appendFee_def
  by (auto simp: NewInvoiceRepository_def intro!: inv_intros split: sum.split)

lemma keeps_cancelFees [inv_intros]: "keeps I (cancelFees (main_usecase c tzdb) i res ls)"
  by (induction ls) (auto intro!: inv_intros)

lemma keeps_fees [inv_intros]:
  "keeps I (ApplyCancelFee (main_usecase c tzdb) res t1 t2)" "keeps I (ApplyNoShowFee (main_usecase c tzdb) res)"
  unfolding ApplyCancelFee_def ApplyNoShowFee_def by (auto intro!: inv_intros split: option.split)

lemma keeps_handleCancelled [inv_intros]: "keeps I (handleCancelled (main_usecase c tzdb) ev)"
  by (rule keepsI) (auto simp: handleCancelled_def Let_def dest: keepsD [OF keeps_fees(1)])

lemma keeps_Handle [inv_intros]: "keeps I (Handle (main_usecase c tzdb) k body)"
  unfolding Handle_def decoded_def handleCreated_def handleExpired_def handleCheckedOut_def
  by (auto intro!: inv_intros split: option.split)

lemma keeps_handlers [inv_intros]:
  "keeps I (Server_OpenInvoice (main_usecase c tzdb) cx rq)"
  "keeps I (Server_CloseInvoice (main_usecase c tzdb) cx rq')"
  "keeps I (Server_GetInvoice (main_usecase c tzdb) cx i)"
  "keeps I (Server_CreatePaymentRequest (main_usecase c tzdb) cx rq'')"
  unfolding Server_OpenInvoice_def Server_CloseInvoice_def Server_GetInvoice_def Server_CreatePaymentRequest_def
  by (auto intro!: inv_intros)

lemma keeps_idempotency:
  assumes "keeps I (h c req)"
  shows "keeps I (idempotencyInterceptor (NewPostgresStore interval) methods marshal method h c req)"
  using assms unfolding idempotencyInterceptor_def runAndCache_def Let_def NewPostgresStore_def
  by (auto intro!: inv_intros split: sum.split bool.split option.split)

lemma keeps_served:
  assumes "\<And>c. keeps I (h c req)"
  shows "keeps I (served interval marshal method h c req)"
proof (rule keepsI)
  fix w r w'
  assume I: "I w" and "served interval marshal method h c req w = (r, w')"
  then obtain q where "idempotencyInterceptor (NewPostgresStore interval) [ScopeOpenInvoice] marshal method h
      (with_deadline (w_now w) c) req w = (q, w')" by (auto simp: served_def serverChain_wire split: prod.splits)
  then show "I w'" by (rule keepsD [OF keeps_idempotency [where h = h, OF assms] I])
qed

lemma keeps_web:
  assumes "keeps I grpc"
  shows "keeps I (serveHTTP hmac parse (main_usecase c tzdb) grpc rq)"
  using assms unfolding serveHTTP_def GetByReservation_def byReservation_def getByID_def answerInvoice_def WebhookHandle_def
    respond_def httpError_def Let_def
  by (auto intro!: inv_intros split: route.split sum.split goerror.split)

end

text \<open>A row invariant that the statements on payment requests keep as well is one of the repositories.\<close>

locale payment_row_invariant = row_invariant +
  assumes stable_insert_payment: "row_stable J (sql_insert_payment_request req)"
    and stable_update_status: "row_stable J (sql_update_status_by_ref ref st)"
begin

lemma keeps_Create [inv_intros]: "keeps (tx_holds J) (paymentRequestRepo_Create req)"
  unfolding paymentRequestRepo_Create_def Let_def
  by (auto intro!: inv_intros keeps_stable [OF stable_insert_payment] frame_intros split: sum.split)

lemma keeps_payments:
  "keeps (tx_holds J) (CreatePaymentRequest (main_usecase c tzdb) input)"
  "keeps (tx_holds J) (HandlePaymentNotification (main_usecase c tzdb) body)"
  unfolding CreatePaymentRequest_def HandlePaymentNotification_def generatePaymentIntent_def Let_def
  by (auto simp: NewInvoiceRepository_def NewPaymentRequestRepository_def
      intro!: inv_intros keeps_Update stable_update_status split: option.split)

end

sublocale payment_row_invariant \<subseteq> repository_invariant "tx_holds J"
  by unfold_locales (rule keeps_Open keeps_Close keeps_AppendLine keeps_select keeps_Put keeps_payments)+

end
