(* ===== verification/Delivery.thy ===== *)
theory Delivery
  imports Invariants
begin

text \<open>
  Invariants of rows, from the statements to the entry points. No operation of the service other than
  the outbox worker sends anything, and none loses or forges an event; rows get identifiers that were drawn for
  them; and rows of the outbox stay with identifier and message. And what stored rows look like.
\<close>

section \<open>Events and identifiers\<close>

definition rows_sent :: "(string \<times> json) list \<Rightarrow> tables \<Rightarrow> bool" where
  "rows_sent sent t \<longleftrightarrow>
     (\<forall>o1 \<in> set (t_outbox_event t). ob_published_at o1 \<noteq> None \<longrightarrow> message o1 \<in> set sent) \<and>
     set sent \<subseteq> message ` set (t_outbox_event t)"

definition sound_rows :: "world \<Rightarrow> tables \<Rightarrow> bool" where
  "sound_rows w t \<longleftrightarrow> rows_sent (w_sent w) t \<and> fresh_uuids (w\<lparr>w_tables := t\<rparr>)"

abbreviation tx_sound :: "world \<Rightarrow> bool" where
  "tx_sound \<equiv> tx_holds sound_rows"

lemma tx_sound_idle: "w_saved w = None \<Longrightarrow> tx_sound w \<longleftrightarrow> delivered w \<and> fresh_uuids w"
  by (simp add: tx_holds_idle sound_rows_def delivered_def rows_sent_def outbox_def)

text \<open>A statement that leaves the outbox alone keeps \<open>sound_rows\<close> when it keeps identifiers fresh.\<close>

lemma stable_frame:
  assumes "\<And>w r w'. m w = (r, w') \<Longrightarrow> w_sent w' = w_sent w \<and> outbox w' = outbox w"
    and "\<And>w r w'. fresh_uuids w \<Longrightarrow> m w = (r, w') \<Longrightarrow> fresh_uuids w'"
  shows "row_stable sound_rows m"
proof (rule row_stableI)
  fix w r w'
  assume "sound_rows w (w_tables w)" and run: "m w = (r, w')"
  then show "sound_rows w' (w_tables w')"
    using assms(1) [OF run] assms(2) [OF _ run] by (simp add: sound_rows_def rows_sent_def outbox_def)
qed

lemma sound_outbox: "row_stable sound_rows (sql_insert_outbox i n p)"
  by (rule row_stableI) (auto simp: sql_insert_outbox_def sound_rows_def rows_sent_def fresh_uuids_def Let_def split: option.splits)

interpretation sound: payment_row_invariant sound_rows
proof (unfold_locales, goal_cases)
  case (1 w t w')
  then show ?case by (auto simp: sound_rows_def fresh_uuids_def)
next
  case (4 i ev q)
  then show ?case by (rule sound_outbox)
qed (rule stable_frame; auto simp: statement_defs outbox_def fresh_uuids_def close_row_def add_row_def
      split: if_splits option.splits)+

section \<open>Outbox rows stay\<close>

definition has_rows :: "(int \<times> string \<times> json) set \<Rightarrow> tables \<Rightarrow> bool" where
  "has_rows X t \<longleftrightarrow> X \<subseteq> (\<lambda>o1. (ob_id o1, message o1)) ` set (t_outbox_event t)"

interpretation rows: payment_row_invariant "\<lambda>_. has_rows X" for X
proof (unfold_locales, goal_cases)
  case (4 i ev q)
  then show ?case by (intro row_stableI) (auto simp: has_rows_def sql_insert_outbox_def split: option.splits)
qed (assumption | rule row_stableI, auto simp: statement_defs has_rows_def split: if_splits option.splits)+

section \<open>What stored rows look like\<close>

text \<open>
  A payment request is for a positive amount by QRIS or card, is pending or settled, has an expiry time, and
  belongs to a stored invoice of its reservation. The kind of an invoice line is one of the five of the enum.
\<close>

definition homes :: "tables \<Rightarrow> (string \<times> string) set" where
  "homes t = (\<lambda>r. (iv_id r, iv_reservation_id r)) ` set (t_invoice t)"

definition conforms :: "tables \<Rightarrow> payment_request_row \<Rightarrow> bool" where
  "conforms t q \<longleftrightarrow> 0 < sint (pq_amount_idr q) \<and> pq_method q \<in> {PaymentMethodQRIS, PaymentMethodCC} \<and>
     pq_status q \<in> {PaymentRequestPending, PaymentRequestSuccess, PaymentRequestFailed} \<and> pq_expires_at q \<noteq> None \<and>
     (pq_invoice_id q, pq_reservation_id q) \<in> homes t"

definition well_typed :: "tables \<Rightarrow> bool" where
  "well_typed t \<longleftrightarrow> (\<forall>q \<in> set (t_payment_requests t). conforms t q) \<and>
     (\<forall>l \<in> set (t_invoice_line t). \<forall>k. ln_kind l \<noteq> MLineKindOther k)"

lemma homes_upd [simp]:
  "homes (t\<lparr>t_invoice := map (close_row now i n) (t_invoice t)\<rparr>) = homes t"
  "homes (t\<lparr>t_invoice := map (add_row i n) (t_invoice t)\<rparr>) = homes t"
  "homes (t\<lparr>t_invoice := t_invoice t @ [r]\<rparr>) = insert (iv_id r, iv_reservation_id r) (homes t)"
  "homes (t\<lparr>t_invoice_line := ls\<rparr>) = homes t" "homes (t\<lparr>t_outbox_event := os\<rparr>) = homes t"
  "homes (t\<lparr>t_payment_requests := ps\<rparr>) = homes t" "homes (t\<lparr>t_idempotency_key := ks\<rparr>) = homes t"
proof -
  have "iv_id (close_row now i n r) = iv_id r" "iv_reservation_id (close_row now i n r) = iv_reservation_id r"
    "iv_id (add_row i n r) = iv_id r" "iv_reservation_id (add_row i n r) = iv_reservation_id r" for r
    by (simp_all add: close_row_def add_row_def)
  then show "homes (t\<lparr>t_invoice := map (close_row now i n) (t_invoice t)\<rparr>) = homes t"
    "homes (t\<lparr>t_invoice := map (add_row i n) (t_invoice t)\<rparr>) = homes t" by (simp_all add: homes_def image_image)
qed (simp_all add: homes_def)

lemma conform_frame:
  assumes "well_typed t" "t_payment_requests t' = t_payment_requests t" "homes t \<subseteq> homes t'"
    "t_invoice_line t' = t_invoice_line t"
  shows "well_typed t'"
  using assms by (auto simp: well_typed_def conforms_def)

lemma stable_conform:
  assumes "\<And>w r w'. m w = (r, w') \<Longrightarrow> t_payment_requests (w_tables w') = t_payment_requests (w_tables w) \<and>
      homes (w_tables w) \<subseteq> homes (w_tables w') \<and> t_invoice_line (w_tables w') = t_invoice_line (w_tables w)"
  shows "row_stable (\<lambda>_. well_typed) m"
  by (rule row_stableI) (use assms conform_frame in blast)

interpretation conform: row_invariant "\<lambda>_. well_typed"
proof (unfold_locales, goal_cases)
  case (1 w t w')
  then show ?case by simp
next
  case (3 i k a m)
  have kind: "line_error t x i k = None \<Longrightarrow> \<forall>s. k \<noteq> MLineKindOther s" for t x by (cases k) (auto simp: line_error_def)
  show ?case
    by (rule row_stableI) (auto simp: sql_insert_line_def well_typed_def conforms_def Let_def split: option.splits dest!: kind)
qed (rule stable_conform, auto simp: statement_defs sql_insert_outbox_def split: if_splits option.splits)+

lemma row_stable_settle:
  "st \<in> {PaymentRequestSuccess, PaymentRequestFailed} \<Longrightarrow> row_stable (\<lambda>_. well_typed) (sql_update_status_by_ref ref st)"
  by (rule row_stableI) (auto simp: statement_defs well_typed_def conforms_def status_row_def split: option.splits)

lemma conform_Create:
  assumes "tx_holds (\<lambda>_. well_typed) w" "paymentRequestRepo_Create req w = (r, w')"
    "0 < sint (pr_AmountIDR req)" "pr_Method req \<in> {PaymentMethodQRIS, PaymentMethodCC}" "pr_Status req = PaymentRequestPending"
    "(pr_InvoiceID req, pr_ReservationID req) \<in> homes (w_tables w)"
    "w_saved w = None"
  shows "tx_holds (\<lambda>_. well_typed) w'"
proof -
  obtain ident w1 s where c: "same_tx w w1" "w_tables w1 = w_tables w"
    "db_call (sql_insert_payment_request (filled ident req)) w1 = (s, w')"
    using Create_cases [OF assms(2)] by (elim exE conjE) (rule that)
  have "w_saved w' = None" using insert_payment_E [OF c(3)] assms(7) c(1) by (simp add: same_tx_def)
  moreover have "well_typed (w_tables w')" using c(3)
  proof (cases rule: db_call_E)
    case (failed e)
    then show ?thesis using assms(1) c(2) by (simp add: tx_holds_def)
  qed (use assms c(2) in \<open>auto simp: statement_defs well_typed_def conforms_def tx_holds_def filled_def split: if_splits\<close>)
  ultimately show ?thesis by (simp add: tx_holds_def)
qed

text \<open>Between operations no transaction is open.\<close>

lemma keeps_conj: "keeps I m \<Longrightarrow> keeps J m \<Longrightarrow> keeps (\<lambda>w. I w \<and> J w) m"
  by (simp add: keeps_def)

lemma idle_tx: "keeps (\<lambda>w. w_saved w = None) (andThen BeginTxx (\<lambda>_. deferRollback m))"
  by (rule keepsI) (auto simp: deferRollback_def reads_only_def same_tx_def elim!: andThen_E BeginTxx_E split: prod.splits)

lemma idle_same: "rel same_tx m \<Longrightarrow> keeps (\<lambda>w. w_saved w = None) m"
  by (rule keepsI) (auto simp: same_tx_def dest: relD)

lemma idle_ops:
  "keeps (\<lambda>w. w_saved w = None) (invoiceRepo_Open res drv idem fee evt)"
  "keeps (\<lambda>w. w_saved w = None) (invoiceRepo_Close i ls evt)"
  "keeps (\<lambda>w. w_saved w = None) (invoiceRepo_AppendLine i l evt)"
  "keeps (\<lambda>w. w_saved w = None) (paymentRequestRepo_UpdateStatusByPaymentRef ref st ev p)"
  unfolding invoiceRepo_Open_def invoiceRepo_Close_def invoiceRepo_AppendLine_def paymentRequestRepo_UpdateStatusByPaymentRef_def
  by (rule idle_tx)+

lemma idle_reads:
  "keeps (\<lambda>w. w_saved w = None) (invoiceRepo_GetByID i)" "keeps (\<lambda>w. w_saved w = None) (invoiceRepo_GetByReservationID i)"
  "keeps (\<lambda>w. w_saved w = None) (paymentRequestRepo_GetByPaymentRef i)"
  "keeps (\<lambda>w. w_saved w = None) (postgresStore_Get scope key)"
  by (intro idle_same rel_weaken frame_intros)+

lemma idle_Put: "keeps (\<lambda>w. w_saved w = None) (postgresStore_Put interval scope key p ttl)"
  unfolding postgresStore_Put_def by (auto intro!: idle_same rel_db_call frame_intros)

definition at_rest :: "world \<Rightarrow> bool" where
  "at_rest w \<longleftrightarrow> tx_holds (\<lambda>_. well_typed) w \<and> w_saved w = None"

lemma keeps_at_rest: "keeps (tx_holds (\<lambda>_. well_typed)) m \<Longrightarrow> keeps (\<lambda>w. w_saved w = None) m \<Longrightarrow> keeps at_rest m"
  by (simp add: keeps_def at_rest_def)

lemma GetByReservation_home:
  assumes "invoiceRepo_GetByReservationID res w = (Inr i, w')"
  shows "(inv_ID i, res) \<in> homes (w_tables w)"
proof -
  obtain r w1 where r: "r \<in> set (t_invoice (w_tables w))" "iv_reservation_id r = res"
    "invoiceRepo_GetByID (iv_id r) w1 = (Inr i, w')"
    using assms unfolding invoiceRepo_GetByReservationID_def orNotFound_def sql_invoice_by_reservation_def select_row_def
    by (auto elim!: andThen_InrE attempt_E dest!: db_call_Inr uuid_param_InrD find_Some_mem split: sum.splits option.splits if_splits)
  then have "inv_ID i = iv_id r" using GetByID_Inr [OF r(3)] find_Some_mem by fastforce
  then show ?thesis using r(1,2) by (auto simp: homes_def image_iff intro!: bexI [of _ r])
qed

text \<open>The two payment operations read, and then at most create one request, or settle those of one reference.\<close>

lemma CreatePaymentRequest_runs:
  assumes "CreatePaymentRequest (main_usecase c tzdb) input w = (r, w')"
  obtains (reads) "reads_only w w'"
  | (creates) i w1 req s where "payment_input_error input = None" "reads_only w w1"
      "invoiceRepo_GetByReservationID (ci_ReservationID input) w = (Inr i, w1)" "paymentRequestRepo_Create req w1 = (s, w')"
      "pr_AmountIDR req = ci_AmountIDR input" "pr_Method req = to_PaymentMethod (payment_method input)"
      "pr_Status req = PaymentRequestPending" "pr_InvoiceID req = inv_ID i" "pr_ReservationID req = ci_ReservationID input"
proof (cases "payment_input_error input")
  case (Some e)
  then show ?thesis using assms reads by (simp add: CreatePaymentRequest_def)
next
  case None
  obtain g w1 where g: "invoiceRepo_GetByReservationID (ci_ReservationID input) w = (g, w1)"
    by (cases "invoiceRepo_GetByReservationID (ci_ReservationID input) w")
  have "rel reads_only (invoiceRepo_GetByReservationID (ci_ReservationID input))" by (intro frame_intros)
  from relD [OF this g] have ro: "reads_only w w1" .
  show ?thesis
  proof (cases g)
    case (Inl e)
    then show ?thesis using assms None g ro reads
      by (auto simp: CreatePaymentRequest_def NewInvoiceRepository_def andThen_def)
  next
    case (Inr i)
    obtain req s where "paymentRequestRepo_Create req w1 = (s, w')"
      "pr_AmountIDR req = ci_AmountIDR input" "pr_Method req = to_PaymentMethod (payment_method input)"
      "pr_Status req = PaymentRequestPending" "pr_InvoiceID req = inv_ID i" "pr_ReservationID req = ci_ReservationID input"
      using assms None g Inr
      by (auto simp: CreatePaymentRequest_def generatePaymentIntent_def NewInvoiceRepository_def NewPaymentRequestRepository_def
          andThen_def Let_def split: prod.splits sum.splits if_splits)
    then show ?thesis using creates [OF None ro g [unfolded Inr]] by blast
  qed
qed

lemma Notification_runs:
  assumes "HandlePaymentNotification (main_usecase c tzdb) body w = (r, w')"
  obtains (reads) "reads_only w w'"
  | (settles) n st ev pr w1 s where "reads_only w w1" "new_status n = Some (st, ev)"
      "paymentRequestRepo_GetByPaymentRef (pn_OrderID n) w = (Inr pr, w1)"
      "paymentRequestRepo_UpdateStatusByPaymentRef (pn_OrderID n) st ev (Some (payment_payload pr st)) w1 = (s, w')"
proof (cases "\<exists>n. Option.bind body decodeNotification = Some n \<and> pn_OrderID n \<noteq> []")
  case False
  then show ?thesis using assms reads
    by (auto simp: HandlePaymentNotification_def NewPaymentRequestRepository_def split: option.splits if_splits)
next
  case True
  then obtain n where n: "Option.bind body decodeNotification = Some n" "pn_OrderID n \<noteq> []" by blast
  obtain g w1 where g: "paymentRequestRepo_GetByPaymentRef (pn_OrderID n) w = (g, w1)"
    by (cases "paymentRequestRepo_GetByPaymentRef (pn_OrderID n) w")
  have ro: "reads_only w w1" by (rule relD [OF payment_read_frames(2) g])
  have run: "HandlePaymentNotification (main_usecase c tzdb) body =
      andThen (paymentRequestRepo_GetByPaymentRef (pn_OrderID n)) (\<lambda>pr. case new_status n of None \<Rightarrow> ret ()
        | Some (st, ev) \<Rightarrow> andThen (paymentRequestRepo_UpdateStatusByPaymentRef (pn_OrderID n) st ev
            (Some (payment_payload pr st))) (\<lambda>_. ret ()))"
    using n by (simp add: HandlePaymentNotification_def NewPaymentRequestRepository_def cong del: option.case_cong_weak)
  show ?thesis
  proof (cases "\<exists>pr st ev. g = Inr pr \<and> new_status n = Some (st, ev)")
    case False
    then show ?thesis using assms g ro reads unfolding run by (auto simp: andThen_def split: sum.splits option.splits)
  next
    case True
    then obtain pr st ev where p: "g = Inr pr" "new_status n = Some (st, ev)" by blast
    obtain s where "paymentRequestRepo_UpdateStatusByPaymentRef (pn_OrderID n) st ev (Some (payment_payload pr st)) w1 = (s, w')"
      using assms g p unfolding run by (auto simp: andThen_def split: sum.splits prod.splits)
    then show ?thesis using settles [OF ro p(2)] g p(1) by blast
  qed
qed

lemma rest_CreatePaymentRequest: "keeps at_rest (CreatePaymentRequest (main_usecase c tzdb) input)"
proof (rule keepsI)
  fix w r w'
  assume I: "at_rest w" and run: "CreatePaymentRequest (main_usecase c tzdb) input w = (r, w')"
  have ro: "at_rest v" if "reads_only w v" for v
    using I that conform.tx_holds_reads [of w v] by (simp add: at_rest_def reads_only_def same_tx_def)
  from run show "at_rest w'"
  proof (cases rule: CreatePaymentRequest_runs)
    case reads
    then show ?thesis by (rule ro)
  next
    case (creates i w1 req s)
    have I1: "at_rest w1" using creates(2) by (rule ro)
    have h: "(pr_InvoiceID req, pr_ReservationID req) \<in> homes (w_tables w1)"
      using GetByReservation_home [OF creates(3)] creates(2,8,9) by (simp add: reads_only_def)
    have "w_saved w' = None" using Create_effect [OF creates(4)] I1 by (simp add: at_rest_def same_tx_def)
    then show ?thesis using conform_Create [OF _ creates(4) _ _ creates(7) h] I1 creates(1,5,6)
      by (auto simp: at_rest_def payment_input_error_def to_PaymentMethod_def split: if_splits)
  qed
qed

lemma rest_Notification: "keeps at_rest (HandlePaymentNotification (main_usecase c tzdb) body)"
proof -
  have "keeps at_rest (paymentRequestRepo_UpdateStatusByPaymentRef ref st ev p)"
    if "new_status n = Some (st, ev)" for ref st ev p n
    using that by (intro keeps_at_rest conform.keeps_Update row_stable_settle idle_ops) (auto simp: new_status_def split: if_splits)
  moreover have "keeps at_rest (paymentRequestRepo_GetByPaymentRef ref)" for ref
    by (intro keeps_at_rest conform.keeps_select idle_reads)
  ultimately show ?thesis unfolding HandlePaymentNotification_def
    by (auto simp: NewPaymentRequestRepository_def intro!: inv_intros split: option.split)
qed

interpretation rest: repository_invariant at_rest
  by unfold_locales (rule rest_CreatePaymentRequest rest_Notification keeps_at_rest conform.keeps_Open conform.keeps_Close
      conform.keeps_AppendLine conform.keeps_select conform.keeps_Put idle_ops idle_reads idle_Put)+

end
