(* ===== verification/Tariff.thy ===== *)
theory Tariff
  imports Consumer
begin

text \<open>
  The abstract specification of the service: a machine whose state is the account, that is, the ledger of
  invoices, the payment requests, and the messages for other services. It opens invoices with the booking
  fee, closes them with a bill of the pricing engine, charges the fees of the tariff, each at most once, takes
  payment requests and settles them, and says so in the same step. The running service moves its account
  by steps of this machine only.
\<close>

section \<open>The machine\<close>

type_synonym account = "ledger \<times> PaymentRequest list \<times> (string \<times> json) list"

text \<open>
  The sessions that are billed at checkout: a car that was neither cancelled nor a no-show. The parameter
  \<open>late\<close> says whether a fee may come after the invoice was closed.
\<close>

definition parked :: "Session \<Rightarrow> bool" where
  "parked s \<longleftrightarrow> CancelledAt s = None \<and> \<not> NoShow s \<and> VehicleTypeOf s = VehicleCar"

definition fee_tariff :: "Config \<Rightarrow> (MLineKind \<times> int64) list" where
  "fee_tariff cfg = [(MLineCancellation, CancelFeeIDR cfg), (MLineNoShow, NoShowFeeIDR cfg)]"

definition settlements :: "(PaymentRequestStatus \<times> string) list" where
  "settlements = [(PaymentRequestSuccess, EvtPaymentSuccess), (PaymentRequestFailed, EvtPaymentFailed)]"

text \<open>A payment request as it is taken: for a stored invoice of its reservation, as asked.\<close>

definition requests :: "ledger \<Rightarrow> PaymentRequest \<Rightarrow> bool" where
  "requests b q \<longleftrightarrow> (\<exists>input e now. payment_input_error input = None \<and> b (pr_InvoiceID q) = Some e \<and>
     e_reservation e = ci_ReservationID input \<and> pr_ReservationID q = ci_ReservationID input \<and>
     pr_AmountIDR q = ci_AmountIDR input \<and> pr_Method q = to_PaymentMethod (payment_method input) \<and>
     pr_Status q = PaymentRequestPending \<and> pr_ExpiresAt q = Add now (15 * Minute) \<and> pr_PaymentRef q = ''PAY-'' @ pr_ID q)"

inductive billing_step :: "bool \<Rightarrow> Location option \<Rightarrow> Config \<Rightarrow> account \<Rightarrow> account \<Rightarrow> bool" for late tzdb cfg where
  opened: "b iid = None \<Longrightarrow> \<forall>e \<in> ran b. e_reservation e \<noteq> res \<and> e_key e \<noteq> key \<Longrightarrow>
    billing_step late tzdb cfg (b, ps, ms)
      (b(iid \<mapsto> new_entry res drv key (BookingFeeIDR cfg)), ps, ms @ [(EvtInvoiceOpened, opened_payload cfg res drv key)])"
| closed: "b iid = Some e \<Longrightarrow> e_status e = InvoiceOpen \<Longrightarrow> parked s \<Longrightarrow>
    Apply tzdb (NewDefaultEngine cfg) s = Inr ls \<Longrightarrow> \<forall>i. cur = Some i \<longrightarrow> inv_DriverID i = e_driver e \<Longrightarrow>
    billing_step late tzdb cfg (b, ps, ms)
      (b(iid \<mapsto> closed_entry now (dbLines ls) e), ps, ms @ [(EvtInvoiceClosed, closed_payload iid ls cur [])])"
| fee: "b (inv_ID i) = Some e \<Longrightarrow> late \<or> e_status e = InvoiceOpen \<Longrightarrow> (k, a) \<in> set (fee_tariff cfg) \<Longrightarrow>
    k \<notin> fst ` set_mset (e_charges e) \<Longrightarrow>
    billing_step late tzdb cfg (b, ps, ms)
      (b(inv_ID i \<mapsto> charged [fee_line k a reason] e), ps, ms @ [(EvtInvoiceClosed, fee_payload i (e_reservation e) k a)])"
| requested: "requests b q \<Longrightarrow> billing_step late tzdb cfg (b, ps, ms) (b, ps @ [q], ms)"
| settled: "find (\<lambda>p. pr_PaymentRef p = ref) ps = Some q \<Longrightarrow> (st, ev) \<in> set settlements \<Longrightarrow>
    billing_step late tzdb cfg (b, ps, ms) (b, map (settle ref st now) ps, ms @ [(ev, payment_payload q st)])"

inductive_cases billing_stepE: "billing_step late tzdb cfg a a'"

abbreviation billing_run :: "bool \<Rightarrow> Location option \<Rightarrow> Config \<Rightarrow> account \<Rightarrow> account \<Rightarrow> bool" where
  "billing_run late tzdb cfg \<equiv> (billing_step late tzdb cfg)\<^sup>*\<^sup>*"

lemma fee_tariff_one_off: "(k, a) \<in> set (fee_tariff cfg) \<Longrightarrow> one_off k"
  by (auto simp: fee_tariff_def one_off_def)

lemma new_status_settles: "new_status n = Some (st, ev) \<Longrightarrow> (st, ev) \<in> set settlements"
  by (auto simp: new_status_def settlements_def split: if_splits)

lemma billing_step_late: "billing_step False tzdb cfg a a' \<Longrightarrow> billing_step True tzdb cfg a a'"
  by (erule billing_stepE) (auto intro: billing_step.intros)

lemma billing_run_late: "billing_run False tzdb cfg a a' \<Longrightarrow> billing_run True tzdb cfg a a'"
  by (rule rtranclp_mono [THEN predicate2D]) (auto intro: billing_step_late)

section \<open>What it keeps\<close>

lemma closed_entry_sel [simp]:
  "e_status (closed_entry now ls e) = InvoiceClosed" "e_reservation (closed_entry now ls e) = e_reservation e"
  "e_key (closed_entry now ls e) = e_key e" "e_driver (closed_entry now ls e) = e_driver e"
  "e_driver (charged ls e) = e_driver e"
  by (simp_all add: closed_entry_def charged_def)

text \<open>Without late fees an entry that is not OPEN never changes.\<close>

lemma billing_step_evolves:
  assumes "billing_step False tzdb cfg a a'"
  shows "evolves (fst a) (fst a')"
  using assms
proof (cases rule: billing_step.cases)
  case (opened b iid res key ps ms drv)
  then show ?thesis using evolves_new [of b iid] by simp
next
  case (closed b iid e s ls cur ps ms now)
  then show ?thesis using evolves_upd [of b iid e "closed_entry now (dbLines ls) e"] by simp
next
  case (fee b i e k a ps ms reason)
  then show ?thesis using evolves_upd [of b "inv_ID i" e "charged [fee_line k a reason] e"] by simp
qed auto

lemma billing_run_evolves: "billing_run False tzdb cfg a a' \<Longrightarrow> evolves (fst a) (fst a')"
  by (induction rule: rtranclp_induct) (auto intro: evolves_trans billing_step_evolves)

text \<open>
  An entry has the charges of the tariff: the booking fee while OPEN, a bill of the engine when CLOSED,
  and besides them at most one fee of each kind; and everything it is charged for has been announced.
\<close>

definition billed :: "Location option \<Rightarrow> Config \<Rightarrow> string \<Rightarrow> (string \<times> json) list \<Rightarrow> entry \<Rightarrow>
    (MLineKind \<times> int64) multiset \<Rightarrow> bool" where
  "billed tzdb cfg iid ms e bill \<longleftrightarrow>
     e_status e = InvoiceOpen \<and> bill = {#(MLineBooking, BookingFeeIDR cfg)#} \<or>
     e_status e = InvoiceClosed \<and> (\<exists>s ls cur. parked s \<and> Apply tzdb (NewDefaultEngine cfg) s = Inr ls \<and>
       bill = mset (map line_charge ls) \<and> (\<forall>i. cur = Some i \<longrightarrow> inv_DriverID i = e_driver e) \<and>
       (EvtInvoiceClosed, closed_payload iid ls cur []) \<in> set ms)"

definition fee_announced :: "string \<Rightarrow> (string \<times> json) list \<Rightarrow> entry \<Rightarrow> MLineKind \<times> int64 \<Rightarrow> bool" where
  "fee_announced iid ms e c \<longleftrightarrow>
     (\<exists>i. inv_ID i = iid \<and> (EvtInvoiceClosed, fee_payload i (e_reservation e) (fst c) (snd c)) \<in> set ms)"

definition tariffed :: "Location option \<Rightarrow> Config \<Rightarrow> string \<Rightarrow> (string \<times> json) list \<Rightarrow> entry \<Rightarrow> bool" where
  "tariffed tzdb cfg iid ms e \<longleftrightarrow>
     (EvtInvoiceOpened, opened_payload cfg (e_reservation e) (e_driver e) (e_key e)) \<in> set ms \<and>
     (\<exists>bill fees. fees \<subseteq># mset (fee_tariff cfg) \<and> e_charges e = bill + fees \<and> billed tzdb cfg iid ms e bill \<and>
        (\<forall>c \<in># fees. fee_announced iid ms e c))"

lemma tariffedI:
  "(EvtInvoiceOpened, opened_payload cfg (e_reservation e) (e_driver e) (e_key e)) \<in> set ms \<Longrightarrow> fees \<subseteq># mset (fee_tariff cfg) \<Longrightarrow>
   e_charges e = bill + fees \<Longrightarrow> billed tzdb cfg iid ms e bill \<Longrightarrow> (\<And>c. c \<in># fees \<Longrightarrow> fee_announced iid ms e c) \<Longrightarrow>
   tariffed tzdb cfg iid ms e"
  unfolding tariffed_def by blast

lemma tariffedE:
  assumes "tariffed tzdb cfg iid ms e"
  obtains bill fees where "(EvtInvoiceOpened, opened_payload cfg (e_reservation e) (e_driver e) (e_key e)) \<in> set ms"
    and "fees \<subseteq># mset (fee_tariff cfg)" and "e_charges e = bill + fees" and "billed tzdb cfg iid ms e bill"
    and "\<And>c. c \<in># fees \<Longrightarrow> fee_announced iid ms e c"
  using assms unfolding tariffed_def by blast

definition all_tariffed :: "Location option \<Rightarrow> Config \<Rightarrow> account \<Rightarrow> bool" where
  "all_tariffed tzdb cfg a \<longleftrightarrow> (\<forall>iid e. fst a iid = Some e \<longrightarrow> tariffed tzdb cfg iid (snd (snd a)) e)"

lemma all_tariffedD: "all_tariffed tzdb cfg (b, ps, ms) \<Longrightarrow> b iid = Some e \<Longrightarrow> tariffed tzdb cfg iid ms e"
  by (simp add: all_tariffed_def)

lemma billed_mono: "billed tzdb cfg iid ms e bill \<Longrightarrow> set ms \<subseteq> set ms' \<Longrightarrow> billed tzdb cfg iid ms' e bill"
  unfolding billed_def by blast

lemma fee_announced_mono: "fee_announced iid ms e c \<Longrightarrow> set ms \<subseteq> set ms' \<Longrightarrow> fee_announced iid ms' e c"
  unfolding fee_announced_def by blast

lemma tariffed_mono:
  assumes "tariffed tzdb cfg iid ms e" "set ms \<subseteq> set ms'"
  shows "tariffed tzdb cfg iid ms' e"
  using assms(1) billed_mono [OF _ assms(2)] fee_announced_mono [OF _ assms(2)] assms(2)
  unfolding tariffed_def by blast

lemma tariffed_append: "tariffed tzdb cfg iid ms e \<Longrightarrow> tariffed tzdb cfg iid (ms @ ns) e"
  using tariffed_mono [of tzdb cfg iid ms e "ms @ ns"] by simp

lemma all_tariffed_upd:
  assumes "all_tariffed tzdb cfg (b, ps, ms)" "tariffed tzdb cfg iid (ms @ ns) e"
  shows "all_tariffed tzdb cfg (b(iid \<mapsto> e), ps', ms @ ns)"
  using assms by (auto simp: all_tariffed_def tariffed_append)

lemma all_tariffed_more: "all_tariffed tzdb cfg (b, ps, ms) \<Longrightarrow> all_tariffed tzdb cfg (b, ps', ms @ ns)"
  by (simp add: all_tariffed_def tariffed_append)

lemma add_once:
  assumes "M \<subseteq># N" "x \<in># N" "x \<notin># M"
  shows "add_mset x M \<subseteq># N"
  using assms by (auto simp: subseteq_mset_def not_in_iff)

lemma closing_keeps_fees:
  assumes "Apply tzdb (NewDefaultEngine cfg) s = Inr ls" "CancelledAt s = None"
    and "e_charges e = {#(MLineBooking, BookingFeeIDR cfg)#} + fees"
  shows "e_charges (closed_entry now (dbLines ls) e) = mset (map line_charge ls) + fees"
proof -
  let ?e0 = "e\<lparr>e_charges := {#(MLineBooking, BookingFeeIDR cfg)#}, e_total := BookingFeeIDR cfg\<rparr>"
  have "e_charges (closed_entry now (dbLines ls) ?e0) = mset (map line_charge ls)"
    using closing_charges [OF assms(1,2), of ?e0 now] by simp
  then show ?thesis using assms(3) by (simp add: closed_entry_def charged_def)
qed

lemma billing_step_keeps:
  assumes "billing_step late tzdb cfg a a'" "all_tariffed tzdb cfg a"
  shows "all_tariffed tzdb cfg a'"
  using assms(1)
proof (cases rule: billing_step.cases)
  case (opened b iid res key ps ms drv)
  have "tariffed tzdb cfg iid (ms @ [(EvtInvoiceOpened, opened_payload cfg res drv key)]) (new_entry res drv key (BookingFeeIDR cfg))"
    unfolding tariffed_def billed_def new_entry_def
    by (intro conjI exI [of _ "{#}"] exI [of _ "{#(MLineBooking, BookingFeeIDR cfg)#}"]) simp_all
  then show ?thesis unfolding opened(2) by (rule all_tariffed_upd [OF assms(2) [unfolded opened(1)]])
next
  case (closed b iid e s ls cur ps ms now)
  let ?m = "(EvtInvoiceClosed, closed_payload iid ls cur [])" and ?e = "closed_entry now (dbLines ls) e"
  have e: "tariffed tzdb cfg iid (ms @ [?m]) e"
    by (rule tariffed_append [OF all_tariffedD [OF assms(2) [unfolded closed(1)] closed(3)]])
  then obtain bill fees where o1: "(EvtInvoiceOpened, opened_payload cfg (e_reservation e) (e_driver e) (e_key e)) \<in> set (ms @ [?m])"
    and b: "fees \<subseteq># mset (fee_tariff cfg)" "e_charges e = bill + fees" "billed tzdb cfg iid (ms @ [?m]) e bill"
    and f: "\<And>c. c \<in># fees \<Longrightarrow> fee_announced iid (ms @ [?m]) e c" by (rule tariffedE) blast
  have bk: "e_charges e = {#(MLineBooking, BookingFeeIDR cfg)#} + fees" using b(2,3) closed(4) by (simp add: billed_def)
  have "e_charges ?e = mset (map line_charge ls) + fees"
    using closing_keeps_fees [OF closed(6) _ bk] closed(5) by (simp add: parked_def)
  moreover have "billed tzdb cfg iid (ms @ [?m]) ?e (mset (map line_charge ls))"
    unfolding billed_def using closed(5-7)
    by (intro disjI2 conjI exI [of _ s] exI [of _ ls] exI [of _ cur]) simp_all
  ultimately have "tariffed tzdb cfg iid (ms @ [?m]) ?e"
    using o1 b(1) f by (intro tariffedI) (simp_all add: fee_announced_def)
  then show ?thesis unfolding closed(2) by (rule all_tariffed_upd [OF assms(2) [unfolded closed(1)]])
next
  case (fee b i e k x ps ms reason)
  let ?m = "(EvtInvoiceClosed, fee_payload i (e_reservation e) k x)" and ?e = "charged [fee_line k x reason] e"
  have e: "tariffed tzdb cfg (inv_ID i) (ms @ [?m]) e"
    by (rule tariffed_append [OF all_tariffedD [OF assms(2) [unfolded fee(1)] fee(3)]])
  then obtain bill fees where o1: "(EvtInvoiceOpened, opened_payload cfg (e_reservation e) (e_driver e) (e_key e)) \<in> set (ms @ [?m])"
    and b: "fees \<subseteq># mset (fee_tariff cfg)" "e_charges e = bill + fees" "billed tzdb cfg (inv_ID i) (ms @ [?m]) e bill"
    and f: "\<And>c. c \<in># fees \<Longrightarrow> fee_announced (inv_ID i) (ms @ [?m]) e c" by (rule tariffedE) blast
  have "(k, x) \<notin># fees"
  proof
    assume "(k, x) \<in># fees"
    then have "(k, x) \<in># e_charges e" using b(2) by simp
    then show False using fee(6) imageI [of "(k, x)" "set_mset (e_charges e)" fst] by simp
  qed
  then have sub: "add_mset (k, x) fees \<subseteq># mset (fee_tariff cfg)" using add_once [OF b(1)] fee(5) by simp
  have ch: "e_charges ?e = bill + add_mset (k, x) fees"
    using b(2) by (simp add: charged_def charge_def fee_line_def)
  have bi: "billed tzdb cfg (inv_ID i) (ms @ [?m]) ?e bill"
    using b(3) by (simp add: billed_def charged_def)
  have fa: "fee_announced (inv_ID i) (ms @ [?m]) ?e c" if "c \<in># add_mset (k, x) fees" for c
  proof (cases "c = (k, x)")
    case False
    then show ?thesis using that f [of c] by (simp add: fee_announced_def)
  qed (auto simp: fee_announced_def)
  have "(EvtInvoiceOpened, opened_payload cfg (e_reservation ?e) (e_driver ?e) (e_key ?e)) \<in> set (ms @ [?m])" using o1 by simp
  from tariffedI [OF this sub ch bi fa] have "tariffed tzdb cfg (inv_ID i) (ms @ [?m]) ?e" by this
  then show ?thesis unfolding fee(2) by (rule all_tariffed_upd [OF assms(2) [unfolded fee(1)]])
next
  case (requested b q ps ms)
  then show ?thesis using all_tariffed_more [where ns = "[]"] assms(2) by simp
next
  case (settled ref ps q st ev b ms now)
  then show ?thesis using all_tariffed_more assms(2) by simp
qed

lemma billing_run_keeps: "billing_run late tzdb cfg a a' \<Longrightarrow> all_tariffed tzdb cfg a \<Longrightarrow> all_tariffed tzdb cfg a'"
  by (induction rule: rtranclp_induct) (auto intro: billing_step_keeps)

text \<open>Steps of the machine leave the reservation and the driver of an invoice alone.\<close>

lemma billing_run_same:
  assumes "billing_run late tzdb cfg a a'" "fst a iid = Some e"
  shows "\<exists>e'. fst a' iid = Some e' \<and> e_reservation e' = e_reservation e \<and> e_driver e' = e_driver e"
  using assms
proof (induction rule: rtranclp_induct)
  case (step a1 a2)
  then obtain e1 where e1: "fst a1 iid = Some e1" "e_reservation e1 = e_reservation e" "e_driver e1 = e_driver e" by blast
  from step.hyps(2) e1 show ?case by (cases rule: billing_step.cases) auto
qed simp

text \<open>What the tariff leaves of parking charges: the engine bills a night or the hours, never both.\<close>

lemma line_charge_kind: "fst (line_charge l) = to_MLineKind (Kind l)"
  by (simp add: line_charge_def)

lemma bill_parking_once:
  assumes "Apply tzdb (NewDefaultEngine cfg) s = Inr ls"
  shows "size (filter_mset (\<lambda>c. fst c \<in> {MLineOvernight, MLineHourly}) (mset (map line_charge ls))) \<le> 1"
proof -
  have "size (filter_mset (\<lambda>c. fst c \<in> {MLineOvernight, MLineHourly}) (mset (map line_charge ls))) =
      length (filter (\<lambda>k. to_MLineKind k \<in> {MLineOvernight, MLineHourly}) (map Kind ls))"
    by (simp add: filter_mset_image_mset comp_def line_charge_kind filter_map flip: mset_filter)
  then show ?thesis using default_shape [OF assms] by (auto simp del: filter_map)
qed

lemma tariffed_parking_once:
  assumes "tariffed tzdb cfg iid ms e"
  shows "size (filter_mset (\<lambda>c. fst c \<in> {MLineOvernight, MLineHourly}) (e_charges e)) \<le> 1"
proof -
  obtain bill fees where e: "fees \<subseteq># mset (fee_tariff cfg)" "e_charges e = bill + fees" "billed tzdb cfg iid ms e bill"
    using assms by (auto simp: tariffed_def)
  let ?P = "\<lambda>c. fst c \<in> {MLineOvernight, MLineHourly}"
  have "\<not> ?P c" if "c \<in># fees" for c using mset_subset_eqD [OF e(1) that] by (auto simp: fee_tariff_def)
  then have "filter_mset ?P fees = {#}" by (auto simp: filter_mset_eq_conv)
  then have "filter_mset ?P (e_charges e) = filter_mset ?P bill" using e(2) by simp
  moreover have "size (filter_mset ?P bill) \<le> 1"
    using e(3) unfolding billed_def by (elim disjE conjE exE) (simp, simp only: bill_parking_once)
  ultimately show ?thesis by simp
qed

end
