(* ===== verification/Account.thy ===== *)
theory Account
  imports Delivery Tariff
begin

text \<open>
  The account a database stores, and how repositories, usecase, handlers and servers move it: by steps of the
  machine of \<^verbatim>\<open>Tariff\<close>, under any failures.
\<close>

section \<open>The account of a database\<close>

definition account_of :: "world \<Rightarrow> account" where
  "account_of w = (pg_book w, pg_pays w, map message (outbox w))"

lemma fst_account [simp]: "fst (account_of w) = pg_book w"
  by (simp add: account_of_def)

lemma account_tables: "w_tables w' = w_tables w \<Longrightarrow> account_of w' = account_of w"
  by (simp add: account_of_def pg_book_def pg_pays_def outbox_def)

lemma account_reads: "reads_only w w' \<Longrightarrow> account_of w' = account_of w"
  by (rule account_tables) (simp add: reads_only_def)

lemma message_row [simp]: "message (outbox_row_of n a ty p now) = (ty, p)"
  by (simp add: message_def outbox_row_of_def)

lemma payments_untouched:
  "opens res drv key fee evt now iid n t t' \<Longrightarrow> t_payment_requests t' = t_payment_requests t"
  "closes iid items evt now n t t' \<Longrightarrow> t_payment_requests t' = t_payment_requests t"
  "appends iid item evt now n t t' \<Longrightarrow> t_payment_requests t' = t_payment_requests t"
  by (auto simp: opens_def closes_def appends_def table_ops split: option.splits)

lemma Open_account:
  assumes "pg_ok w" "invoiceRepo_Open res drv key fee (Some p) w = (r, w')"
  shows "account_of w' = account_of w \<or>
    (\<exists>iid. pg_book w iid = None \<and> (\<forall>e \<in> ran (pg_book w). e_reservation e \<noteq> res \<and> e_key e \<noteq> key) \<and>
       account_of w' = ((pg_book w)(iid \<mapsto> new_entry res drv key fee), pg_pays w, map message (outbox w) @ [(EvtInvoiceOpened, p)]))"
proof -
  have "w_saved w = None" using assms(1) by (simp add: pg_ok_def)
  from Open_effect [OF assms(2) this] have "pg_pays w' = pg_pays w"
    using payments_untouched(1) by (auto simp: pg_pays_def)
  with pg_Open_law [OF assms] show ?thesis using account_tables [of w' w] by (auto simp: account_of_def)
qed

lemma Close_account:
  assumes "pg_ok w" "invoiceRepo_Close iid items (Some p) w = (r, w')"
  shows "account_of w' = account_of w \<or>
    (\<exists>e. pg_book w iid = Some e \<and> e_status e = InvoiceOpen \<and>
       account_of w' = ((pg_book w)(iid \<mapsto> closed_entry (w_now w) items e), pg_pays w, map message (outbox w) @ [(EvtInvoiceClosed, p)]))"
proof -
  have "w_saved w = None" using assms(1) by (simp add: pg_ok_def)
  from Close_effect [OF assms(2) this] have "pg_pays w' = pg_pays w"
    using payments_untouched(2) by (auto simp: pg_pays_def)
  with pg_Close_law [OF assms] show ?thesis using account_tables [of w' w] by (auto simp: account_of_def)
qed

lemma Append_account:
  assumes "pg_ok w" "ml_Kind item \<noteq> MLineBooking" "invoiceRepo_AppendLine iid item (Some p) w = (r, w')"
  shows "account_of w' = account_of w \<or>
    (\<exists>e. pg_book w iid = Some e \<and>
       account_of w' = ((pg_book w)(iid \<mapsto> charged [item] e), pg_pays w, map message (outbox w) @ [(EvtInvoiceClosed, p)]))"
proof -
  have "w_saved w = None" using assms(1) by (simp add: pg_ok_def)
  from AppendLine_effect [OF assms(3) this] have "pg_pays w' = pg_pays w"
    using payments_untouched(3) by (auto simp: pg_pays_def)
  with pg_Append_law [OF assms] show ?thesis using account_tables [of w' w] by (auto simp: account_of_def)
qed

section \<open>Operations that move it\<close>

abbreviation billing :: "bool \<Rightarrow> EnvConfig \<Rightarrow> Location option \<Rightarrow> world \<Rightarrow> world \<Rightarrow> bool" where
  "billing late c tzdb w w' \<equiv> billing_run late tzdb (pricingCfg c) (account_of w) (account_of w')"

definition moves :: "EnvConfig \<Rightarrow> Location option \<Rightarrow> 'a dbio \<Rightarrow> bool" where
  "moves c tzdb m \<longleftrightarrow> (\<forall>w r w'. pg_ok w \<longrightarrow> m w = (r, w') \<longrightarrow> pg_ok w' \<and> billing False c tzdb w w')"

named_theorems moves_intros \<open>operations that keep the invariant and move the account by steps of the machine\<close>

lemma movesI: "(\<And>w r w'. pg_ok w \<Longrightarrow> m w = (r, w') \<Longrightarrow> pg_ok w' \<and> billing False c tzdb w w') \<Longrightarrow> moves c tzdb m"
  by (simp add: moves_def)

lemma movesD: "moves c tzdb m \<Longrightarrow> pg_ok w \<Longrightarrow> m w = (r, w') \<Longrightarrow> pg_ok w' \<and> billing False c tzdb w w'"
  by (simp add: moves_def)

lemma moves_basic [moves_intros]:
  "moves c tzdb (ret x)" "moves c tzdb (throw e)" "moves c tzdb (lift_res q)" "moves c tzdb (Pair v)"
  by (auto simp: moves_def)

lemma moves_andThen [moves_intros]: "moves c tzdb m \<Longrightarrow> (\<And>x. moves c tzdb (k x)) \<Longrightarrow> moves c tzdb (andThen m k)"
  by (rule movesI) (auto elim!: andThen_E dest!: movesD intro: rtranclp_trans)

lemma moves_attempt [moves_intros]: "moves c tzdb m \<Longrightarrow> (\<And>r. moves c tzdb (k r)) \<Longrightarrow> moves c tzdb (attempt m k)"
  by (rule movesI) (auto elim!: attempt_E dest!: movesD intro: rtranclp_trans)

lemma moves_reads: "rel reads_only m \<Longrightarrow> moves c tzdb m"
  by (rule movesI) (auto dest!: relD dest: pg_ok_reads account_reads)

lemma moves_Put [moves_intros]: "moves c tzdb (postgresStore_Put interval scope key p ttl)"
proof (rule movesI)
  fix w r w'
  assume ok: "pg_ok w" and run: "postgresStore_Put interval scope key p ttl w = (r, w')"
  note f = Put_frame [OF run]
  then have "account_of w' = account_of w" using same_book [of w' w] by (simp add: account_of_def)
  moreover have "pg_ok w'" using ok f pg_ok_frame by (metis outbox_def same_txD)
  ultimately show "pg_ok w' \<and> billing False c tzdb w w'" by simp
qed

lemma moves_Open:
  assumes "fee = BookingFeeIDR (pricingCfg c)"
  shows "moves c tzdb (invoiceRepo_Open res drv key fee (Some (opened_payload (pricingCfg c) res drv key)))"
proof (rule movesI)
  fix w r w'
  assume run: "pg_ok w" "invoiceRepo_Open res drv key fee (Some (opened_payload (pricingCfg c) res drv key)) w = (r, w')"
  have "billing False c tzdb w w'" using Open_account [OF run]
  proof (elim disjE exE conjE)
    fix iid
    assume o1: "pg_book w iid = None" "\<forall>e \<in> ran (pg_book w). e_reservation e \<noteq> res \<and> e_key e \<noteq> key"
      and w': "account_of w' = ((pg_book w)(iid \<mapsto> new_entry res drv key fee), pg_pays w,
        map message (outbox w) @ [(EvtInvoiceOpened, opened_payload (pricingCfg c) res drv key)])"
    show ?thesis unfolding w' assms unfolding account_of_def
      by (rule r_into_rtranclp) (rule opened [OF o1])
  qed simp
  then show "pg_ok w' \<and> billing False c tzdb w w'" using pg_Open_law [OF run] by blast
qed

lemma moves_OpenInvoice [moves_intros]: "moves c tzdb (OpenInvoice (main_usecase c tzdb) res drv key)"
  unfolding OpenInvoice_def by (auto simp: NewInvoiceRepository_def intro!: moves_Open moves_basic)

text \<open>What \<open>CloseInvoice\<close> does of its own: it reads the invoice for the driver, and closes it.\<close>

lemma CloseInvoice_runs:
  assumes "CloseInvoice (main_usecase c tzdb) iid s w = (r, w')"
  obtains (reads) "reads_only w w'"
  | (closes) ls cur w1 where "Apply tzdb (NewDefaultEngine (pricingCfg c)) s = Inr ls" "reads_only w w1"
      "\<forall>i. cur = Some i \<longrightarrow> invoiceRepo_GetByID iid w = (Inr i, w1)"
      "invoiceRepo_Close iid (dbLines ls) (Some (closed_payload iid ls cur [])) w1 = (r, w')"
proof (cases "Apply tzdb (NewDefaultEngine (pricingCfg c)) s")
  case (Inl e)
  then show ?thesis using assms reads by (simp add: CloseInvoice_def andThen_def)
next
  case (Inr ls)
  obtain g w1 where g: "invoiceRepo_GetByID iid w = (g, w1)" by (cases "invoiceRepo_GetByID iid w")
  have ro: "reads_only w w1" by (rule relD [OF read_frames(2) g])
  show ?thesis
  proof (cases g)
    case (Inl e)
    show ?thesis
      by (rule closes [OF Inr ro, of None]) (use assms Inr g Inl in \<open>simp_all add: CloseInvoice_def NewInvoiceRepository_def andThen_def attempt_def\<close>)
  next
    case current: (Inr i)
    show ?thesis
      by (rule closes [OF Inr ro, of "Some i"])
        (use assms Inr g current in \<open>simp_all add: CloseInvoice_def NewInvoiceRepository_def andThen_def attempt_def lookupMSISDN_def\<close>)
  qed
qed

lemma moves_CloseInvoice [moves_intros]:
  assumes "parked s"
  shows "moves c tzdb (CloseInvoice (main_usecase c tzdb) iid s)"
proof (rule movesI)
  fix w r w'
  assume ok: "pg_ok w" and "CloseInvoice (main_usecase c tzdb) iid s w = (r, w')"
  from this(2) show "pg_ok w' \<and> billing False c tzdb w w'"
  proof (cases rule: CloseInvoice_runs)
    case reads
    then show ?thesis using pg_ok_reads [OF ok reads] account_reads [OF reads] by simp
  next
    case (closes ls cur w1)
    have w1: "pg_ok w1" "account_of w1 = account_of w" "pg_book w1 = pg_book w"
      using pg_ok_reads [OF ok closes(2)] account_reads [OF closes(2)] by simp_all
    have "billing False c tzdb w1 w'" using Close_account [OF w1(1) closes(4)]
    proof (elim disjE exE conjE)
      fix e
      assume e: "pg_book w1 iid = Some e" "e_status e = InvoiceOpen"
        and w': "account_of w' = ((pg_book w1)(iid \<mapsto> closed_entry (w_now w1) (dbLines ls) e), pg_pays w1,
          map message (outbox w1) @ [(EvtInvoiceClosed, closed_payload iid ls cur [])])"
      have "\<forall>i. cur = Some i \<longrightarrow> inv_DriverID i = e_driver e"
        using closes(3) pg_Get_law [OF ok, of iid] e(1) w1(3) by fastforce
      then show ?thesis unfolding w' unfolding account_of_def
        by (intro r_into_rtranclp) (rule closed [where b = "pg_book w1", OF e assms closes(1)])
    qed simp
    then show ?thesis using pg_Close_law [OF w1(1) closes(4)] w1(2) by simp
  qed
qed

section \<open>Fees\<close>

text \<open>A fee of the tariff, for an invoice that was read before: the schema sees to it that it is the first of its kind.\<close>

lemma appendFee_billing:
  assumes "pg_ok w" "pg_book w (inv_ID i) = Some e" "e_reservation e = res" "late \<or> e_status e = InvoiceOpen"
    "(k, a) \<in> set (fee_tariff (pricingCfg c))" "appendFee (main_usecase c tzdb) i res k a reason w = (r, w')"
  shows "pg_ok w' \<and> billing late c tzdb w w'"
proof -
  have o1: "one_off k" by (rule fee_tariff_one_off [OF assms(5)])
  then have k: "ml_Kind (fee_line k a reason) \<noteq> MLineBooking" by (auto simp: fee_line_def one_off_def)
  obtain g where g: "invoiceRepo_AppendLine (inv_ID i) (fee_line k a reason) (Some (fee_payload i res k a)) w = (g, w')"
    using assms(6) by (auto simp: appendFee_def NewInvoiceRepository_def andThen_def split: prod.splits sum.splits)
  have ok: "pg_ok w'" using pg_Append_law [OF assms(1) k g] by blast
  have "billing late c tzdb w w'" using Append_account [OF assms(1) k g]
  proof (elim disjE exE conjE)
    fix e1
    assume e1: "pg_book w (inv_ID i) = Some e1"
      and w': "account_of w' = ((pg_book w)(inv_ID i \<mapsto> charged [fee_line k a reason] e1), pg_pays w,
        map message (outbox w) @ [(EvtInvoiceClosed, fee_payload i res k a)])"
    have e: "e1 = e" using e1 assms(2) by simp
    have "pg_book w' = (pg_book w)(inv_ID i \<mapsto> charged [fee_line k a reason] e)" using w' e by (simp add: account_of_def)
    then have first: "k \<notin> fst ` set_mset (e_charges e)" by (rule ev.fee_step [OF ok assms(2) o1])
    show ?thesis unfolding w' e assms(3) [symmetric] unfolding account_of_def
      by (rule r_into_rtranclp) (rule fee [where b = "pg_book w", OF assms(2,4,5) first])
  qed simp
  then show ?thesis using ok by blast
qed

lemma getOpenInvoice_reads:
  assumes "getOpenInvoice (main_usecase c tzdb) res w = (r, w')"
  shows "reads_only w w'"
  using relD [OF read_frames(4)] assms
  by (auto simp: getOpenInvoice_def NewInvoiceRepository_def elim!: attempt_E split: sum.splits if_splits)

text \<open>What both fee handlers do with the OPEN invoice of a reservation.\<close>

lemma moves_open_fee:
  assumes "\<And>i w r w'. k (Some i) w = (r, w') \<Longrightarrow>
      w' = w \<or> (\<exists>r'. appendFee (main_usecase c tzdb) i res kind a reason w = (r', w'))"
    and "k None = ret ()" "(kind, a) \<in> set (fee_tariff (pricingCfg c))"
  shows "moves c tzdb (andThen (getOpenInvoice (main_usecase c tzdb) res) k)"
proof (rule movesI)
  fix w r w'
  assume ok: "pg_ok w" and "andThen (getOpenInvoice (main_usecase c tzdb) res) k w = (r, w')"
  from this(2) show "pg_ok w' \<and> billing False c tzdb w w'"
  proof (cases rule: andThen_E)
    case (failed e)
    have ro: "reads_only w w'" by (rule getOpenInvoice_reads [OF failed(1)])
    then show ?thesis using pg_ok_reads [OF ok ro] account_reads [OF ro] by simp
  next
    case (went_on o1 w1)
    have ro: "reads_only w w1" by (rule getOpenInvoice_reads [OF went_on(1)])
    have w1: "pg_ok w1" "account_of w1 = account_of w" "pg_book w1 = pg_book w"
      using pg_ok_reads [OF ok ro] account_reads [OF ro] by simp_all
    show ?thesis
    proof (cases o1)
      case None
      then show ?thesis using went_on(2) assms(2) w1 by simp
    next
      case (Some i)
      have i: "pg_book w1 (inv_ID i) = Some (entry_of i)" "e_reservation (entry_of i) = res" "e_status (entry_of i) = InvoiceOpen"
        using svc.getOpenInvoice_spec [OF ok went_on(1)] Some w1(3) by simp_all
      from assms(1) [OF went_on(2) [unfolded Some]] show ?thesis
      proof (elim disjE exE)
        fix r'
        assume "appendFee (main_usecase c tzdb) i res kind a reason w1 = (r', w')"
        from appendFee_billing [OF w1(1) i(1,2) _ assms(3) this] i(3) w1(2) show ?thesis by simp
      qed (use w1 in simp)
    qed
  qed
qed

lemma moves_fees [moves_intros]:
  "moves c tzdb (ApplyCancelFee (main_usecase c tzdb) res confirmed cancelled)"
  "moves c tzdb (ApplyNoShowFee (main_usecase c tzdb) res)"
proof -
  let ?u = "main_usecase c tzdb"
  show "moves c tzdb (ApplyNoShowFee ?u res)" unfolding ApplyNoShowFee_def
    by (rule moves_open_fee [where kind = MLineNoShow and a = "NoShowFeeIDR (uc_cfg ?u)" and reason = "''no-show''"]) (auto simp: fee_tariff_def)
  show "moves c tzdb (ApplyCancelFee ?u res confirmed cancelled)" unfolding ApplyCancelFee_def
  proof (rule moves_open_fee [where kind = MLineCancellation and a = "CancelFeeIDR (uc_cfg ?u)" and reason = "''post-grace cancel''"])
    fix i w r w'
    assume "(case Some i of None \<Rightarrow> ret () | Some i \<Rightarrow> andThen (lift_res (Apply (uc_tzdb ?u) (uc_engine ?u) (cancel_session confirmed cancelled)))
        (cancelFees ?u i res)) w = (r, w')"
    then have "cancelFees ?u i res [cancel_line (uc_cfg ?u) confirmed cancelled] w = (r, w')"
      unfolding option.case svc.cancel_lines by (simp add: andThen_def)
    then show "w' = w \<or> (\<exists>r'. appendFee ?u i res MLineCancellation (CancelFeeIDR (uc_cfg ?u)) ''post-grace cancel'' w = (r', w'))"
      unfolding svc.cancelFees_line by (auto split: if_splits elim!: andThen_E)
  qed (simp_all add: fee_tariff_def)
qed

section \<open>Payments\<close>

lemma moves_CreatePaymentRequest [moves_intros]: "moves c tzdb (CreatePaymentRequest (main_usecase c tzdb) input)"
proof (rule movesI)
  fix w r w'
  assume ok: "pg_ok w" and run: "CreatePaymentRequest (main_usecase c tzdb) input w = (r, w')"
  have out: "map message (outbox w') = map message (outbox w)" using run
  proof (cases rule: CreatePaymentRequest_runs)
    case reads
    then show ?thesis using account_reads [OF reads] by (simp add: account_of_def)
  next
    case (creates i w1 req s)
    then show ?thesis using account_reads [OF creates(2)] Create_effect [OF creates(4)] by (simp add: account_of_def)
  qed
  note spec = svcp.CreatePaymentRequest_spec [OF ok run]
  have "billing False c tzdb w w'"
  proof (cases "pg_pays w' = pg_pays w")
    case True
    then have "account_of w' = account_of w" using spec out by (simp add: account_of_def)
    then show ?thesis by simp
  next
    case False
    then obtain q where q: "pg_pays w' = pg_pays w @ [q]" "requests (pg_book w) q"
    proof -
      have "t = Add (t - sint (15 * Minute)) (15 * Minute)" for t by (simp add: Add_def)
      then show ?thesis using that spec False unfolding requests_def by blast
    qed
    then have w': "account_of w' = (pg_book w, pg_pays w @ [q], map message (outbox w))" using spec out by (simp add: account_of_def)
    show ?thesis unfolding w' unfolding account_of_def by (rule r_into_rtranclp) (rule requested [OF q(2)])
  qed
  then show "pg_ok w' \<and> billing False c tzdb w w'" using spec by blast
qed

lemma moves_HandlePaymentNotification [moves_intros]: "moves c tzdb (HandlePaymentNotification (main_usecase c tzdb) body)"
proof (rule movesI)
  fix w r w'
  assume ok: "pg_ok w" and "HandlePaymentNotification (main_usecase c tzdb) body w = (r, w')"
  from this(2) show "pg_ok w' \<and> billing False c tzdb w w'"
  proof (cases rule: Notification_runs)
    case reads
    then show ?thesis using pg_ok_reads [OF ok reads] account_reads [OF reads] by simp
  next
    case (settles n st ev pr w1 s)
    have w1: "pg_ok w1" "account_of w1 = account_of w" using pg_ok_reads [OF ok settles(1)] account_reads [OF settles(1)] by simp_all
    then have f: "find (\<lambda>p. pr_PaymentRef p = pn_OrderID n) (pg_pays w1) = Some pr"
      using GetByPaymentRef_law [OF settles(3)] by (simp add: account_of_def)
    have ev: "(st, ev) \<in> set settlements" by (rule new_status_settles [OF settles(2)])
    then have "ev \<noteq> EvtInvoiceOpened" by (auto simp: settlements_def event_names)
    note law = pg_Update_law [OF w1(1) this settles(4)]
    have "billing False c tzdb w1 w'"
    proof (cases "w_tables w' = w_tables w1")
      case True
      then show ?thesis using account_tables [OF True] by simp
    next
      case False
      then have w': "account_of w' = (pg_book w1, map (settle (pn_OrderID n) st (w_now w1)) (pg_pays w1),
          map message (outbox w1) @ [(ev, payment_payload pr st)])" using law f by (auto simp: account_of_def)
      show ?thesis unfolding w' unfolding account_of_def by (rule r_into_rtranclp) (rule settled [OF f ev])
    qed
    then show ?thesis using law w1(2) by simp
  qed
qed

section \<open>Queries, handlers and servers\<close>

lemma parked_sessions [simp]: "parked (checkout_session ev)" "parked (close_session tzdb rq)"
  by (simp_all add: parked_def checkout_session_def close_session_def)

lemma moves_Get [moves_intros]: "moves c tzdb (postgresStore_Get scope key)"
  by (intro moves_reads frame_intros)

lemma moves_invoice_reads [moves_intros]:
  "moves c tzdb (invoiceRepo_GetByID i)" "moves c tzdb (invoiceRepo_GetByReservationID res)"
  by (intro moves_reads frame_intros)+

lemma moves_queries [moves_intros]:
  "moves c tzdb (GetInvoice (main_usecase c tzdb) i)" "moves c tzdb (GetInvoiceByReservation (main_usecase c tzdb) res)"
  "moves c tzdb (getOpenInvoice (main_usecase c tzdb) res)"
  unfolding getOpenInvoice_def GetInvoice_def GetInvoiceByReservation_def
  by (auto simp: NewInvoiceRepository_def intro!: moves_intros split: sum.split)

lemma moves_events [moves_intros]:
  "moves c tzdb (handleCreated (main_usecase c tzdb) ev1)" "moves c tzdb (handleCancelled (main_usecase c tzdb) ev2)"
  "moves c tzdb (handleExpired (main_usecase c tzdb) ev3)" "moves c tzdb (handleCheckedOut (main_usecase c tzdb) ev4)"
proof -
  show "moves c tzdb (handleCreated (main_usecase c tzdb) ev1)" "moves c tzdb (handleExpired (main_usecase c tzdb) ev3)"
    unfolding handleCreated_def handleExpired_def by (simp_all add: moves_intros)
  show "moves c tzdb (handleCheckedOut (main_usecase c tzdb) ev4)"
    unfolding handleCheckedOut_def by (intro moves_intros parked_sessions)
  show "moves c tzdb (handleCancelled (main_usecase c tzdb) ev2)"
    by (rule movesI) (simp add: handleCancelled_def Let_def movesD [OF moves_fees(1)])
qed

lemma moves_decoded: "(\<And>ev. moves c tzdb (k ev)) \<Longrightarrow> moves c tzdb (decoded dec body k)"
  by (simp add: decoded_def moves_basic split: option.split)

lemma moves_Handle [moves_intros]: "moves c tzdb (Handle (main_usecase c tzdb) k b)"
  unfolding Handle_def by (simp add: moves_decoded moves_events moves_basic)

lemma moves_handlers [moves_intros]:
  "moves c tzdb (Server_OpenInvoice (main_usecase c tzdb) x rq)" "moves c tzdb (Server_CloseInvoice (main_usecase c tzdb) x rq')"
  "moves c tzdb (Server_GetInvoice (main_usecase c tzdb) x i)" "moves c tzdb (Server_CreatePaymentRequest (main_usecase c tzdb) x rq'')"
  unfolding Server_OpenInvoice_def Server_CloseInvoice_def Server_GetInvoice_def Server_CreatePaymentRequest_def
  by (auto intro!: moves_intros)

lemma moves_served:
  assumes "\<And>x. moves c tzdb (h x req)"
  shows "moves c tzdb (served interval marshal method h x req)"
proof (rule movesI)
  fix w r w'
  assume ok: "pg_ok w" and "served interval marshal method h x req w = (r, w')"
  then obtain q where q: "idempotencyInterceptor (NewPostgresStore interval) [ScopeOpenInvoice] marshal method h
      (with_deadline (w_now w) x) req w = (q, w')" by (auto simp: served_def serverChain_wire split: prod.splits)
  have "moves c tzdb (idempotencyInterceptor (NewPostgresStore interval) [ScopeOpenInvoice] marshal method h
      (with_deadline (w_now w) x) req)"
    unfolding idempotencyInterceptor_def runAndCache_def Let_def NewPostgresStore_def using assms
    by (auto intro!: moves_intros split: sum.split bool.split option.split)
  from movesD [OF this ok q] show "pg_ok w' \<and> billing_run False tzdb (pricingCfg c) (account_of w) (account_of w')" .
qed

lemma rpcs:
  "moves c tzdb (served iv ma me (Server_OpenInvoice (main_usecase c tzdb)) x rq)"
  "moves c tzdb (served iv ma me (Server_CloseInvoice (main_usecase c tzdb)) x rq')"
  "moves c tzdb (served iv ma me (Server_GetInvoice (main_usecase c tzdb)) x i)"
  "moves c tzdb (served iv ma' me (Server_CreatePaymentRequest (main_usecase c tzdb)) x rq'')"
  by (rule moves_served moves_handlers)+

lemma moves_web: "moves c tzdb grpc \<Longrightarrow> moves c tzdb (serveHTTP hmac parse (main_usecase c tzdb) grpc rq)"
  unfolding serveHTTP_def GetByReservation_def byReservation_def getByID_def answerInvoice_def WebhookHandle_def
    respond_def httpError_def Let_def
  by (auto intro!: moves_intros split: route.split sum.split goerror.split)

end
