(* ===== verification/System.thy ===== *)
theory System
  imports Account
begin

text \<open>
  The running service of \<^verbatim>\<open>cmd/billing/main.go\<close>: the consumer, the gRPC and HTTP servers and the outbox worker
  over one database and one broker, as a transition system, and what holds in every state it reaches.
\<close>

section \<open>Requests\<close>

text \<open>What the service is configured with, and the code outside the repository it calls.\<close>

record platform =
  pf_config :: EnvConfig
  pf_tzdb :: "Location option"
  pf_interval :: "string \<Rightarrow> Duration option"
  pf_hmac :: "string \<Rightarrow> string \<Rightarrow> string"
  pf_parse :: "string \<Rightarrow> json option"
  pf_marshalInvoice :: "PInvoice \<Rightarrow> string option"
  pf_marshalPayment :: "PPaymentRequest \<Rightarrow> string option"

definition main_uc :: "platform \<Rightarrow> world billingUsecase" where
  "main_uc P = main_usecase (pf_config P) (pf_tzdb P)"

datatype request =
    Delivery string "json option"
  | RpcOpenInvoice ctx OpenInvoiceRequest
  | RpcCloseInvoice ctx CloseInvoiceRequest
  | RpcGetInvoice ctx string
  | RpcCreatePaymentRequest ctx CreatePaymentReq
  | Web http_request
  | OutboxTick

text \<open>The full names of the methods no interceptor of \<open>main\<close> guards.\<close>

definition MethodGetInvoice :: string where
  "MethodGetInvoice = ''/parkirpintar.billing.v1.BillingService/GetInvoice''"

definition MethodCreatePaymentRequest :: string where
  "MethodCreatePaymentRequest = ''/parkirpintar.billing.v1.BillingService/CreatePaymentRequest''"

text \<open>
  The state after one request. HTTP/2 traffic with a gRPC content type reaches the handlers as one of the
  calls, so a web request of that kind by itself does nothing.
\<close>

fun perform :: "platform \<Rightarrow> request \<Rightarrow> world \<Rightarrow> world" where
  "perform P (Delivery k body) w = snd (Handle (main_uc P) k body w)"
| "perform P (RpcOpenInvoice c rq) w =
     snd (served (pf_interval P) (pf_marshalInvoice P) ScopeOpenInvoice (Server_OpenInvoice (main_uc P)) c rq w)"
| "perform P (RpcCloseInvoice c rq) w =
     snd (served (pf_interval P) (pf_marshalInvoice P) ScopeCloseInvoice (Server_CloseInvoice (main_uc P)) c rq w)"
| "perform P (RpcGetInvoice c i) w =
     snd (served (pf_interval P) (pf_marshalInvoice P) MethodGetInvoice (Server_GetInvoice (main_uc P)) c i w)"
| "perform P (RpcCreatePaymentRequest c rq) w =
     snd (served (pf_interval P) (pf_marshalPayment P) MethodCreatePaymentRequest
            (Server_CreatePaymentRequest (main_uc P)) c rq w)"
| "perform P (Web rq) w = snd (serveHTTP (pf_hmac P) (pf_parse P) (main_uc P) (throw ErrNotFound) rq w)"
| "perform P OutboxTick w = snd (tick NewOutboxPublisher w)"

section \<open>Steps\<close>

text \<open>
  The goroutines of the service share the database, and each repository call is one transaction. Every
  request writes in one transaction; what it reads before only fills in identifiers and payloads, which
  never change. The fee handlers are the exception: they decide on the status of an invoice they read in one
  call and charge it in another. The pending fees of a state are those whose invoice was read as OPEN and
  whose charge is still to come; anything may happen in between. The environment moves the clock on and
  chooses what fails.
\<close>

record pending_fee =
  fe_invoice :: Invoice
  fe_reservation :: string
  fe_kind :: MLineKind
  fe_amount :: int64
  fe_reason :: string

definition noshow_fee :: "platform \<Rightarrow> string \<Rightarrow> Invoice \<Rightarrow> pending_fee" where
  "noshow_fee P res i =
     \<lparr>fe_invoice = i, fe_reservation = res, fe_kind = MLineNoShow,
      fe_amount = NoShowFeeIDR (uc_cfg (main_uc P)), fe_reason = ''no-show''\<rparr>"

definition cancel_fee :: "string \<Rightarrow> Invoice \<Rightarrow> LineItem \<Rightarrow> pending_fee" where
  "cancel_fee res i l =
     \<lparr>fe_invoice = i, fe_reservation = res, fe_kind = MLineCancellation, fe_amount = AmountIDR l,
      fe_reason = ''post-grace cancel''\<rparr>"

definition charge_fee :: "platform \<Rightarrow> pending_fee \<Rightarrow> unit dbio" where
  "charge_fee P f =
     appendFee (main_uc P) (fe_invoice f) (fe_reservation f) (fe_kind f) (fe_amount f) (fe_reason f)"

type_synonym service_state = "world \<times> pending_fee list"

inductive step :: "platform \<Rightarrow> service_state \<Rightarrow> service_state \<Rightarrow> bool" for P where
  request: "step P (w, fs) (perform P q w, fs)"
| noshow_read: "getOpenInvoice (main_uc P) res w = (Inr (Some i), w') \<Longrightarrow>
    step P (w, fs) (w', noshow_fee P res i # fs)"
| cancel_read: "getOpenInvoice (main_uc P) res w = (Inr (Some i), w') \<Longrightarrow>
    Apply (uc_tzdb (main_uc P)) (uc_engine (main_uc P)) (cancel_session confirmed cancelled) = Inr ls \<Longrightarrow>
    l \<in> set ls \<Longrightarrow> Kind l = LineCancellation \<Longrightarrow> AmountIDR l \<noteq> 0 \<Longrightarrow>
    step P (w, fs) (w', cancel_fee res i l # fs)"
| fee_charge: "f \<in> set fs \<Longrightarrow> charge_fee P f w = (r, w') \<Longrightarrow> step P (w, fs) (w', remove1 f fs)"
| environment: "w_now w \<le> t \<Longrightarrow> step P (w, fs) (w\<lparr>w_now := t, w_faults := faults, w_pub_faults := pub_faults\<rparr>, fs)"

inductive_cases stepE: "step P s s'"

section \<open>How requests move the account\<close>

lemma perform_billing: "pg_ok w \<Longrightarrow> pg_ok (perform P q w) \<and> billing False (pf_config P) (pf_tzdb P) w (perform P q w)"
proof (cases q)
  case OutboxTick
  assume "pg_ok w"
  from tick_pg_ok [OF this surjective_pairing] show ?thesis by (simp add: OutboxTick account_of_def)
qed (auto simp: main_uc_def intro!: movesD [OF _ _ surjective_pairing] rpcs moves_Handle moves_web moves_basic)

lemma perform_moves: "pg_ok w \<Longrightarrow> pg_ok (perform P q w) \<and> evolves (pg_book w) (pg_book (perform P q w))"
  using perform_billing [of w P q] billing_run_evolves [of "pf_tzdb P" _ "account_of w" "account_of (perform P q w)"]
  by (simp del: perform.simps) blast

text \<open>What every repository operation keeps, every request and every step of a fee handler keeps.\<close>

context repository_invariant
begin

lemma perform_keeps:
  assumes "I w" "I (snd (tick NewOutboxPublisher w))"
  shows "I (perform P q w)"
  using assms
  by (cases q) (auto simp: main_uc_def intro: keeps_snd [where I = I] keeps_Handle keeps_web keeps_throw keeps_served keeps_handlers)

lemma fee_keeps:
  "I w \<Longrightarrow> getOpenInvoice (main_uc P) res w = (r, w') \<Longrightarrow> I w'"
  "I w \<Longrightarrow> charge_fee P f w = (r', w') \<Longrightarrow> I w'"
  unfolding charge_fee_def main_uc_def by (rule keepsD [OF keeps_usecase(5)] keepsD [OF keeps_usecase(6)]; assumption)+

lemma step_keeps:
  assumes "step P s s'" "I (fst s)" "I (snd (tick NewOutboxPublisher (fst s)))"
    "\<And>t faults pub_faults. I ((fst s)\<lparr>w_now := t, w_faults := faults, w_pub_faults := pub_faults\<rparr>)"
  shows "I (fst s')"
  using assms by (cases rule: step.cases) (auto intro: perform_keeps fee_keeps)

end

lemma perform_sound:
  assumes "pg_ok w" "tx_sound w"
  shows "tx_sound (perform P q w)"
proof -
  have idle: "w_saved w = None" using assms(1) by (simp add: pg_ok_def)
  obtain r w' where run: "tick NewOutboxPublisher w = (r, w')" by fastforce
  have "pg_ok w'" using tick_pg_ok [OF assms(1) run] by simp
  moreover have "delivered w'" using tick_delivered [OF assms(1) _ run] assms(2) tx_sound_idle [OF idle] by simp
  moreover have "fresh_uuids w'" using tick_effect [OF run] assms(2) tx_sound_idle [OF idle]
    by (auto simp: fresh_uuids_def Let_def)
  ultimately have "tx_sound (snd (tick NewOutboxPublisher w))" using run tx_sound_idle [of w'] by (simp add: pg_ok_def)
  then show ?thesis using sound.perform_keeps [OF assms(2)] by simp
qed

section \<open>What holds in every reachable state\<close>

text \<open>Transition systems with an invariant, and with a preorder along which an observation moves.\<close>

locale transition_system =
  fixes step :: "'s \<Rightarrow> 's \<Rightarrow> bool" and init :: "'s \<Rightarrow> bool" and I :: "'s \<Rightarrow> bool"
  assumes init_inv: "init s \<Longrightarrow> I s" and step_inv: "I s \<Longrightarrow> step s s' \<Longrightarrow> I s'"
begin

lemma steps_inv: "step\<^sup>*\<^sup>* s s' \<Longrightarrow> I s \<Longrightarrow> I s'"
  by (induction rule: rtranclp_induct) (auto intro: step_inv)

lemma reachable_inv: "init s \<Longrightarrow> step\<^sup>*\<^sup>* s s' \<Longrightarrow> I s'"
  using steps_inv init_inv by blast

end

locale evolving_system = transition_system step init I
  for step :: "'s \<Rightarrow> 's \<Rightarrow> bool" and init :: "'s \<Rightarrow> bool" and I :: "'s \<Rightarrow> bool" +
  fixes obs :: "'s \<Rightarrow> 'b" and R :: "'b \<Rightarrow> 'b \<Rightarrow> bool"
  assumes R_refl: "R b b" and R_trans: "R a b \<Longrightarrow> R b d \<Longrightarrow> R a d"
    and step_R: "I s \<Longrightarrow> step s s' \<Longrightarrow> R (obs s) (obs s')"
begin

lemma steps_R: "step\<^sup>*\<^sup>* s s' \<Longrightarrow> I s \<Longrightarrow> R (obs s) (obs s')"
proof (induction rule: rtranclp_induct)
  case base
  show ?case by (rule R_refl)
next
  case (step y z)
  then show ?case using steps_inv [OF step.hyps(1) step.prems] step_R R_trans by blast
qed

end

text \<open>The invariant of the service, and its first state: empty tables, and identifiers that never repeat.\<close>

definition service_ok :: "service_state \<Rightarrow> bool" where
  "service_ok s \<longleftrightarrow> pg_ok (fst s) \<and> tx_sound (fst s) \<and> (\<forall>f \<in> set (snd s). one_off (fe_kind f))"

definition initial :: "service_state \<Rightarrow> bool" where
  "initial s \<longleftrightarrow> w_tables (fst s) = no_tables \<and> w_saved (fst s) = None \<and> w_sent (fst s) = [] \<and> inj (w_uuid (fst s)) \<and> snd s = []"

lemma initial_ok: "initial s \<Longrightarrow> service_ok s"
  by (auto simp: initial_def service_ok_def tx_sound_idle pg_ok_def delivered_def outbox_def fresh_uuids_def no_tables_def
      books_ok_def keys_ok_def lines_ok_def one_off_ok_def totals_ok_def status_ok_def events_ok_def serials_ok_def dest!: injD)

text \<open>
  \<open>accrues\<close>: how the ledger moves in any interleaving. Entries stay, keep reservation, key and charges, and
  never open again; what is charged to an invoice that is not OPEN is a one-off fee.
\<close>

definition accrues :: "ledger \<Rightarrow> ledger \<Rightarrow> bool" where
  "accrues b b' \<longleftrightarrow> (\<forall>iid e. b iid = Some e \<longrightarrow> (\<exists>e' extra. b' iid = Some e' \<and>
     e_reservation e' = e_reservation e \<and> e_key e' = e_key e \<and> e_charges e' = e_charges e + extra \<and>
     (e_status e \<noteq> InvoiceOpen \<longrightarrow> e_status e' = e_status e \<and> e_closed_at e' = e_closed_at e \<and>
        (\<forall>c \<in># extra. one_off (fst c)))))"

lemma evolves_accrues: "evolves b b' \<Longrightarrow> accrues b b'"
  unfolding accrues_def
proof (intro allI impI)
  fix iid e
  assume "evolves b b'" "b iid = Some e"
  then obtain e' where e': "b' iid = Some e'" "e_reservation e' = e_reservation e" "e_key e' = e_key e"
    "e_charges e \<subseteq># e_charges e'" "e_status e \<noteq> InvoiceOpen \<longrightarrow> e' = e" by (rule evolvesD)
  then show "\<exists>e' extra. b' iid = Some e' \<and> e_reservation e' = e_reservation e \<and> e_key e' = e_key e \<and>
      e_charges e' = e_charges e + extra \<and> (e_status e \<noteq> InvoiceOpen \<longrightarrow> e_status e' = e_status e \<and>
        e_closed_at e' = e_closed_at e \<and> (\<forall>c \<in># extra. one_off (fst c)))"
    by (intro exI [of _ e'] exI [of _ "e_charges e' - e_charges e"]) auto
qed

lemma accrues_trans:
  assumes "accrues a b" "accrues b d"
  shows "accrues a d"
  unfolding accrues_def
proof (intro allI impI)
  fix iid e
  assume "a iid = Some e"
  then obtain e1 x1 where 1: "b iid = Some e1" "e_reservation e1 = e_reservation e" "e_key e1 = e_key e"
    "e_charges e1 = e_charges e + x1" "e_status e \<noteq> InvoiceOpen \<longrightarrow> e_status e1 = e_status e \<and>
      e_closed_at e1 = e_closed_at e \<and> (\<forall>c \<in># x1. one_off (fst c))" using assms(1) unfolding accrues_def by blast
  then obtain e2 x2 where 2: "d iid = Some e2" "e_reservation e2 = e_reservation e1" "e_key e2 = e_key e1"
    "e_charges e2 = e_charges e1 + x2" "e_status e1 \<noteq> InvoiceOpen \<longrightarrow> e_status e2 = e_status e1 \<and>
      e_closed_at e2 = e_closed_at e1 \<and> (\<forall>c \<in># x2. one_off (fst c))" using assms(2) unfolding accrues_def by blast
  show "\<exists>e' extra. d iid = Some e' \<and> e_reservation e' = e_reservation e \<and> e_key e' = e_key e \<and>
      e_charges e' = e_charges e + extra \<and> (e_status e \<noteq> InvoiceOpen \<longrightarrow> e_status e' = e_status e \<and>
        e_closed_at e' = e_closed_at e \<and> (\<forall>c \<in># extra. one_off (fst c)))"
    using 1 2 by (intro exI [of _ e2] exI [of _ "x1 + x2"]) auto
qed

lemma accrues_fee:
  "b iid = Some e \<Longrightarrow> one_off k \<Longrightarrow> accrues b (b(iid \<mapsto> charged [fee_line k a reason] e))"
  by (auto simp: accrues_def charged_def charge_def fee_line_def)

lemma charge_fee_step:
  assumes "pg_ok w" "tx_sound w" "one_off (fe_kind f)" "charge_fee P f w = (r, w')"
  shows "pg_ok w' \<and> tx_sound w' \<and> accrues (pg_book w) (pg_book w')"
proof -
  have k: "fe_kind f \<noteq> MLineBooking" using assms(3) by (auto simp: one_off_def)
  note run = assms(4) [unfolded charge_fee_def main_uc_def]
  have "tx_sound w'" by (rule keepsD [OF sound.keeps_usecase(6) assms(2) run])
  moreover have "pg_ok w' \<and> accrues (pg_book w) (pg_book w')"
    using svc.appendFee_ledger [OF assms(1) k run] accrues_fee [OF _ assms(3)] evolves_accrues [OF evolves_refl]
    by (elim conjE disjE exE) simp_all
  ultimately show ?thesis by simp
qed

lemma step_sound:
  assumes "service_ok s" "step P s s'"
  shows "service_ok s' \<and> accrues (pg_book (fst s)) (pg_book (fst s'))"
  using assms(2,1)
proof (cases rule: step.cases)
  case (request w fs q)
  then show ?thesis using assms(1) perform_moves [of w P q] perform_sound [of w P q]
    by (auto simp: service_ok_def intro: evolves_accrues)
next
  case (noshow_read res w i w' fs)
  then show ?thesis
    using assms(1) pg_ok_reads [OF _ getOpenInvoice_reads [OF noshow_read(3) [unfolded main_uc_def]]] keepsD [OF sound.keeps_usecase(5) _ noshow_read(3) [unfolded main_uc_def]]
    by (auto simp: service_ok_def noshow_fee_def one_off_def intro!: evolves_accrues)
next
  case (cancel_read res w i w' confirmed cancelled ls l fs)
  then show ?thesis
    using assms(1) pg_ok_reads [OF _ getOpenInvoice_reads [OF cancel_read(3) [unfolded main_uc_def]]] keepsD [OF sound.keeps_usecase(5) _ cancel_read(3) [unfolded main_uc_def]]
    by (auto simp: service_ok_def cancel_fee_def one_off_def intro!: evolves_accrues)
next
  case (fee_charge f fs w r w')
  then have "one_off (fe_kind f)" using assms(1) by (auto simp: service_ok_def)
  then show ?thesis using charge_fee_step [of w f P r w'] fee_charge assms(1)
    by (auto simp: service_ok_def dest: notin_set_remove1 set_remove1_subset [THEN subsetD])
next
  case (environment w t fs faults pub_faults)
  then show ?thesis using assms(1)
    by (auto simp: service_ok_def pg_ok_def serials_ok_def pg_book_def tx_holds_def sound_rows_def fresh_uuids_def
        intro: evolves_accrues)
qed

interpretation sys: evolving_system "step P" initial service_ok "\<lambda>s. pg_book (fst s)" accrues for P
  by unfold_locales (auto simp: initial_ok step_sound intro: accrues_trans evolves_accrues)

text \<open>
  The whole service implements the machine of \<^verbatim>\<open>Tariff\<close>: a fee that is read and charged in two calls is a fee of
  the tariff, for the invoice of its reservation, though it may come late.
\<close>

definition fee_due :: "platform \<Rightarrow> ledger \<Rightarrow> pending_fee \<Rightarrow> bool" where
  "fee_due P b f \<longleftrightarrow> (fe_kind f, fe_amount f) \<in> set (fee_tariff (pricingCfg (pf_config P))) \<and>
     (\<exists>e. b (inv_ID (fe_invoice f)) = Some e \<and> e_reservation e = fe_reservation f)"

lemma fee_due_accrues: "fee_due P b f \<Longrightarrow> accrues b b' \<Longrightarrow> fee_due P b' f"
  unfolding fee_due_def accrues_def by metis

lemma fees_due_step:
  assumes "\<forall>f \<in> set fs. fee_due P b f" "accrues b b'" "set fs' \<subseteq> set fs \<union> {f}" "f \<in> set fs \<or> fee_due P b' f"
  shows "\<forall>f \<in> set fs'. fee_due P b' f"
  using assms fee_due_accrues by blast

lemma cancel_read_amount:
  assumes "Apply (uc_tzdb (main_uc P)) (uc_engine (main_uc P)) (cancel_session confirmed cancelled) = Inr ls"
    "l \<in> set ls" "AmountIDR l \<noteq> 0"
  shows "AmountIDR l = CancelFeeIDR (uc_cfg (main_uc P))"
proof -
  have "l = cancel_line (uc_cfg (main_uc P)) confirmed cancelled"
    using assms(1,2) svc.cancel_lines [of "pf_config P" "pf_tzdb P" confirmed cancelled, folded main_uc_def] by auto
  then show ?thesis using assms(3) by (simp add: cancel_line_def split: if_splits)
qed

lemma fee_read_due:
  assumes "pg_ok w" "getOpenInvoice (main_uc P) res w = (Inr (Some i), w')" "fe_invoice f = i" "fe_reservation f = res"
    "(fe_kind f, fe_amount f) \<in> set (fee_tariff (pricingCfg (pf_config P)))"
  shows "account_of w' = account_of w \<and> fee_due P (pg_book w') f"
proof -
  have "account_of w' = account_of w" by (rule account_reads [OF getOpenInvoice_reads [OF assms(2) [unfolded main_uc_def]]])
  moreover have "pg_book w' (inv_ID i) = Some (entry_of i)" "e_reservation (entry_of i) = res"
    using svc.getOpenInvoice_spec [OF assms(1) assms(2) [unfolded main_uc_def]] by simp_all
  ultimately show ?thesis using assms(3-5) by (simp add: fee_due_def)
qed

lemma fee_reads_due:
  assumes "service_ok (w, fs)" "\<forall>f \<in> set fs. fee_due P (pg_book w) f" "getOpenInvoice (main_uc P) res w = (Inr (Some i), w')"
    "fe_invoice f = i" "fe_reservation f = res" "(fe_kind f, fe_amount f) \<in> set (fee_tariff (pricingCfg (pf_config P)))"
  shows "account_of w' = account_of w \<and> (\<forall>f \<in> set (f # fs). fee_due P (pg_book w') f)"
proof -
  have r: "account_of w' = account_of w" "fee_due P (pg_book w') f"
    using fee_read_due [OF _ assms(3-6)] assms(1) by (simp_all add: service_ok_def)
  then have "pg_book w' = pg_book w" by (simp add: account_of_def)
  with r assms(2) show ?thesis by simp
qed

lemma step_billing:
  assumes "service_ok s" "\<forall>f \<in> set (snd s). fee_due P (pg_book (fst s)) f" "step P s s'"
  shows "(\<forall>f \<in> set (snd s'). fee_due P (pg_book (fst s')) f) \<and> billing True (pf_config P) (pf_tzdb P) (fst s) (fst s')"
  using assms(3)
proof (cases rule: step.cases)
  case (request w fs q)
  have ok: "pg_ok w" using assms(1) request(1) by (simp add: service_ok_def)
  have "\<forall>f \<in> set fs. fee_due P (pg_book (perform P q w)) f"
    using assms(2) request(1) evolves_accrues [OF perform_moves [OF ok, THEN conjunct2]] fee_due_accrues by auto
  then show ?thesis using request perform_billing [OF ok, of P q] billing_run_late by (simp del: perform.simps)
next
  case (noshow_read res w i w' fs)
  then show ?thesis
    using fee_reads_due [OF assms(1,2) [unfolded noshow_read(1) fst_conv snd_conv] noshow_read(3), of "noshow_fee P res i"]
    by (simp add: noshow_fee_def main_uc_def fee_tariff_def)
next
  case (cancel_read res w i w' confirmed cancelled ls l fs)
  then show ?thesis
    using fee_reads_due [OF assms(1,2) [unfolded cancel_read(1) fst_conv snd_conv] cancel_read(3), of "cancel_fee res i l"]
      cancel_read_amount [OF cancel_read(4,5,7)]
    by (simp add: cancel_fee_def main_uc_def fee_tariff_def)
next
  case (fee_charge f fs w r w')
  then have ok: "pg_ok w" and due: "fee_due P (pg_book w) f" using assms(1,2) by (simp_all add: service_ok_def)
  obtain e where e: "pg_book w (inv_ID (fe_invoice f)) = Some e" "e_reservation e = fe_reservation f"
    and t: "(fe_kind f, fe_amount f) \<in> set (fee_tariff (pricingCfg (pf_config P)))" using due unfolding fee_due_def by blast
  have "accrues (pg_book w) (pg_book w')" using step_sound [OF assms(1,3)] fee_charge(1,2) by simp
  then have "\<forall>g \<in> set (remove1 f fs). fee_due P (pg_book w') g"
    using assms(2) fee_charge(1) fee_due_accrues notin_set_remove1 by fastforce
  then show ?thesis
    using appendFee_billing [OF ok e _ t fee_charge(4) [unfolded charge_fee_def main_uc_def], of True] fee_charge(1,2) by simp
next
  case (environment w t fs faults pub_faults)
  then show ?thesis using assms(2) by (simp add: account_of_def pg_book_def pg_pays_def outbox_def)
qed

definition billing_kept :: "platform \<Rightarrow> service_state \<Rightarrow> bool" where
  "billing_kept P s \<longleftrightarrow> service_ok s \<and> (\<forall>f \<in> set (snd s). fee_due P (pg_book (fst s)) f) \<and>
     all_tariffed (pf_tzdb P) (pricingCfg (pf_config P)) (account_of (fst s))"

lemma initial_billing: "initial s \<Longrightarrow> billing_kept P s \<and> account_of (fst s) = (Map.empty, [], [])"
  using initial_ok [of s]
  by (auto simp: billing_kept_def initial_def all_tariffed_def account_of_def pg_book_def pg_pays_def outbox_def view_def no_tables_def)

interpretation bills: evolving_system "step P" initial "billing_kept P" fst "billing True (pf_config P) (pf_tzdb P)" for P
proof (unfold_locales, goal_cases)
  case (2 s s')
  then show ?case using step_sound [of s P s'] step_billing [of s P s'] billing_run_keeps unfolding billing_kept_def by blast
next
  case (5 s s')
  then show ?case using step_billing [of s P s'] by (simp add: billing_kept_def)
qed (auto simp: initial_billing)

text \<open>The requests for payment that are stored, and the rows of the outbox, over any run.\<close>

lemma tick_tables:
  "\<exists>ids. w_tables (snd (tick p w)) = mark_outbox (w_now w) ids (w_tables w) \<and> w_saved (snd (tick p w)) = w_saved w"
  using tick_effect [OF surjective_pairing, of p w] by (auto simp: Let_def)

lemma mark_homes [simp]: "homes (mark_outbox now ids t) = homes t"
  by (simp add: mark_outbox_def)

lemma tick_rest: "at_rest w \<Longrightarrow> at_rest (snd (tick p w))"
  using tick_tables [of p w] conform_frame [of "w_tables w"] by (auto simp: at_rest_def tx_holds_idle)

interpretation paying: transition_system "step P" initial "\<lambda>s. at_rest (fst s)" for P
proof (unfold_locales, goal_cases)
  case (1 s)
  then show ?case by (simp add: initial_def at_rest_def tx_holds_idle well_typed_def no_tables_def)
next
  case (2 s s')
  show ?case by (rule rest.step_keeps [OF 2(2,1) tick_rest [OF 2(1)]]) (use 2(1) in \<open>simp add: at_rest_def tx_holds_def\<close>)
qed

definition event_rows :: "world \<Rightarrow> (int \<times> string \<times> json) set" where
  "event_rows w = (\<lambda>o1. (ob_id o1, message o1)) ` set (outbox w)"

lemma has_event_rows: "w_saved w = None \<Longrightarrow> tx_holds (\<lambda>_. has_rows X) w \<longleftrightarrow> X \<subseteq> event_rows w"
  by (simp add: tx_holds_idle has_rows_def event_rows_def outbox_def)

lemma tick_rows: "event_rows (snd (tick p w)) = event_rows w"
  using tick_tables [of p w] by (auto simp: event_rows_def outbox_def image_image)

lemma step_rows:
  assumes "service_ok s" "step P s s'"
  shows "event_rows (fst s) \<subseteq> event_rows (fst s')"
proof -
  let ?I = "tx_holds (\<lambda>_. has_rows (event_rows (fst s)))"
  have idle: "w_saved (fst s) = None" "w_saved (fst s') = None" "w_saved (snd (tick NewOutboxPublisher (fst s))) = None"
    using assms step_sound [OF assms] tick_tables [of NewOutboxPublisher "fst s"] by (auto simp: service_ok_def pg_ok_def)
  have I: "?I (fst s)" using has_event_rows [OF idle(1)] by simp
  have T: "?I (snd (tick NewOutboxPublisher (fst s)))" unfolding has_event_rows [OF idle(3)] tick_rows by simp
  have "?I (fst s')" by (rule rows.step_keeps [OF assms(2) I T]) (use I in \<open>simp add: tx_holds_def\<close>)
  then show ?thesis unfolding has_event_rows [OF idle(2)] .
qed

section \<open>Requests one at a time\<close>

definition atomic_step :: "platform \<Rightarrow> world \<Rightarrow> world \<Rightarrow> bool" where
  "atomic_step P w w' \<longleftrightarrow> step P (w, []) (w', [])"

lemma atomic_step_cases:
  assumes "atomic_step P w w'"
  obtains (request) q where "w' = perform P q w"
  | (environment) t faults pub_faults where "w' = w\<lparr>w_now := t, w_faults := faults, w_pub_faults := pub_faults\<rparr>"
  using assms unfolding atomic_step_def by (cases rule: step.cases) auto

interpretation atomic: evolving_system "atomic_step P" "\<lambda>w. initial (w, [])" "\<lambda>w. service_ok (w, [])" pg_book evolves for P
proof (unfold_locales, goal_cases)
  case (2 w w')
  then show ?case using step_sound [of "(w, [])" P "(w', [])"] by (simp add: atomic_step_def)
next
  case (5 w w')
  from 5(2) show ?case
  proof (cases rule: atomic_step_cases)
    case (request q)
    then show ?thesis using 5(1) perform_moves [of w P q] by (simp add: service_ok_def)
  next
    case (environment t faults pub_faults)
    then show ?thesis by (simp add: pg_book_def)
  qed
qed (auto simp: initial_ok intro: evolves_trans)

section \<open>A fee that comes late\<close>

lemma bill_has_no_one_off:
  assumes "Apply tzdb (NewDefaultEngine cfg) s = Inr ls" "CancelledAt s = None" "\<not> NoShow s"
  shows "MLineNoShow \<notin> fst ` set (map line_charge ls)"
proof -
  obtain s' l1 l2 l3 l4 l5 where s': "s' = (if Timezone s = None then s\<lparr>Timezone := tzdb\<rparr> else s)"
    and l: "cancellationRule s' [] cfg = Inr l1" "noShowRule s' l1 cfg = Inr l2"
    "bookingRule s' (l1 @ l2) cfg = Inr l3" "overnightRule s' (l1 @ l2 @ l3) cfg = Inr l4"
    "hourlyRule s' (l1 @ l2 @ l3 @ l4) cfg = Inr l5" and ls: "ls = l1 @ l2 @ l3 @ l4 @ l5"
    using assms(1) by (rule default_rulesE)
  have "l1 = []" "l2 = []" using l(1,2) assms(2,3) s' by (simp_all add: cancellationRule_def noShowRule_def split: if_splits)
  moreover have "Kind ` set l3 \<subseteq> {LineBooking}" "Kind ` set l4 \<subseteq> {LineOvernight}" "Kind ` set l5 \<subseteq> {LineHourly}"
    using booking.own_kind [OF l(3)] overnight.own_kind [OF l(4)] hourly.own_kind [OF l(5)] by auto
  ultimately have "Kind ` set ls \<subseteq> {LineBooking, LineOvernight, LineHourly}" using ls by auto
  then have no: "LineNoShow \<notin> Kind ` set ls" by auto
  have "to_MLineKind (Kind l) \<noteq> MLineNoShow" if "l \<in> set ls" for l
    using no imageI [OF that, of Kind] by (cases "Kind l") auto
  then show ?thesis by (auto simp: line_charge_def eq_commute [of MLineNoShow])
qed

lemma late_fee_run:
  assumes "service_ok (w, [])" "quiet w" "pg_book w (cl_InvoiceId rq) = Some e" "e_status e = InvoiceOpen"
    "e_charges e = {#(MLineBooking, BookingFeeIDR (uc_cfg (main_uc P)))#}"
    "Apply (pf_tzdb P) (uc_engine (main_uc P)) (close_session (pf_tzdb P) rq) = Inr ls"
    "int64_ok (sint (total ls) + sint (NoShowFeeIDR (uc_cfg (main_uc P))))"
  shows "\<exists>f w1 w2 w3 e2. step P (w, []) (w1, [f]) \<and> step P (w1, [f]) (w2, [f]) \<and> step P (w2, [f]) (w3, []) \<and>
    w2 = perform P (RpcCloseInvoice c rq) w1 \<and> pg_book w2 (cl_InvoiceId rq) = Some e2 \<and> e_status e2 = InvoiceClosed \<and>
    e_total e2 = total ls \<and>
    pg_book w3 (cl_InvoiceId rq) = Some (charged [fee_line MLineNoShow (NoShowFeeIDR (uc_cfg (main_uc P))) ''no-show''] e2)"
proof -
  let ?iid = "cl_InvoiceId rq" and ?fee = "NoShowFeeIDR (uc_cfg (main_uc P))"
  have ok: "pg_ok w" "tx_sound w" using assms(1) by (simp_all add: service_ok_def)
  obtain i w1 where i: "getOpenInvoice (main_uc P) (e_reservation e) w = (Inr (Some i), w1)" "inv_ID i = ?iid"
    "reads_only w w1" "quiet w1" "pg_ok w1"
    using getOpenInvoice_quiet [OF assms(2) ok(1) assms(3,4), of "pf_config P" "pf_tzdb P"] by (auto simp: main_uc_def)
  define f where "f = noshow_fee P (e_reservation e) i"
  have s1: "step P (w, []) (w1, [f])" unfolding f_def by (rule noshow_read [OF i(1)])
  have t1: "tx_sound w1" by (rule keepsD [OF sound.keeps_usecase(5) ok(2) i(1) [unfolded main_uc_def]])
  have f1: "fresh_uuids w1" using t1 i(5) tx_sound_idle by (simp add: pg_ok_def)
  have b1: "pg_book w1 ?iid = Some e" using assms(3) i(3) by (simp add: reads_only_def pg_book_def)
  obtain x w2 where x: "CloseInvoice (main_uc P) ?iid (close_session (pf_tzdb P) rq) w1 = (Inr x, w2)"
    "inv_Status x = InvoiceClosed" "inv_TotalIDR x = total ls" "e_charges (entry_of x) = mset (map line_charge ls)"
    "pg_book w2 = (pg_book w1)(?iid \<mapsto> entry_of x)" "quiet w2"
    using checkout_quiet [OF i(5,4) f1 b1 assms(4), of "pf_config P" "close_session (pf_tzdb P) rq" "pf_tzdb P" ls] assms(5,6)
    by (auto simp: main_uc_def close_session_def)
  have "ScopeCloseInvoice \<noteq> ScopeOpenInvoice" by (simp add: ScopeCloseInvoice_def ScopeOpenInvoice_def)
  note un = served_unguarded [OF this]
  have w2: "w2 = perform P (RpcCloseInvoice c rq) w1" using x(1)
    by (simp add: un Server_CloseInvoice_def main_uc_def)
  have s2: "step P (w1, [f]) (w2, [f])" unfolding w2 by (rule request)
  have ok2: "pg_ok w2" "tx_sound w2" unfolding w2 using perform_moves [OF i(5)] perform_sound [OF i(5) t1] by blast+
  have b2: "pg_book w2 (inv_ID i) = Some (entry_of x)" using x(5) i(2) by simp
  have "MLineNoShow \<notin> fst ` set_mset (e_charges (entry_of x))"
    using bill_has_no_one_off [OF assms(6) [unfolded main_uc_def main_usecase_sel]] x(4) by (simp add: close_session_def)
  then obtain w3 where w3: "charge_fee P f w2 = (Inr (), w3)"
    "pg_book w3 = (pg_book w2)(inv_ID i \<mapsto> charged [fee_line MLineNoShow ?fee ''no-show''] (entry_of x))"
    using appendFee_quiet [OF x(6) ok2(1) _ b2, of MLineNoShow ?fee "pf_config P" "pf_tzdb P" "e_reservation e" "''no-show''"]
      assms(7) x(3) ok2 tx_sound_idle [of w2]
    by (auto simp: charge_fee_def main_uc_def f_def noshow_fee_def one_off_def pg_ok_def)
  have s3: "step P (w2, [f]) (w3, [])" using fee_charge [of f "[f]" P w2 "Inr ()" w3] w3(1) by simp
  show ?thesis using s1 s2 s3 w2 b2 i(2) w3(2) x(2,3)
    by - (rule exI [of _ f], rule exI [of _ w1], rule exI [of _ w2], rule exI [of _ w3], rule exI [of _ "entry_of x"],
        simp del: perform.simps)
qed

section \<open>A stay from booking to checkout\<close>

lemma created_quiet:
  assumes "service_ok (w, [])" "quiet w" "Option.bind body decodeCreated = Some ev" "uuid_text (cr_ReservationID ev)"
    "\<forall>e \<in> ran (pg_book w). e_reservation e \<noteq> cr_ReservationID ev \<and> e_key e \<noteq> cr_ReservationID ev"
  shows "\<exists>iid w1. Handle (main_uc P) EvtReservationCreated body w = (Inr (), w1) \<and> quiet w1 \<and> service_ok (w1, []) \<and>
    pg_book w1 = (pg_book w)(iid \<mapsto> new_entry (cr_ReservationID ev) (cr_DriverID ev) (cr_ReservationID ev)
      (BookingFeeIDR (uc_cfg (main_uc P)))) \<and> w_pr_schema w1 = w_pr_schema w"
proof -
  let ?r = "cr_ReservationID ev" and ?d = "cr_DriverID ev" and ?cfg = "uc_cfg (main_uc P)"
  have ok: "pg_ok w" "tx_sound w" "fresh_uuids w" using assms(1) tx_sound_idle [of w] by (auto simp: service_ok_def pg_ok_def)
  obtain x w1 where x: "invoiceRepo_Open ?r ?d ?r (BookingFeeIDR ?cfg) (Some (opened_payload ?cfg ?r ?d ?r)) w = (Inr x, w1)"
    "pg_book w1 = (pg_book w)(inv_ID x \<mapsto> entry_of x)" "entry_of x = new_entry ?r ?d ?r (BookingFeeIDR ?cfg)"
    using Open_quiet [OF assms(2) ok(1,3) assms(4), of ?r ?d "BookingFeeIDR ?cfg" "opened_payload ?cfg ?r ?d ?r"] assms(5)
    by (auto split: if_splits)
  have run: "Handle (main_uc P) EvtReservationCreated body w = (Inr (), w1)" using x(1) assms(3) uuid_trim [OF assms(4)]
    by (auto simp: Handle_def decoded_def handleCreated_def OpenInvoice_def main_uc_def NewInvoiceRepository_def)
  have "quiet w1" "w_pr_schema w1 = w_pr_schema w"
    using Open_effect [OF x(1)] ok(1) assms(2) by (auto simp: quiet_def same_tx_def pg_ok_def)
  moreover have "service_ok (w1, [])"
    using movesD [OF moves_Handle ok(1) run [unfolded main_uc_def]] keepsD [OF sound.keeps_Handle ok(2) run [unfolded main_uc_def]]
    by (simp add: service_ok_def)
  ultimately show ?thesis using run x(2,3) by auto
qed

lemma parked_chargeable:
  assumes "Apply tzdb (NewDefaultEngine cfg) s = Inr ls" "parked s"
  shows "chargeable t iid (filter (\<lambda>l. ml_Kind l \<noteq> MLineBooking) (dbLines ls))"
proof -
  have s: "CancelledAt s = None" "\<not> NoShow s" using assms(2) by (simp_all add: parked_def)
  have k: "\<not> one_off (to_MLineKind (Kind l)) \<and> (\<forall>u. to_MLineKind (Kind l) \<noteq> MLineKindOther u)" if "l \<in> set ls" for l
  proof -
    have "to_MLineKind (Kind l) \<noteq> MLineNoShow"
      using bill_has_no_one_off [OF assms(1) s] that by (force simp: line_charge_def)
    moreover have "Kind l \<in> {LineBooking, LineNoShow, LineOvernight, LineHourly}"
    proof (cases "Kind l = LineBooking")
      case False
      then have "Kind l \<in> set (map Kind (filter (\<lambda>l. Kind l \<noteq> LineBooking) ls))" using that by simp
      then show ?thesis using Apply_kinds [OF assms(1) s(1)] by (auto simp del: set_map)
    qed simp
    ultimately show ?thesis by (auto simp: one_off_def)
  qed
  have d: "set (dbLines ls) \<subseteq> toModelLine ` set ls" by (auto simp: dbLines_def)
  have none: "\<forall>l \<in> set (dbLines ls). \<not> one_off (ml_Kind l) \<and> (\<forall>u. ml_Kind l \<noteq> MLineKindOther u)"
    using d k by (fastforce simp: toModelLine_def)
  then have "filter one_off (map ml_Kind (filter (\<lambda>l. ml_Kind l \<noteq> MLineBooking) (dbLines ls))) = []"
    by (auto simp: filter_empty_conv)
  then show ?thesis using none unfolding chargeable_def by simp
qed

text \<open>A checkout of an OPEN invoice: it is closed with the bill, and the fees it had stay.\<close>

lemma checked_out_quiet:
  assumes "service_ok (w, [])" "quiet w" "Option.bind body decodeCheckedOut = Some ev" "pg_book w iid = Some e"
    "e_reservation e = ch_ReservationID ev"
    "Apply (pf_tzdb P) (uc_engine (main_uc P)) (checkout_session ev) = Inr ls"
  shows "\<exists>w' e'. Handle (main_uc P) EvtReservationCheckedOut body w = (Inr (), w') \<and> quiet w' \<and> service_ok (w', []) \<and>
    pg_book w' iid = Some e' \<and> (e_status e \<noteq> InvoiceOpen \<longrightarrow> e' = e) \<and>
    (e_status e = InvoiceOpen \<longrightarrow> e' = closed_entry (w_now w) (dbLines ls) e)"
proof -
  let ?s = "checkout_session ev"
  have ok: "pg_ok w" "tx_sound w" using assms(1) by (simp_all add: service_ok_def)
  have A: "Apply (pf_tzdb P) (NewDefaultEngine (pricingCfg (pf_config P))) ?s = Inr ls" using assms(6) by (simp add: main_uc_def)
  obtain i w1 where i: "GetInvoiceByReservation (main_uc P) (ch_ReservationID ev) w = (Inr i, w1)" "inv_ID i = iid"
    "reads_only w w1" "quiet w1" "pg_ok w1"
    using GetByReservation_quiet [OF assms(2) ok(1) assms(4)] assms(5)
    by (auto simp: GetInvoiceByReservation_def main_uc_def NewInvoiceRepository_def)
  have b1: "pg_book w1 iid = Some e" using assms(4) i(3) by (simp add: reads_only_def pg_book_def)
  obtain j w2 where j: "invoiceRepo_GetByID iid w1 = (Inr j, w2)" "reads_only w1 w2" "quiet w2" "pg_ok w2"
    using uc_GetByID_quiet [OF i(4,5) b1] by blast
  have ro: "reads_only w w2" by (rule reads_only_trans [OF i(3) j(2)])
  then have same: "w_tables w2 = w_tables w" "pg_book w2 = pg_book w" "w_now w2 = w_now w" "fresh_uuids w2" "w_saved w2 = None"
    using ok tx_sound_idle [of w] by (auto simp: reads_only_def same_tx_def pg_book_def fresh_uuids_def pg_ok_def)
  have run: "Handle (main_uc P) EvtReservationCheckedOut body w = (Inr (), w')"
    if "invoiceRepo_Close iid (dbLines ls) (Some (closed_payload iid ls (Some j) [])) w2 = (Inr x, w')" for x w'
    using i(1,2) j(1) A assms(3) that
    by (simp add: Handle_def decoded_def handleCheckedOut_def EvtReservationCreated_def EvtReservationCancelled_def main_uc_def
        EvtReservationExpired_def EvtReservationCheckedOut_def CloseInvoice_def lookupMSISDN_def NewInvoiceRepository_def andThen_def)
  obtain x w' where x: "invoiceRepo_Close iid (dbLines ls) (Some (closed_payload iid ls (Some j) [])) w2 = (Inr x, w')"
    "e_status e \<noteq> InvoiceOpen \<longrightarrow> pg_book w' iid = Some e"
    "e_status e = InvoiceOpen \<longrightarrow> pg_book w' iid = Some (closed_entry (w_now w) (dbLines ls) e)"
  proof (cases "e_status e = InvoiceOpen")
    case True
    then show ?thesis
      using that Close_quiet [OF j(4,3) same(4) _ True parked_chargeable [OF A parked_sessions(1)], of iid "closed_payload iid ls (Some j) []"]
        assms(4) same(2,3) by auto
  next
    case False
    obtain r where r: "find (\<lambda>r. iv_id r = iid) (t_invoice (w_tables w2)) = Some r" "iv_status r \<noteq> InvoiceOpen"
      using assms(4) False same(1) by (auto simp: pg_book_def view_def)
    then obtain w' where w': "invoiceRepo_Close iid (dbLines ls) (Some (closed_payload iid ls (Some j) [])) w2 =
        (Inr (invoice_of (w_tables w2) r), w')" using Close_done_total [OF j(3) same(5) r] by blast
    have "pg_book w' = pg_book w2" using pg_Close_law [OF j(4) w'] assms(4) False same(2) by (elim conjE disjE exE) (simp_all add: pg_book_def)
    then have "pg_book w' iid = Some e" using assms(4) same(2) by simp
    then show ?thesis using that [OF w'] False by simp
  qed
  note h = run [OF x(1)]
  have "service_ok (w', [])"
    using movesD [OF moves_Handle ok(1) h [unfolded main_uc_def]] keepsD [OF sound.keeps_Handle ok(2) h [unfolded main_uc_def]]
    by (simp add: service_ok_def)
  moreover have "quiet w'" using Close_effect [OF x(1)] same(5) j(3) by (auto simp: quiet_def same_tx_def)
  ultimately show ?thesis using h x by (cases "e_status e = InvoiceOpen") auto
qed

end
