(* ===== verification/Payments.thy ===== *)
theory Payments
  imports System
begin

text \<open>
  Payment requests over a whole run of the service: a settled request has its event in the outbox, and
  what settling lacks.
\<close>

section \<open>Settled requests are reported\<close>

definition settlement_event :: "PaymentRequestStatus \<Rightarrow> string option" where
  "settlement_event st =
     (if st = PaymentRequestSuccess then Some EvtPaymentSuccess
      else if st = PaymentRequestFailed then Some EvtPaymentFailed else None)"

lemma new_status_event: "new_status n = Some (st, ev) \<Longrightarrow> settlement_event st = Some ev"
  by (auto simp: new_status_def settlement_event_def split: if_splits)

text \<open>The event tells the status of a request, for the first request of its reference.\<close>

definition reports :: "PaymentRequest list \<Rightarrow> PaymentRequest \<Rightarrow> outbox_row \<Rightarrow> bool" where
  "reports ps q o1 \<longleftrightarrow> settlement_event (pr_Status q) = Some (ob_event_type o1) \<and>
     (\<exists>q0 \<in> set ps. pr_PaymentRef q0 = pr_PaymentRef q \<and> ob_aggregate_id o1 = pr_InvoiceID q0 \<and>
        ob_payload o1 = payment_payload q0 (pr_Status q))"

definition all_reported :: "PaymentRequest list \<Rightarrow> outbox_row list \<Rightarrow> bool" where
  "all_reported ps os \<longleftrightarrow>
     (\<forall>q \<in> set ps. settlement_event (pr_Status q) \<noteq> None \<longrightarrow> (\<exists>o1 \<in> set os. reports ps q o1))"

definition reported :: "tables \<Rightarrow> bool" where
  "reported t \<longleftrightarrow> all_reported (map paymentRequestRow_toModel (t_payment_requests t)) (t_outbox_event t)"

lemma reported_pays: "reported (w_tables w) \<longleftrightarrow> all_reported (pg_pays w) (outbox w)"
  by (simp add: reported_def pg_pays_def outbox_def)

lemma all_reported_mono: "all_reported ps os \<Longrightarrow> set os \<subseteq> set os' \<Longrightarrow> all_reported ps os'"
  by (force simp: all_reported_def)

lemma all_reported_pending:
  assumes "all_reported ps os" "settlement_event (pr_Status q) = None"
  shows "all_reported (ps @ [q]) os"
proof -
  have "reports ps x o1 \<Longrightarrow> reports (ps @ [q]) x o1" for x o1 by (auto simp: reports_def)
  then show ?thesis using assms unfolding all_reported_def by (metis Un_iff empty_iff empty_set insert_iff list.simps(15) set_append)
qed

text \<open>Settling changes no field that the payload of an event shows.\<close>

lemma settle_sel [simp]:
  "payment_payload (settle ref st now q) s = payment_payload q s" "pr_PaymentRef (settle ref st now q) = pr_PaymentRef q"
  "pr_InvoiceID (settle ref st now q) = pr_InvoiceID q"
  "pr_Status (settle ref st now q) = (if pr_PaymentRef q = ref then st else pr_Status q)"
  by (simp_all add: settle_def payment_payload_def)

lemma all_reported_settle:
  assumes "all_reported ps os" "find (\<lambda>p. pr_PaymentRef p = ref) ps = Some q" "settlement_event st = Some ev"
    "ob_event_type o1 = ev" "ob_aggregate_id o1 = pr_InvoiceID q" "ob_payload o1 = payment_payload q st"
  shows "all_reported (map (settle ref st now) ps) (os @ [o1])"
  unfolding all_reported_def
proof (intro ballI impI)
  fix x assume "x \<in> set (map (settle ref st now) ps)" and s: "settlement_event (pr_Status x) \<noteq> None"
  then obtain p where p: "p \<in> set ps" "x = settle ref st now p" by auto
  have q: "q \<in> set ps" "pr_PaymentRef q = ref" using find_Some_mem [OF assms(2)] by simp_all
  show "\<exists>o2 \<in> set (os @ [o1]). reports (map (settle ref st now) ps) x o2"
  proof (cases "pr_PaymentRef p = ref")
    case True
    then have "reports (map (settle ref st now) ps) x o1"
      using assms(3-6) p q unfolding reports_def by (auto intro!: bexI [of _ q])
    then show ?thesis by simp
  next
    case False
    then obtain o2 where o2: "o2 \<in> set os" "reports ps p o2" using assms(1) p s by (auto simp: all_reported_def)
    then have "reports (map (settle ref st now) ps) x o2" using False p unfolding reports_def by auto
    then show ?thesis using o2(1) by auto
  qed
qed

lemma stable_reported:
  assumes "\<And>w r w'. m w = (r, w') \<Longrightarrow> t_payment_requests (w_tables w') = t_payment_requests (w_tables w) \<and>
      set (t_outbox_event (w_tables w)) \<subseteq> set (t_outbox_event (w_tables w'))"
  shows "row_stable (\<lambda>_. reported) m"
  by (rule row_stableI) (metis assms all_reported_mono reported_def)

interpretation report: row_invariant "\<lambda>_. reported"
proof (unfold_locales, goal_cases)
  case (1 w t w')
  then show ?case by simp
qed (rule stable_reported, auto simp: statement_defs sql_insert_outbox_def split: if_splits option.splits)+

text \<open>Between operations, when no transaction is open, it is an invariant of every operation.\<close>

definition settled_ok :: "world \<Rightarrow> bool" where
  "settled_ok w \<longleftrightarrow> tx_holds (\<lambda>_. reported) w \<and> w_saved w = None"

lemma settled_ok_pays: "settled_ok w \<longleftrightarrow> w_saved w = None \<and> all_reported (pg_pays w) (outbox w)"
  by (auto simp: settled_ok_def reported_pays tx_holds_def)

lemma keeps_settled: "keeps (tx_holds (\<lambda>_. reported)) m \<Longrightarrow> keeps (\<lambda>w. w_saved w = None) m \<Longrightarrow> keeps settled_ok m"
  by (simp add: keeps_def settled_ok_def)

lemma settled_reads: "settled_ok w \<Longrightarrow> reads_only w w' \<Longrightarrow> settled_ok w'"
  using report.tx_holds_reads [of w w'] by (simp add: settled_ok_def reads_only_def same_tx_def)

lemma stores_status: "stores f req q \<Longrightarrow> pr_Status q = pr_Status req"
  unfolding stores_def as_stored_def by (drule conjunct1, drule arg_cong [where f = pr_Status]) simp

lemma settled_Create: "keeps settled_ok (CreatePaymentRequest (main_usecase c tzdb) input)"
proof (rule keepsI)
  fix w r w'
  assume I: "settled_ok w" and "CreatePaymentRequest (main_usecase c tzdb) input w = (r, w')"
  from this(2) show "settled_ok w'"
  proof (cases rule: CreatePaymentRequest_runs)
    case reads
    then show ?thesis using settled_reads [OF I] by blast
  next
    case (creates i w1 req s)
    have I1: "w_saved w1 = None" "all_reported (pg_pays w1) (outbox w1)"
      using settled_reads [OF I creates(2)] by (simp_all add: settled_ok_pays)
    have "all_reported (pg_pays w1 @ [q]) (outbox w1)" if "stores f req q" for f q
      using stores_status [OF that] creates(7) all_reported_pending [OF I1(2)] by (simp add: settlement_event_def)
    then show ?thesis using Create_effect [OF creates(4)] I1 by (auto simp: settled_ok_pays same_tx_def)
  qed
qed

lemma settled_Notification: "keeps settled_ok (HandlePaymentNotification (main_usecase c tzdb) body)"
proof (rule keepsI)
  fix w r w'
  assume I: "settled_ok w" and "HandlePaymentNotification (main_usecase c tzdb) body w = (r, w')"
  from this(2) show "settled_ok w'"
  proof (cases rule: Notification_runs)
    case reads
    then show ?thesis using settled_reads [OF I] by blast
  next
    case (settles n st ev pr w1 s)
    have I1: "w_saved w1 = None" "all_reported (pg_pays w1) (outbox w1)"
      using settled_reads [OF I settles(1)] by (simp_all add: settled_ok_pays)
    have pays: "pg_pays w1 = pg_pays w" using settles(1) by (simp add: reads_only_def pg_pays_def)
    have f: "find (\<lambda>p. pr_PaymentRef p = pn_OrderID n) (pg_pays w1) = Some pr"
      using GetByPaymentRef_law [OF settles(3)] pays by simp
    note eff = Update_effect [OF I1(1) settles(4)]
    have idle: "w_saved w' = None" using eff I1(1) by (auto simp: same_tx_def)
    show ?thesis
    proof (cases "w_tables w' = w_tables w1")
      case True
      then show ?thesis using idle I1(2) by (simp add: settled_ok_pays pg_pays_def outbox_def)
    next
      case False
      then obtain k where new: "pg_pays w' = map (settle (pn_OrderID n) st (w_now w1)) (pg_pays w1)"
          "outbox w' = outbox w1 @ [outbox_row_of k (pr_InvoiceID pr) ev (payment_payload pr st) (w_now w1)]"
        using eff f by auto
      have "all_reported (pg_pays w') (outbox w')" unfolding new
        by (rule all_reported_settle [OF I1(2) f new_status_event [OF settles(2)]]) (simp_all add: outbox_row_of_def)
      then show ?thesis using idle by (simp add: settled_ok_pays)
    qed
  qed
qed

interpretation settled: repository_invariant settled_ok
  by unfold_locales (rule settled_Create settled_Notification keeps_settled report.keeps_Open report.keeps_Close
      report.keeps_AppendLine report.keeps_select report.keeps_Put idle_ops idle_reads idle_Put)+

lemma tick_settled:
  assumes "settled_ok w"
  shows "settled_ok (snd (tick p w))"
proof -
  obtain ids where "w_tables (snd (tick p w)) = mark_outbox (w_now w) ids (w_tables w)" "w_saved (snd (tick p w)) = w_saved w"
    using tick_tables [of p w] by blast
  then have "w_saved (snd (tick p w)) = w_saved w" "pg_pays (snd (tick p w)) = pg_pays w" "outbox (snd (tick p w)) = map (mark_row (w_now w) ids) (outbox w)"
    by (simp_all add: pg_pays_def outbox_def)
  moreover have "reports ps q (mark_row now ids o1) = reports ps q o1" for ps q now o1 
    by (simp add: reports_def mark_row_def)
  ultimately show ?thesis using assms by (auto simp: settled_ok_pays all_reported_def)
qed

interpretation settling: transition_system "step P" initial "\<lambda>s. settled_ok (fst s)" for P
proof (unfold_locales, goal_cases)
  case (1 s)
  then show ?case by (simp add: settled_ok_pays all_reported_def pg_pays_def initial_def no_tables_def)
next
  case (2 s s')
  show ?case
    by (rule settled.step_keeps [OF 2(2,1) tick_settled [OF 2(1)]])
      (use 2(1) in \<open>simp add: settled_ok_pays pg_pays_def outbox_def\<close>)
qed

section \<open>Settling is neither final nor idempotent\<close>

lemma find_settled:
  "find (\<lambda>p. pr_PaymentRef p = ref) (map (settle r st now) ps) = map_option (settle r st now) (find (\<lambda>p. pr_PaymentRef p = ref) ps)"
  by (induction ps) auto

text \<open>
  C22: no notification is the last one. When the database answers, a second notification for a payment request, whatever the
  first one said, overwrites its status and stores another event: a redelivered notification announces the same
  settlement twice, and an expiry that comes after a success makes the paid request FAILED.
\<close>

theorem settlement_is_not_final:
  assumes "pg_ok w" and "quiet w" and "find (\<lambda>p. pr_PaymentRef p = ref) (pg_pays w) = Some q" and "ref \<noteq> []"
    and "decodeNotification v1 = Some n1" and "pn_OrderID n1 = ref" and "new_status n1 = Some (st1, ev1)"
    and "decodeNotification v2 = Some n2" and "pn_OrderID n2 = ref" and "new_status n2 = Some (st2, ev2)"
  shows "\<exists>w1 w2 q2 k1 k2. HandlePaymentNotification (main_usecase c tzdb) (Some v1) w = (Inr (), w1) \<and>
    HandlePaymentNotification (main_usecase c tzdb) (Some v2) w1 = (Inr (), w2) \<and>
    find (\<lambda>p. pr_PaymentRef p = ref) (pg_pays w2) = Some q2 \<and> pr_Status q2 = st2 \<and>
    outbox w2 = outbox w @ [outbox_row_of k1 (pr_InvoiceID q) ev1 (payment_payload q st1) (w_now w),
                            outbox_row_of k2 (pr_InvoiceID q) ev2 (payment_payload q st2) (w_now w)]"
proof -
  have ref: "pr_PaymentRef q = ref" using find_Some_mem [OF assms(3)] by simp
  obtain w1 k1 where w1: "HandlePaymentNotification (main_usecase c tzdb) (Some v1) w = (Inr (), w1)" "pg_ok w1" "quiet w1"
    "w_now w1 = w_now w" "pg_pays w1 = map (settle ref st1 (w_now w)) (pg_pays w)"
    "outbox w1 = outbox w @ [outbox_row_of k1 (pr_InvoiceID q) ev1 (payment_payload q st1) (w_now w)]"
    using notification_quiet [OF assms(1,2,5) _ assms(7), of q c tzdb] assms(3,4,6) by auto
  let ?q1 = "settle ref st1 (w_now w) q"
  have f: "find (\<lambda>p. pr_PaymentRef p = ref) (pg_pays w1) = Some ?q1" using assms(3) by (simp add: w1(5) find_settled)
  obtain w2 k2 where w2: "HandlePaymentNotification (main_usecase c tzdb) (Some v2) w1 = (Inr (), w2)"
    "pg_pays w2 = map (settle ref st2 (w_now w)) (pg_pays w1)"
    "outbox w2 = outbox w1 @ [outbox_row_of k2 (pr_InvoiceID q) ev2 (payment_payload q st2) (w_now w)]"
    using notification_quiet [OF w1(2,3) assms(8) _ assms(10), of ?q1 c tzdb] f assms(4,9) w1(4) by auto
  have "find (\<lambda>p. pr_PaymentRef p = ref) (pg_pays w2) = Some (settle ref st2 (w_now w) ?q1)" by (simp add: w2(2) find_settled f)
  then show ?thesis using w1(1,6) w2(1,3) ref
    by (intro exI [of _ w1] exI [of _ w2] exI [of _ "settle ref st2 (w_now w) ?q1"] exI [of _ k1] exI [of _ k2]) simp
qed

definition expired_note :: json where
  "expired_note = JObj [(''order_id'', JStr ''PAY-''), (''transaction_status'', JStr ''expire'')]"

lemma decode_notes:
  "decodeNotification unsigned = Some \<lparr>pn_OrderID = ''PAY-'', pn_TransactionStatus = ''settlement'', pn_FraudStatus = [], pn_GrossAmount = [], pn_SignatureKey = []\<rparr>"
  "decodeNotification expired_note = Some \<lparr>pn_OrderID = ''PAY-'', pn_TransactionStatus = ''expire'', pn_FraudStatus = [], pn_GrossAmount = [], pn_SignatureKey = []\<rparr>"
  by (simp_all add: decodeNotification_def unsigned_def expired_note_def object_of_def as_string_def)

theorem settlement_is_not_final_witness:
  "\<exists>w w1 w2 q2. HandlePaymentNotification (main_usecase envDefault None) (Some unsigned) w = (Inr (), w1) \<and>
     HandlePaymentNotification (main_usecase envDefault None) (Some expired_note) w1 = (Inr (), w2) \<and>
     find (\<lambda>p. pr_PaymentRef p = ''PAY-'') (pg_pays w2) = Some q2 \<and> pr_Status q2 = PaymentRequestFailed \<and>
     length (outbox w2) = length (outbox w) + 2"
proof -
  obtain x w where x: "paymentRequestRepo_Create sample_request (one_world (\<lambda>_. None) (\<lambda>_. None) 7) = (Inr x, w)"
    "quiet w" "pr_PaymentRef x = ''PAY-''" using sample_Create by blast
  let ?q = "as_stored (pg_expiry (one_world (\<lambda>_. None) (\<lambda>_. None) 7)) x"
  have w: "pg_ok w" "pg_pays w = pg_pays (one_world (\<lambda>_. None) (\<lambda>_. None) 7) @ [?q]"
    using pg_Create_law [OF one_world_ok x(1)] by (auto simp: sample_request_def answers_def)
  have "find (\<lambda>p. pr_PaymentRef p = ''PAY-'') (pg_pays w) = Some ?q"
    using w(2) x(3) by (simp add: pg_pays_def one_tables_def no_tables_def table_ops find_append)
  from settlement_is_not_final [OF w(1) x(2) this _ decode_notes(1) _ _ decode_notes(2), of PaymentRequestSuccess EvtPaymentSuccess
      PaymentRequestFailed EvtPaymentFailed envDefault None]
  obtain w1 w2 q2 k1 k2 where "HandlePaymentNotification (main_usecase envDefault None) (Some unsigned) w = (Inr (), w1)"
    "HandlePaymentNotification (main_usecase envDefault None) (Some expired_note) w1 = (Inr (), w2)"
    "find (\<lambda>p. pr_PaymentRef p = ''PAY-'') (pg_pays w2) = Some q2" "pr_Status q2 = PaymentRequestFailed"
    "outbox w2 = outbox w @ [outbox_row_of k1 (pr_InvoiceID ?q) EvtPaymentSuccess (payment_payload ?q PaymentRequestSuccess) (w_now w),
       outbox_row_of k2 (pr_InvoiceID ?q) EvtPaymentFailed (payment_payload ?q PaymentRequestFailed) (w_now w)]"
    by (auto simp: new_status_def)
  then show ?thesis by (intro exI [of _ w] exI [of _ w1] exI [of _ w2] exI [of _ q2]) simp
qed

section \<open>A payment from request to settlement\<close>

lemma CreatePaymentRequest_quiet:
  assumes "pg_ok w" "quiet w" "pg_book w iid = Some e" "ci_ReservationID input = e_reservation e"
    "payment_input_error input = None" "\<And>ps row. \<not> ps_conflict (w_pr_schema w) ps row"
  shows "\<exists>x w'. CreatePaymentRequest (main_usecase c tzdb) input w = (Inr x, w') \<and> pg_ok w' \<and> quiet w'"
proof -
  obtain x w' where x: "CreatePaymentRequest (main_usecase c tzdb) input w = (Inr x, w')"
    using CreatePaymentRequest_total [OF assms(1-5), of c tzdb] assms(6) by blast
  have "quiet w'" using x
  proof (cases rule: CreatePaymentRequest_runs)
    case reads
    then show ?thesis using assms(2) by (simp add: reads_only_def same_tx_def quiet_def)
  next
    case (creates i w1 req s)
    then show ?thesis using Create_effect [OF creates(4)] assms(2) by (simp add: reads_only_def same_tx_def quiet_def)
  qed
  then show ?thesis using x svcp.CreatePaymentRequest_spec [OF assms(1) x] by blast
qed

end
