(* ===== verification/Replicas.thy ===== *)
theory Replicas
  imports System
begin

text \<open>
  Several replicas of the service over one database and one broker. Servers, consumers and fee handlers of all
  replicas are steps of \<^verbatim>\<open>System\<close>, which nothing ties to one process; the outbox workers are split here into the
  calls they make, so that they overlap with each other and with everything else, and a replica may die between any
  two calls.
\<close>

section \<open>A worker, one call at a time\<close>

text \<open>
  Where a worker is in \<open>tick\<close>: between ticks, or with the rows still to send and the identifiers of those sent.
  \<open>fetchUnpublishedSQL\<close> runs outside a transaction, so its row locks (\<open>FOR UPDATE SKIP LOCKED\<close>) end with the
  statement and keep no other worker from the rows.
\<close>

datatype worker = Idle | Sending "OutboxRow list" "int list"

fun worker_step :: "OutboxPublisher \<Rightarrow> worker \<Rightarrow> world \<Rightarrow> worker \<times> world" where
  "worker_step p Idle w =
     (case outboxRepo_FetchUnpublished (op_batch p) w of
        (Inl _, w') \<Rightarrow> (Idle, w')
      | (Inr rows, w') \<Rightarrow> (if rows = [] then Idle else Sending rows [], w'))"
| "worker_step p (Sending (r # rs) published) w =
     (case Publish (or_EventType r) (or_Payload r) w of
        (Inl _, w') \<Rightarrow> (Sending [] published, w')
      | (Inr _, w') \<Rightarrow> (Sending rs (published @ [or_ID r]), w'))"
| "worker_step p (Sending [] published) w = (Idle, snd (outboxRepo_MarkPublished published w))"

definition worker_moves :: "OutboxPublisher \<Rightarrow> worker \<times> world \<Rightarrow> worker \<times> world \<Rightarrow> bool" where
  "worker_moves p a b \<longleftrightarrow> worker_step p (fst a) (snd a) = b"

section \<open>By itself it does what \<open>tick\<close> does\<close>

lemma sends_in_steps:
  assumes "publishRows rs published w = (r, w')"
  shows "\<exists>done. r = Inr done \<and> (worker_moves p)\<^sup>*\<^sup>* (Sending rs published, w) (Sending [] done, w')"
  using assms
proof (induction rs arbitrary: published w)
  case (Cons r1 rs)
  obtain s w1 where s: "Publish (or_EventType r1) (or_Payload r1) w = (s, w1)"
    by (cases "Publish (or_EventType r1) (or_Payload r1) w")
  show ?case
  proof (cases s)
    case (Inl e)
    then have "worker_moves p (Sending (r1 # rs) published, w) (Sending [] published, w1)" using s by (simp add: worker_moves_def)
    then show ?thesis using Cons.prems s Inl by (auto simp: attempt_def)
  next
    case (Inr u)
    then have st: "worker_moves p (Sending (r1 # rs) published, w) (Sending rs (published @ [or_ID r1]), w1)"
      using s by (simp add: worker_moves_def)
    have "publishRows rs (published @ [or_ID r1]) w1 = (r, w')" using Cons.prems s Inr by (simp add: attempt_def)
    from Cons.IH [OF this] show ?thesis using converse_rtranclp_into_rtranclp [of "worker_moves p", OF st] by blast
  qed
qed auto

lemma tick_in_steps: "(worker_moves p)\<^sup>*\<^sup>* (Idle, w) (Idle, snd (tick p w))"
proof -
  obtain f w1 where f: "outboxRepo_FetchUnpublished (op_batch p) w = (f, w1)"
    by (cases "outboxRepo_FetchUnpublished (op_batch p) w")
  show ?thesis
  proof (cases "\<exists>rows. f = Inr rows \<and> rows \<noteq> []")
    case False
    then have "worker_moves p (Idle, w) (Idle, w1)" using f by (auto simp: worker_moves_def split: sum.split)
    then show ?thesis using False f by (auto simp: tick_def attempt_def split: sum.split)
  next
    case True
    then obtain rows where rows: "f = Inr rows" "rows \<noteq> []" by blast
    obtain q w2 where q: "publishRows rows [] w1 = (q, w2)" by (cases "publishRows rows [] w1")
    obtain published where p: "q = Inr published" "(worker_moves p)\<^sup>*\<^sup>* (Sending rows [], w1) (Sending [] published, w2)"
      using sends_in_steps [OF q] by blast
    have "worker_moves p (Idle, w) (Sending rows [], w1)" using f rows by (simp add: worker_moves_def)
    moreover have "worker_moves p (Sending [] published, w2) (Idle, snd (outboxRepo_MarkPublished published w2))"
      by (simp add: worker_moves_def)
    moreover have "snd (tick p w) = snd (outboxRepo_MarkPublished published w2)"
      using f rows q p(1) by (simp add: tick_def attempt_def andThen_def split: prod.split)
    ultimately show ?thesis using p(2) by (metis converse_rtranclp_into_rtranclp rtranclp.rtrancl_into_rtrancl)
  qed
qed

section \<open>Replicas\<close>

type_synonym replica_state = "service_state \<times> (nat \<Rightarrow> worker)"

inductive replica_step :: "platform \<Rightarrow> replica_state \<Rightarrow> replica_state \<Rightarrow> bool" for P where
  serve: "step P s s' \<Longrightarrow> replica_step P (s, ws) (s', ws)"
| work: "worker_step NewOutboxPublisher (ws k) w = (a, w') \<Longrightarrow> replica_step P ((w, fs), ws) ((w', fs), ws(k := a))"
| crash: "replica_step P (s, ws) (s, ws(k := Idle))"

inductive_cases replica_stepE: "replica_step P s s'"

text \<open>What a worker holds are events of the outbox, and what it has sent the broker has.\<close>

fun holds :: "world \<Rightarrow> worker \<Rightarrow> bool" where
  "holds w Idle = True"
| "holds w (Sending rs published) \<longleftrightarrow>
     (\<forall>r \<in> set rs. (or_ID r, or_EventType r, or_Payload r) \<in> event_rows w) \<and>
     (\<forall>i \<in> set published. \<exists>m. (i, m) \<in> event_rows w \<and> m \<in> set (w_sent w))"

lemma holds_mono:
  "holds w a \<Longrightarrow> event_rows w \<subseteq> event_rows w' \<Longrightarrow> set (w_sent w) \<subseteq> set (w_sent w') \<Longrightarrow> holds w' a"
  by (cases a; simp; blast)

text \<open>Messages that were sent stay sent.\<close>

interpretation sent: payment_row_invariant "\<lambda>w _. X \<subseteq> set (w_sent w)" for X
proof (unfold_locales, goal_cases)
  case (1 w t w')
  then show ?case by simp
next
  case (4 i ev q)
  show ?case by (rule row_stableI) (auto simp: sql_insert_outbox_def Let_def split: option.splits)
qed (rule row_stableI, auto simp: statement_defs split: if_splits option.splits)+

lemma step_sent:
  assumes "service_ok s" "step P s s'"
  shows "set (w_sent (fst s)) \<subseteq> set (w_sent (fst s'))"
proof -
  let ?I = "tx_holds (\<lambda>w _. set (w_sent (fst s)) \<subseteq> set (w_sent w))"
  have idle: "w_saved (fst s) = None" using assms(1) by (simp add: service_ok_def pg_ok_def)
  have I: "?I (fst s)" using idle by (simp add: tx_holds_def)
  have "\<exists>ms. w_sent (snd (tick p w)) = w_sent w @ ms" for p w
    using tick_effect [OF surjective_pairing, of p w] by (auto simp: Let_def)
  then have T: "?I (snd (tick NewOutboxPublisher (fst s)))"
    using tick_tables [of NewOutboxPublisher "fst s"] idle by (metis Un_upper1 set_append tx_holds_idle)
  have "?I (fst s')" by (rule sent.step_keeps [OF assms(2) I T]) (use I in \<open>simp add: tx_holds_def\<close>)
  then show ?thesis by (simp add: tx_holds_def)
qed

section \<open>What every interleaving keeps\<close>

definition replica_ok :: "replica_state \<Rightarrow> bool" where
  "replica_ok s \<longleftrightarrow> service_ok (fst s) \<and> (\<forall>k. holds (fst (fst s)) (snd s k))"

text \<open>What one call of a worker does: \<open>calm w w'\<close> says that nothing changed but what is sent and marked.\<close>

definition calm :: "world \<Rightarrow> world \<Rightarrow> bool" where
  "calm w w' \<longleftrightarrow> pg_ok w' \<and> tx_sound w' \<and> account_of w' = account_of w \<and> event_rows w' = event_rows w \<and>
     set (w_sent w) \<subseteq> set (w_sent w')"

lemma row_event: "o1 \<in> set (outbox w) \<Longrightarrow> (ob_id o1, ob_event_type o1, ob_payload o1) \<in> event_rows w"
  by (force simp: event_rows_def message_def)

lemma calm_reads:
  assumes "pg_ok w" "tx_sound w" "reads_only w w'"
  shows "calm w w'"
proof -
  have "pg_ok w'" using pg_ok_reads [OF assms(1,3)] by simp
  moreover have "tx_sound w'" by (rule sound.tx_holds_reads [OF assms(2,3)])
  ultimately show ?thesis using assms(3)
    by (simp add: calm_def account_reads reads_only_def same_tx_def event_rows_def outbox_def)
qed

lemma calm_publish:
  assumes "pg_ok w" "tx_sound w" "(i, k, b) \<in> event_rows w" "Publish k b w = (r, w')"
  shows "calm w w' \<and> (\<forall>u. r = Inr u \<longrightarrow> (k, b) \<in> set (w_sent w'))"
proof -
  have idle: "w_saved w = None" using assms(1) by (simp add: pg_ok_def)
  have d: "delivered w" "fresh_uuids w" using tx_sound_idle [OF idle] assms(2) by simp_all
  have mem: "(k, b) \<in> message ` set (outbox w)" using assms(3) by (auto simp: event_rows_def)
  obtain n ms where w': "w' = w\<lparr>w_pubs := n, w_sent := w_sent w @ ms\<rparr>" "set ms \<subseteq> {(k, b)}" "r = Inr () \<longrightarrow> ms = [(k, b)]"
  proof (cases rule: Publish_cases [of k b w])
    case sent
    show ?thesis by (rule that [where n = "w_pubs w + 1" and ms = "[(k, b)]"]) (use assms(4) sent in simp_all)
  next
    case (failed e)
    then have "r = Inl e" "w' = w\<lparr>w_pubs := w_pubs w + 1\<rparr>" using assms(4) by simp_all
    then show ?thesis by (intro that [where n = "w_pubs w + 1" and ms = "[]"]) (cases w; simp)+
  next
    case (lost e)
    show ?thesis by (rule that [where n = "w_pubs w + 1" and ms = "[(k, b)]"]) (use assms(4) lost(1) in simp_all)
  qed
  have idle': "w_saved w' = None" using idle w'(1) by simp
  have ok: "pg_ok w'" using assms(1) unfolding w'(1) by (simp add: pg_ok_def serials_ok_def)
  have "delivered w'" using d(1) mem w'(2) unfolding w'(1) by (auto simp: delivered_def outbox_def)
  moreover have "fresh_uuids w'" using d(2) unfolding w'(1) by (simp add: fresh_uuids_def)
  ultimately have "tx_sound w'" using tx_sound_idle [OF idle'] by simp
  moreover have "account_of w' = account_of w" by (rule account_tables) (simp add: w'(1))
  moreover have "event_rows w' = event_rows w" "set (w_sent w) \<subseteq> set (w_sent w')" by (simp_all add: w'(1) event_rows_def outbox_def)
  ultimately show ?thesis using ok w'(1,3) by (auto simp: calm_def)
qed

lemma calm_mark:
  assumes "pg_ok w" "tx_sound w" "\<forall>i \<in> set ids. \<exists>m. (i, m) \<in> event_rows w \<and> m \<in> set (w_sent w)"
    "outboxRepo_MarkPublished ids w = (r, w')"
  shows "calm w w'"
proof (cases rule: mark_cases [of ids w])
  case (fault e w1)
  then show ?thesis using assms(4) calm_reads [OF assms(1,2)] by simp
next
  case (marked q w1)
  then have tx: "same_tx w w'" and t: "w_tables w' = mark_outbox (w_now w) ids (w_tables w)" using assms(4) by simp_all
  have idle: "w_saved w = None" "w_saved w' = None" using assms(1) tx by (simp_all add: pg_ok_def same_tx_def)
  have d: "delivered w" "fresh_uuids w" using tx_sound_idle [OF idle(1)] assms(2) by simp_all
  have ser: "serials_ok w" using assms(1) by (simp add: pg_ok_def)
  have out: "outbox w' = map (mark_row (w_now w) ids) (outbox w)" using t by (simp add: outbox_def)
  have sent: "message o1 \<in> set (w_sent w')"
    if "o1 \<in> set (outbox w)" "ob_published_at (mark_row (w_now w) ids o1) \<noteq> None" for o1
  proof (cases "ob_id o1 \<in> set ids")
    case True
    then obtain o2 where "o2 \<in> set (outbox w)" "ob_id o2 = ob_id o1" "message o2 \<in> set (w_sent w)"
      using assms(3) by (fastforce simp: event_rows_def)
    then show ?thesis using serials_inj [OF ser _ that(1)] tx by (auto simp: same_tx_def)
  next
    case False
    then show ?thesis using that d(1) tx by (auto simp: delivered_def mark_row_def same_tx_def)
  qed
  have "set (w_sent w') \<subseteq> message ` set (outbox w)" using d(1) tx by (auto simp: delivered_def same_tx_def)
  then have "delivered w'" using sent by (auto simp: delivered_def out image_image)
  moreover have "fresh_uuids w'" using d(2) tx t by (auto simp: fresh_uuids_def same_tx_def)
  ultimately have "tx_sound w'" using tx_sound_idle [OF idle(2)] by simp
  moreover have "pg_ok w'" "pg_book w' = pg_book w"
    using assms(1) tx t mark_books_ok view_cong [of "w_tables w'" "w_tables w"]
    by (auto simp: pg_ok_def serials_ok_def pg_book_def same_tx_def comp_def)
  then have "pg_ok w'" "account_of w' = account_of w" using t by (simp_all add: account_of_def pg_pays_def out comp_def)
  ultimately show ?thesis using tx by (auto simp: calm_def event_rows_def out image_image same_tx_def)
qed

lemma worker_calm:
  assumes "pg_ok w" "tx_sound w" "holds w a" "worker_step p a w = (a', w')"
  shows "calm w w' \<and> holds w' a'"
proof (cases a)
  case Idle
  show ?thesis
  proof (cases rule: fetch_cases [of "op_batch p" w])
    case (rows w1)
    have "set (take (op_batch p) (unpublished (w_tables w))) \<subseteq> set (outbox w)"
      using unpublished_sub set_take_subset by (metis subset_trans)
    then have ev: "(ob_id r, ob_event_type r, ob_payload r) \<in> event_rows w"
      if "r \<in> set (take (op_batch p) (unpublished (w_tables w)))" for r using that row_event by blast
    have a': "w' = w1" "a' = Idle \<or> a' = Sending (map toOutboxRow (take (op_batch p) (unpublished (w_tables w)))) []"
      using assms(4) Idle rows(1) by (auto split: if_splits)
    have "holds w a'" using a'(2) ev by auto
    then show ?thesis using calm_reads [OF assms(1,2) rows(2)] holds_mono [of w a' w1] a'(1) by (simp add: calm_def)
  next
    case (fault e w1)
    then show ?thesis using assms(4) Idle calm_reads [OF assms(1,2) fault(2)] by auto
  qed
next
  case (Sending rs published)
  show ?thesis
  proof (cases rs)
    case Nil
    obtain q where "outboxRepo_MarkPublished published w = (q, w')" using assms(4) Sending Nil
      by (cases "outboxRepo_MarkPublished published w") auto
    from calm_mark [OF assms(1,2) _ this] show ?thesis using assms(3,4) Sending Nil by auto
  next
    case (Cons r rs')
    obtain q where q: "Publish (or_EventType r) (or_Payload r) w = (q, w')"
      "a' = (case q of Inl _ \<Rightarrow> Sending [] published | Inr _ \<Rightarrow> Sending rs' (published @ [or_ID r]))"
      using assms(4) Sending Cons by (auto split: prod.splits sum.splits)
    have c: "calm w w'" "\<forall>u. q = Inr u \<longrightarrow> (or_EventType r, or_Payload r) \<in> set (w_sent w')"
      using calm_publish [OF assms(1,2) _ q(1)] assms(3) Sending Cons by auto
    then have h: "holds w' (Sending rs published)" using holds_mono [OF assms(3) [unfolded Sending], of w'] by (simp add: calm_def)
    have "\<exists>m. (or_ID r, m) \<in> event_rows w' \<and> m \<in> set (w_sent w')" if "q = Inr u" for u
      using h c(2) that Cons by auto
    then have "holds w' a'" using h q(2) Cons by (cases q) auto
    then show ?thesis using c(1) by simp
  qed
qed

lemma replica_step_ok:
  assumes "replica_ok s" "replica_step P s s'"
  shows "replica_ok s' \<and> accrues (pg_book (fst (fst s))) (pg_book (fst (fst s')))"
  using assms(2)
proof (cases rule: replica_step.cases)
  case (serve v v' ws)
  then have ok: "service_ok v" using assms(1) by (simp add: replica_ok_def)
  have "holds (fst v') (ws k)" for k
    using holds_mono [OF _ step_rows [OF ok serve(3)] step_sent [OF ok serve(3)]] assms(1) serve by (simp add: replica_ok_def)
  then show ?thesis using serve step_sound [OF ok serve(3)] by (simp add: replica_ok_def)
next
  case (work ws k w a w' fs)
  have ok: "pg_ok w" "tx_sound w" "holds w (ws k)" using assms(1) work by (auto simp: replica_ok_def service_ok_def)
  have c: "calm w w'" "holds w' a" using worker_calm [OF ok work(3)] by simp_all
  then have "holds w' (ws j)" for j using assms(1) work holds_mono [of w "ws j" w'] by (auto simp: replica_ok_def calm_def)
  moreover have "pg_book w' = pg_book w" using c(1) by (simp add: calm_def account_of_def)
  ultimately show ?thesis using work c assms(1) by (auto simp: replica_ok_def service_ok_def calm_def intro: evolves_accrues)
next
  case (crash v ws k)
  then show ?thesis using assms(1) by (auto simp: replica_ok_def intro: evolves_accrues)
qed

definition replicas_start :: "replica_state \<Rightarrow> bool" where
  "replicas_start s \<longleftrightarrow> initial (fst s) \<and> (\<forall>k. snd s k = Idle)"

interpretation replicas: evolving_system "replica_step P" replicas_start replica_ok "\<lambda>s. pg_book (fst (fst s))" accrues for P
proof (unfold_locales, goal_cases)
  case (1 s)
  then show ?case by (simp add: replicas_start_def replica_ok_def initial_ok)
next
  case (2 s s')
  then show ?case using replica_step_ok by blast
next
  case (5 s s')
  then show ?case using replica_step_ok by blast
qed (auto intro: accrues_trans evolves_accrues)

text \<open>Any number of replicas implements the machine of \<^verbatim>\<open>Tariff\<close>: what workers do leaves the account alone.\<close>

lemma replica_step_billing:
  assumes "replica_ok s" "billing_kept P (fst s)" "replica_step P s s'"
  shows "billing_kept P (fst s') \<and> billing True (pf_config P) (pf_tzdb P) (fst (fst s)) (fst (fst s'))"
  using assms(3)
proof (cases rule: replica_step.cases)
  case (serve v v' ws)
  then show ?thesis using assms(2) bills.step_inv [of P v v'] bills.step_R [of P v v'] by simp
next
  case (work ws k w a w' fs)
  have "pg_ok w" "tx_sound w" "holds w (ws k)" using assms(1) work by (auto simp: replica_ok_def service_ok_def)
  then have c: "calm w w'" using worker_calm [OF _ _ _ work(3)] by simp
  then have "pg_book w' = pg_book w" by (simp add: calm_def account_of_def)
  then show ?thesis using c work assms(2) replica_step_ok [OF assms(1,3)]
    by (simp add: billing_kept_def calm_def replica_ok_def)
next
  case (crash v ws k)
  then show ?thesis using assms(2) by simp
qed

interpretation replica_bills: evolving_system "replica_step P" replicas_start
    "\<lambda>s. replica_ok s \<and> billing_kept P (fst s)" "\<lambda>s. fst (fst s)" "billing True (pf_config P) (pf_tzdb P)" for P
proof (unfold_locales, goal_cases)
  case (2 s s')
  then show ?case using replica_step_ok [of s P s'] replica_step_billing [of s P s'] by blast
next
  case (5 s s')
  then show ?case using replica_step_billing [of s P s'] by blast
qed (auto simp: replicas.init_inv replicas_start_def initial_billing)

section \<open>Two workers on the same rows\<close>

lemma send_all:
  assumes "w_pub_faults w = (\<lambda>_. None)"
  shows "publishRows (map toOutboxRow rs) published w =
    (Inr (published @ map ob_id rs), w\<lparr>w_pubs := w_pubs w + length rs, w_sent := w_sent w @ map message rs\<rparr>)"
  using assms
proof (induction rs arbitrary: published w)
  case Nil
  then show ?case by (cases w) simp
next
  case (Cons r rs)
  let ?w = "w\<lparr>w_pubs := w_pubs w + 1, w_sent := w_sent w @ [message r]\<rparr>"
  have "Publish (ob_event_type r) (ob_payload r) w = (Inr (), ?w)" using Cons.prems by (simp add: Publish_def message_def)
  moreover have "w_pub_faults ?w = (\<lambda>_. None)" using Cons.prems by simp
  ultimately show ?case using Cons.IH [of ?w "published @ [ob_id r]"] by (simp add: attempt_def)
qed

text \<open>The moves of one worker are steps of the replicas.\<close>

lemma worker_replica:
  assumes "(worker_moves NewOutboxPublisher)\<^sup>*\<^sup>* (a, w) (a', w')" "ws k = a"
  shows "(replica_step P)\<^sup>*\<^sup>* ((w, fs), ws) ((w', fs), ws(k := a'))"
proof -
  have "(replica_step P)\<^sup>*\<^sup>* ((snd x, fs), ws(k := fst x)) ((snd y, fs), ws(k := fst y))"
    if "(worker_moves NewOutboxPublisher)\<^sup>*\<^sup>* x y" for x y
    using that
  proof (induction rule: rtranclp_induct)
    case (step y z)
    have "worker_step NewOutboxPublisher ((ws(k := fst y)) k) (snd y) = (fst z, snd z)"
      using step.hyps(2) by (simp add: worker_moves_def)
    from work [where ws = "ws(k := fst y)" and k = k, OF this] have "replica_step P ((snd y, fs), ws(k := fst y)) ((snd z, fs), ws(k := fst z))"
      unfolding fun_upd_upd .
    with step.IH show ?case by (rule rtranclp.rtrancl_into_rtrancl)
  qed simp
  from this [OF assms(1)] show ?thesis using assms(2) by auto
qed

lemma send_and_mark:
  assumes "quiet w" "w_pub_faults w = (\<lambda>_. None)" "rs \<noteq> []"
  shows "\<exists>w'. (worker_moves p)\<^sup>*\<^sup>* (Sending (map toOutboxRow rs) [], w) (Idle, w') \<and>
    w_sent w' = w_sent w @ map message rs \<and> w_pub_faults w' = (\<lambda>_. None) \<and> quiet w'"
proof -
  let ?w = "w\<lparr>w_pubs := w_pubs w + length rs, w_sent := w_sent w @ map message rs\<rparr>"
  have run: "(worker_moves p)\<^sup>*\<^sup>* (Sending (map toOutboxRow rs) [], w) (Sending [] (map ob_id rs), ?w)"
    using sends_in_steps [OF send_all [OF assms(2), of rs "[]"], of p] by auto
  obtain q w' where m: "outboxRepo_MarkPublished (map ob_id rs) ?w = (q, w')"
    by (cases "outboxRepo_MarkPublished (map ob_id rs) ?w")
  have "worker_moves p (Sending [] (map ob_id rs), ?w) (Idle, w')" using m by (simp add: worker_moves_def)
  with run have "(worker_moves p)\<^sup>*\<^sup>* (Sending (map toOutboxRow rs) [], w) (Idle, w')" by (rule rtranclp.rtrancl_into_rtrancl)
  moreover have "same_tx ?w w'"
    by (cases rule: mark_cases [of "map ob_id rs" ?w]) (use m in \<open>auto simp: reads_only_def\<close>)
  ultimately show ?thesis using assms(1,2) by (intro exI [of _ w']) (simp add: same_tx_def quiet_def)
qed

lemma fetched_twice:
  assumes "quiet w" "rs = take 200 (unpublished (w_tables w))" "rs \<noteq> []"
  shows "\<exists>w'. reads_only w w' \<and> worker_step NewOutboxPublisher Idle w = (Sending (map toOutboxRow rs) [], w')"
  using assms
  by (intro exI [of _ "tick_call w"])
    (auto simp: outboxRepo_FetchUnpublished_def andThen_def quiet_simps sql_fetch_unpublished_def NewOutboxPublisher_def)

text \<open>
  C19: two replicas send the same events twice even when nothing fails. In any sound state with unpublished events, when
  database and broker answer, two idle workers can fetch the same batch and each send all of it.
\<close>

theorem replicas_send_twice:
  assumes "quiet w" and "w_pub_faults w = (\<lambda>_. None)" and "unpublished (w_tables w) \<noteq> []"
  shows "\<exists>w'. (replica_step P)\<^sup>*\<^sup>* ((w, fs), \<lambda>_. Idle) ((w', fs), \<lambda>_. Idle) \<and>
    w_sent w' = w_sent w @ map message (take 200 (unpublished (w_tables w))) @ map message (take 200 (unpublished (w_tables w)))"
proof -
  define rs where "rs = take 200 (unpublished (w_tables w))"
  have rs: "rs \<noteq> []" using assms(3) by (simp add: rs_def)
  let ?b = "Sending (map toOutboxRow rs) []"
  obtain w1 where w1: "reads_only w w1" "worker_step NewOutboxPublisher Idle w = (?b, w1)"
    using fetched_twice [OF assms(1) rs_def rs] by blast
  have t1: "quiet w1" "w_pub_faults w1 = (\<lambda>_. None)" "w_tables w1 = w_tables w" "w_sent w1 = w_sent w"
    using w1(1) assms(1,2) by (simp_all add: reads_only_def same_tx_def quiet_def)
  obtain w2 where w2: "reads_only w1 w2" "worker_step NewOutboxPublisher Idle w1 = (?b, w2)"
    using fetched_twice [OF t1(1) _ rs] t1(3) rs_def by auto
  have t2: "quiet w2" "w_pub_faults w2 = (\<lambda>_. None)" "w_sent w2 = w_sent w"
    using w2(1) t1 by (simp_all add: reads_only_def same_tx_def quiet_def)
  obtain w3 where w3: "(worker_moves NewOutboxPublisher)\<^sup>*\<^sup>* (?b, w2) (Idle, w3)" "w_sent w3 = w_sent w2 @ map message rs"
    "w_pub_faults w3 = (\<lambda>_. None)" "quiet w3" using send_and_mark [OF t2(1,2) rs] by blast
  obtain w4 where w4: "(worker_moves NewOutboxPublisher)\<^sup>*\<^sup>* (?b, w3) (Idle, w4)" "w_sent w4 = w_sent w3 @ map message rs"
    using send_and_mark [OF w3(4,3) rs] by blast
  let ?i = "\<lambda>_ :: nat. Idle"
  have 1: "replica_step P ((w, fs), ?i) ((w1, fs), ?i(0 := ?b))" using work [where ws = ?i and k = 0, OF w1(2)] by simp
  have 2: "replica_step P ((w1, fs), ?i(0 := ?b)) ((w2, fs), (?i(0 := ?b))(1 := ?b))"
    by (rule work) (use w2(2) in \<open>simp del: worker_step.simps\<close>)
  have 3: "(replica_step P)\<^sup>*\<^sup>* ((w2, fs), (?i(0 := ?b))(1 := ?b)) ((w3, fs), ((?i(0 := ?b))(1 := ?b))(0 := Idle))"
    by (rule worker_replica [OF w3(1)]) simp
  have 4: "(replica_step P)\<^sup>*\<^sup>* ((w3, fs), ((?i(0 := ?b))(1 := ?b))(0 := Idle)) ((w4, fs), (((?i(0 := ?b))(1 := ?b))(0 := Idle))(1 := Idle))"
    by (rule worker_replica [OF w4(1)]) simp
  have "(((?i(0 := ?b))(1 := ?b))(0 := Idle))(1 := Idle) = ?i" by auto
  then have "(replica_step P)\<^sup>*\<^sup>* ((w, fs), ?i) ((w4, fs), ?i)" using 1 2 3 4
    by (metis (no_types, lifting) converse_rtranclp_into_rtranclp rtranclp_trans)
  then show ?thesis using w4(2) w3(2) t2(3) by (intro exI [of _ w4]) (simp add: rs_def)
qed

theorem replicas_send_twice_witness:
  "\<forall>P. \<exists>w'. (replica_step P)\<^sup>*\<^sup>* ((one_world (\<lambda>_. None) (\<lambda>_. None) 7, []), \<lambda>_. Idle) ((w', []), \<lambda>_. Idle) \<and>
     w_sent w' = [(EvtInvoiceOpened, JNull), (EvtInvoiceOpened, JNull)]"
proof
  fix P
  let ?w = "one_world (\<lambda>_. None) (\<lambda>_. None) 7"
  have u: "unpublished (w_tables ?w) = [outbox_row_of 1 ''i'' EvtInvoiceOpened JNull 7]"
    by (simp add: unpublished_def one_tables_def no_tables_def outbox_row_of_def)
  have f: "w_pub_faults ?w = (\<lambda>_. None)" "w_sent ?w = []" by (simp_all add: one_world_def init_world_def)
  show "\<exists>w'. (replica_step P)\<^sup>*\<^sup>* ((?w, []), \<lambda>_. Idle) ((w', []), \<lambda>_. Idle) \<and>
     w_sent w' = [(EvtInvoiceOpened, JNull), (EvtInvoiceOpened, JNull)]"
    using replicas_send_twice [OF _ f(1), of P "[]"] u f(2) by (simp add: message_def outbox_row_of_def)
qed

end
