(* ===== verification/Platform.thy ===== *)
theory Platform
  imports Rabbit
begin

text \<open>
  What \<open>main\<close> sets up before it serves: \<^verbatim>\<open>pkg/configs\<close>, \<^verbatim>\<open>pkg/logger\<close>, \<^verbatim>\<open>pkg/db/postgres\<close>, \<^verbatim>\<open>pkg/otel\<close>,
  \<^verbatim>\<open>pkg/grpcserver/init.go\<close>, and the connections of \<^verbatim>\<open>pkg/grpcclient\<close>. Calls of third-party packages succeed or fail
  by a script, and their documented effect is on what the process holds open.
\<close>

section \<open>The process\<close>

datatype Level = LInfo | LWarn | LError | LFatal

record log_entry =
  en_level :: Level
  en_msg :: string
  en_fields :: "(string \<times> json) list"

record LoggerConfig =
  lg_console_encoder :: bool
  lg_file :: "string option"
  lg_app :: string
  lg_env :: string

text \<open>A connection pool of \<open>database/sql\<close>: no limit on open and two idle connections unless set.\<close>

record pool =
  pl_open :: bool
  pl_dsn :: string
  pl_max_open :: int64
  pl_max_idle :: int64
  pl_max_lifetime :: Duration

record client_conn =
  cc_target :: string
  cc_insecure :: bool
  cc_traced :: bool
  cc_service_config :: "json option"
  cc_max_recv :: "nat option"

record http_server =
  hs_Addr :: string
  hs_HTTP1 :: bool
  hs_UnencryptedHTTP2 :: bool
  hs_ReadTimeout :: Duration
  hs_WriteTimeout :: Duration

datatype resource = Signals | Telemetry | Database | Subscription | Publishing

text \<open>
  \<open>ps_env\<close> is the environment of the process, \<open>ps_std\<close> the lines of Go's standard logger and of standard
  error, \<open>ps_logger\<close> the variable \<open>logger.instance\<close>, \<open>ps_log\<close> what went through it. \<open>ps_collector\<close>, \<open>ps_traces\<close> and
  \<open>ps_metrics\<close> say whether the connection to the collector, the tracer provider and the meter provider are up.
  \<open>ps_conns\<close> are the open gRPC client connections, \<open>ps_listener\<close> the address a gRPC server has bound, \<open>ps_http\<close> the HTTP
  server that listens, \<open>ps_worker\<close> and \<open>ps_consumer\<close> the goroutines that run, \<open>ps_closed\<close> what deferred calls have closed, in order. \<open>ps_faults\<close> is the
  script of the calls, indexed by \<open>ps_calls\<close>, and \<open>ps_text\<close> gives the texts of other packages' errors.
\<close>

record process =
  ps_env :: "string \<rightharpoonup> string"
  ps_std :: "string list"
  ps_logger :: "LoggerConfig option"
  ps_log :: "log_entry list"
  ps_db :: pool
  ps_collector :: bool
  ps_traces :: bool
  ps_metrics :: bool
  ps_pub :: amqp
  ps_sub :: amqp
  ps_conns :: "client_conn list"
  ps_listener :: "string option"
  ps_http :: "http_server option"
  ps_worker :: bool
  ps_consumer :: bool
  ps_closed :: "resource list"
  ps_calls :: nat
  ps_faults :: "nat \<Rightarrow> string option"
  ps_text :: "goerror \<Rightarrow> string"

type_synonym 'a procio = "(process, goerror, 'a) io"

definition ext_call :: "(process \<Rightarrow> process) \<Rightarrow> unit procio" where
  "ext_call f p =
     (let p1 = p\<lparr>ps_calls := ps_calls p + 1\<rparr>
      in case ps_faults p (ps_calls p) of
           None \<Rightarrow> (Inr (), f p1)
         | Some m \<Rightarrow> (Inl (DriverError m), p1))"

definition std_line :: "string \<Rightarrow> process \<Rightarrow> process" where
  "std_line s p = p\<lparr>ps_std := ps_std p @ [s]\<rparr>"

text \<open>How a process ends other than by returning from \<open>main\<close>: \<open>os.Exit\<close>, or a panic.\<close>

datatype halt = Exit nat | Panic goerror

type_synonym 'a mainio = "(process, halt, 'a) io"

section \<open>Configuration\<close>

record ConfigLoader =
  ld_Env :: string
  ld_EnvFile :: string

text \<open>
  \<open>godotenv.Load\<close> reads a file (\<open>files\<close> gives its variables, or the error) and sets the variables the environment
  does not have. \<open>env.Parse\<close> is the parameter \<open>parse\<close>: the configuration an environment denotes.
\<close>

definition loadEnvFile :: "(string \<Rightarrow> goerror + (string \<rightharpoonup> string)) \<Rightarrow> string \<Rightarrow> unit mainio" where
  "loadEnvFile files path0 p =
     (let path = (if path0 = [] then ''configs/.env'' else path0)
      in case files path of
           Inl e \<Rightarrow> (Inr (), std_line (''configs: skip loading '' @ path @ '': '' @ Error (ps_text p) e) p)
         | Inr vars \<Rightarrow> (Inr (), p\<lparr>ps_env := vars ++ ps_env p\<rparr>))"

definition parseEnv :: "((string \<rightharpoonup> string) \<Rightarrow> goerror + EnvConfig) \<Rightarrow> EnvConfig mainio" where
  "parseEnv parse p =
     (case parse (ps_env p) of
        Inl e \<Rightarrow> (Inl (Exit 1), std_line (''configs: parse env failed: '' @ Error (ps_text p) e) p)
      | Inr cfg \<Rightarrow> (Inr cfg, p))"

definition NewConfig :: "(string \<Rightarrow> goerror + (string \<rightharpoonup> string)) \<Rightarrow> ((string \<rightharpoonup> string) \<Rightarrow> goerror + EnvConfig) \<Rightarrow>
    ConfigLoader \<Rightarrow> EnvConfig mainio" where
  "NewConfig files parse loader =
     andThen (if ld_Env loader \<noteq> ''production'' then loadEnvFile files (ld_EnvFile loader) else ret ())
       (\<lambda>_. parseEnv parse)"

section \<open>Logging\<close>

definition NewLogger :: "string \<Rightarrow> string \<Rightarrow> unit procio" where
  "NewLogger appName appEnv p =
     (Inr (), p\<lparr>ps_logger := Some
        \<lparr>lg_console_encoder = (appEnv = ''local''),
         lg_file = (if appEnv = ''local'' then None else Some (''/var/log/'' @ appName @ ''/app.log'')),
         lg_app = appName, lg_env = appEnv\<rparr>\<rparr>)"

text \<open>
  \<open>fieldsFromMap\<close>: the trace and span of a valid span context first (\<open>span\<close> is \<open>None\<close> for any other \<open>ctx\<close>), then
  the map, in the order in which Go ranges over it.
\<close>

definition fieldsFromMap :: "(string \<times> string) option \<Rightarrow> (string \<times> json) list \<Rightarrow> (string \<times> json) list" where
  "fieldsFromMap span m =
     (case span of None \<Rightarrow> [] | Some (trace, sp) \<Rightarrow> [(''trace_id'', JStr trace), (''span_id'', JStr sp)]) @ m"

definition logAt :: "Level \<Rightarrow> (string \<times> string) option \<Rightarrow> string \<Rightarrow> (string \<times> json) list \<Rightarrow> process \<Rightarrow> process" where
  "logAt lvl span msg kvs p =
     (case ps_logger p of
        None \<Rightarrow> p
      | Some _ \<Rightarrow> p\<lparr>ps_log := ps_log p @ [\<lparr>en_level = lvl, en_msg = msg, en_fields = fieldsFromMap span kvs\<rparr>]\<rparr>)"

definition logger_Info :: "(string \<times> string) option \<Rightarrow> string \<Rightarrow> (string \<times> json) list \<Rightarrow> (process, 'e, unit) io" where
  "logger_Info span msg kvs p = (Inr (), logAt LInfo span msg kvs p)"

definition logger_Warn :: "(string \<times> string) option \<Rightarrow> string \<Rightarrow> (string \<times> json) list \<Rightarrow> (process, 'e, unit) io" where
  "logger_Warn span msg kvs p = (Inr (), logAt LWarn span msg kvs p)"

definition logger_Error :: "(string \<times> string) option \<Rightarrow> string \<Rightarrow> (string \<times> json) list \<Rightarrow> (process, 'e, unit) io" where
  "logger_Error span msg kvs p = (Inr (), logAt LError span msg kvs p)"

text \<open>\<open>Fatal\<close> ends the process, unless the logger was never set up.\<close>

definition logger_Fatal :: "(string \<times> string) option \<Rightarrow> string \<Rightarrow> (string \<times> json) list \<Rightarrow> unit mainio" where
  "logger_Fatal span msg kvs p =
     (if ps_logger p = None then (Inr (), p) else (Inl (Exit 1), logAt LFatal span msg kvs p))"

definition logger_Sync :: "unit procio" where
  "logger_Sync p = (if ps_logger p = None then (Inr (), p) else ext_call id p)"

definition ErrorKey :: string where "ErrorKey = ''error''"

section \<open>The database pool\<close>

record PostgresDsn =
  dn_Host :: string
  dn_User :: string
  dn_Password :: string
  dn_Port :: string
  dn_Db :: string
  dn_MaxOpen :: int64
  dn_MaxIdle :: int64

definition connStr :: "PostgresDsn \<Rightarrow> string" where
  "connStr dsn = ''host='' @ dn_Host dsn @ '' port='' @ dn_Port dsn @ '' user='' @ dn_User dsn @
     '' password='' @ dn_Password dsn @ '' dbname='' @ dn_Db dsn @ '' sslmode=disable''"

text \<open>The setters of \<open>database/sql\<close> keep the limit of idle connections below that of open ones.\<close>

definition SetMaxOpenConns :: "int64 \<Rightarrow> pool \<Rightarrow> pool" where
  "SetMaxOpenConns n pl = pl\<lparr>pl_max_open := n,
     pl_max_idle := if 0 < sint n \<and> sint n < sint (pl_max_idle pl) then n else pl_max_idle pl\<rparr>"

definition SetMaxIdleConns :: "int64 \<Rightarrow> pool \<Rightarrow> pool" where
  "SetMaxIdleConns n pl = pl\<lparr>pl_max_idle :=
     if 0 < sint (pl_max_open pl) \<and> sint (pl_max_open pl) < sint n then pl_max_open pl else n\<rparr>"

definition opened_pool :: "PostgresDsn \<Rightarrow> pool" where
  "opened_pool dsn = \<lparr>pl_open = True, pl_dsn = connStr dsn, pl_max_open = 0, pl_max_idle = 2, pl_max_lifetime = 0\<rparr>"

definition limited :: "PostgresDsn \<Rightarrow> pool \<Rightarrow> pool" where
  "limited dsn pl =
     (let pl1 = (if 0 < sint (dn_MaxOpen dsn) then SetMaxOpenConns (dn_MaxOpen dsn) pl else pl);
          pl2 = (if 0 < sint (dn_MaxIdle dsn) then SetMaxIdleConns (dn_MaxIdle dsn) pl1 else pl1)
      in pl2\<lparr>pl_max_lifetime := 30 * Minute\<rparr>)"

text \<open>\<open>db.Close\<close> closes the pool even when it answers with an error.\<close>

definition pool_Close :: "unit procio" where
  "pool_Close p = ext_call id (p\<lparr>ps_db := (ps_db p)\<lparr>pl_open := False\<rparr>\<rparr>)"

definition NewPostgresDB :: "PostgresDsn \<Rightarrow> unit procio" where
  "NewPostgresDB dsn =
     andThen (orFail (ext_call (\<lambda>p. p\<lparr>ps_db := opened_pool dsn\<rparr>)) (ret ()) ''postgres open'') (\<lambda>_.
     andThen (\<lambda>p. (Inr (), p\<lparr>ps_db := limited dsn (ps_db p)\<rparr>)) (\<lambda>_.
     orFail (ext_call id) (attempt pool_Close (\<lambda>_. ret ())) ''postgres ping''))"

section \<open>Tracing and metrics\<close>

text \<open>Which providers an \<open>*OpenTelemetry\<close> holds; \<open>None\<close> is the nil pointer.\<close>

record OpenTelemetry =
  ot_tp :: bool
  ot_mp :: bool

definition no_telemetry :: OpenTelemetry where
  "no_telemetry = \<lparr>ot_tp = False, ot_mp = False\<rparr>"

text \<open>
  The error of \<open>resource.New\<close> is dropped by the code and has no effect here. The connection that \<open>grpc.NewClient\<close> opens
  belongs to the caller: neither a failing exporter nor the shutdown of a provider closes it. Name and environment,
  sampler, propagator and intervals are data for the library and left out.
\<close>

definition NewOpenTelemetry :: "string \<Rightarrow> (process, 'e, OpenTelemetry) io" where
  "NewOpenTelemetry endpoint =
     (let quit = (\<lambda>line o1 p. (Inr o1, std_line line p)) in
      if endpoint = [] then quit ''otel: OTLP_ENDPOINT not set, telemetry disabled'' no_telemetry
      else attempt (ext_call (\<lambda>p. p\<lparr>ps_collector := True\<rparr>)) (\<lambda>conn. case conn of
        Inl e \<Rightarrow> (\<lambda>p. quit (''otel: dial collector failed: '' @ Error (ps_text p) e @ '' (continuing without telemetry)'') no_telemetry p)
      | Inr _ \<Rightarrow> attempt (ext_call (\<lambda>p. p\<lparr>ps_traces := True\<rparr>)) (\<lambda>tp. case tp of
        Inl e \<Rightarrow> (\<lambda>p. quit (''otel: trace exporter init failed: '' @ Error (ps_text p) e @ '' (continuing without traces)'') no_telemetry p)
      | Inr _ \<Rightarrow> attempt (ext_call (\<lambda>p. p\<lparr>ps_metrics := True\<rparr>)) (\<lambda>mp. case mp of
        Inl e \<Rightarrow> (\<lambda>p. quit (''otel: metric exporter init failed: '' @ Error (ps_text p) e @ '' (continuing without metrics)'')
                     \<lparr>ot_tp = True, ot_mp = False\<rparr> p)
      | Inr _ \<Rightarrow> ret \<lparr>ot_tp = True, ot_mp = True\<rparr>))))"

definition EndAPM :: "OpenTelemetry option \<Rightarrow> unit procio" where
  "EndAPM o1 =
     (case o1 of
        None \<Rightarrow> ret ()
      | Some x \<Rightarrow>
          andThen (if ot_mp x then ext_call (\<lambda>p. p\<lparr>ps_metrics := False\<rparr>) else ret ()) (\<lambda>_.
          if ot_tp x then ext_call (\<lambda>p. p\<lparr>ps_traces := False\<rparr>) else ret ()))"

definition RegisterRuntimeMetrics :: "OpenTelemetry option \<Rightarrow> unit procio" where
  "RegisterRuntimeMetrics o1 =
     (case o1 of None \<Rightarrow> ret () | Some x \<Rightarrow> if ot_mp x then ext_call id else ret ())"

section \<open>The gRPC server\<close>

record ('w, 'q, 'p) Options =
  so_IdempotencyStore :: "'w StoreInterface option"
  so_IdempotentMethods :: "string list"
  so_UnaryInterceptors :: "('w, 'q, 'p) Interceptor list"

record ServerParameters =
  kp_MaxConnectionIdle :: Duration
  kp_MaxConnectionAge :: Duration
  kp_MaxConnectionAgeGrace :: Duration
  kp_Time :: Duration
  kp_Timeout :: Duration

record ('w, 'q, 'p) GrpcServer =
  gs_chain :: "('w, 'q, 'p) Interceptor list"
  gs_keepalive :: ServerParameters
  gs_listener :: "string option"
  gs_port :: string

definition interceptors :: "('w \<Rightarrow> Time) \<Rightarrow> ('p \<Rightarrow> string option) \<Rightarrow> ('w, 'q, 'p) Options \<Rightarrow> ('w, 'q, 'p) Interceptor list" where
  "interceptors now marshal opt =
     [recoveryInterceptor, loggingInterceptor, timeoutInterceptor now 2000000000] @
     (case so_IdempotencyStore opt of
        None \<Rightarrow> [] | Some store \<Rightarrow> [idempotencyInterceptor store (so_IdempotentMethods opt) marshal]) @
     so_UnaryInterceptors opt"

definition newGrpcSrv :: "('w \<Rightarrow> Time) \<Rightarrow> ('p \<Rightarrow> string option) \<Rightarrow> ('w, 'q, 'p) Options \<Rightarrow> ('w, 'q, 'p) GrpcServer" where
  "newGrpcSrv now marshal opt =
     \<lparr>gs_chain = interceptors now marshal opt,
      gs_keepalive = \<lparr>kp_MaxConnectionIdle = 5 * Minute, kp_MaxConnectionAge = 30 * Minute,
        kp_MaxConnectionAgeGrace = 30000000000, kp_Time = 10000000000, kp_Timeout = 5000000000\<rparr>,
      gs_listener = None, gs_port = []\<rparr>"

text \<open>\<open>grpc.ChainUnaryInterceptor\<close>: the first interceptor is the outermost.\<close>

definition chained :: "('w, 'q, 'p) GrpcServer \<Rightarrow> string \<Rightarrow> ('w, 'q, 'p) UnaryHandler \<Rightarrow> ('w, 'q, 'p) UnaryHandler" where
  "chained g method handler = foldr (\<lambda>i h. i method h) (gs_chain g) handler"

definition NewGrpcServer :: "('w \<Rightarrow> Time) \<Rightarrow> ('p \<Rightarrow> string option) \<Rightarrow> string \<Rightarrow> ('w, 'q, 'p) Options \<Rightarrow>
    ('w, 'q, 'p) GrpcServer procio" where
  "NewGrpcServer now marshal port opt =
     andThen (orFail (ext_call (\<lambda>p. p\<lparr>ps_listener := Some ('':'' @ port)\<rparr>)) (ret ()) (''listen :'' @ port)) (\<lambda>_.
       ret ((newGrpcSrv now marshal opt)\<lparr>gs_listener := Some ('':'' @ port), gs_port := port\<rparr>))"

definition NewGrpcServerNoListen :: "('w \<Rightarrow> Time) \<Rightarrow> ('p \<Rightarrow> string option) \<Rightarrow> ('w, 'q, 'p) Options \<Rightarrow>
    (process, 'e, ('w, 'q, 'p) GrpcServer) io" where
  "NewGrpcServerNoListen now marshal opt = ret (newGrpcSrv now marshal opt)"

text \<open>\<open>Serve\<close> returns when the server is stopped or its listener fails.\<close>

definition GrpcServer_Start :: "('w, 'q, 'p) GrpcServer \<Rightarrow> unit procio" where
  "GrpcServer_Start g =
     andThen (logger_Info None ''gRPC server listening'' [(''port'', JStr (gs_port g))]) (\<lambda>_. ext_call id)"

text \<open>
  \<open>GracefulStop\<close> of the gRPC library: it stops listening and waits for the calls that are still served, which their
  deadlines end. Whether it then returns or panics is up to the library, so the script says it: a library that does not know how
  to drain a connection it is given by \<open>ServeHTTP\<close> panics.
\<close>

definition GracefulStop :: "unit mainio" where
  "GracefulStop p =
     (case ext_call id (p\<lparr>ps_listener := None\<rparr>) of
        (Inl e, p1) \<Rightarrow> (Inl (Panic e), p1)
      | (Inr _, p1) \<Rightarrow> (Inr (), p1))"

definition GrpcServer_Shutdown :: "('w, 'q, 'p) GrpcServer \<Rightarrow> unit mainio" where
  "GrpcServer_Shutdown g = GracefulStop"

section \<open>Client connections\<close>

definition serviceConfig :: json where
  "serviceConfig = JObj [(''methodConfig'', JArr [JObj [
     (''name'', JArr [JObj [(''service'', JStr [])]]),
     (''retryPolicy'', JObj [(''MaxAttempts'', JInt 3), (''InitialBackoff'', JStr ''0.1s''), (''MaxBackoff'', JStr ''1s''),
        (''BackoffMultiplier'', JInt 2), (''RetryableStatusCodes'', JArr [JStr ''UNAVAILABLE'', JStr ''DEADLINE_EXCEEDED''])]),
     (''timeout'', JStr ''3s'')]])]"

text \<open>\<open>grpc.NewClient\<close> does not connect yet; it fails on a target or options it cannot use.\<close>

definition grpc_NewClient :: "client_conn \<Rightarrow> client_conn procio" where
  "grpc_NewClient conn = andThen (ext_call (\<lambda>p. p\<lparr>ps_conns := conn # ps_conns p\<rparr>)) (\<lambda>_. ret conn)"

definition grpcclient_Dial :: "string \<Rightarrow> client_conn procio" where
  "grpcclient_Dial addr =
     attempt (grpc_NewClient \<lparr>cc_target = addr, cc_insecure = True, cc_traced = True,
                cc_service_config = Some serviceConfig, cc_max_recv = None\<rparr>) (\<lambda>r. case r of
       Inl e \<Rightarrow> throw (FmtWrap (''grpc dial '' @ addr) e)
     | Inr conn \<Rightarrow> ret conn)"

text \<open>The timeout is not used. The stub of the client is a parameter of its methods.\<close>

definition NewPaymentClient :: "string \<Rightarrow> Duration \<Rightarrow> client_conn procio" where
  "NewPaymentClient addr timeout =
     attempt (grpc_NewClient \<lparr>cc_target = addr, cc_insecure = True, cc_traced = False,
                cc_service_config = None, cc_max_recv = Some (1024 * 1024)\<rparr>) (\<lambda>r. case r of
       Inl e \<Rightarrow> (\<lambda>p. throw (GoPanic (Error (ps_text p) (FmtWrap (''payment grpc dial '' @ addr) e))) p)
     | Inr conn \<Rightarrow> ret conn)"

definition paymentClient_Close :: "client_conn \<Rightarrow> unit procio" where
  "paymentClient_Close conn p = ext_call id (p\<lparr>ps_conns := remove1 conn (ps_conns p)\<rparr>)"

section \<open>What the set-up functions promise\<close>

lemma ext_call_cases:
  assumes "ext_call f p = (r, p')"
  obtains (fine) "r = Inr ()" "p' = f (p\<lparr>ps_calls := ps_calls p + 1\<rparr>)"
  | (failed) e where "r = Inl e" "p' = p\<lparr>ps_calls := ps_calls p + 1\<rparr>"
  using assms by (auto simp: ext_call_def Let_def split: option.splits)

text \<open>
  Configuration is resolved as documented: a variable of the process wins over one of the file, the file is ignored in
  production and skipped when it cannot be read, and only a configuration that does not parse ends the process.
\<close>

lemma NewConfig_resolves:
  "NewConfig files parse loader p = (r, p') \<Longrightarrow>
   let file = (case files (if ld_EnvFile loader = [] then ''configs/.env'' else ld_EnvFile loader) of Inl _ \<Rightarrow> Map.empty | Inr vars \<Rightarrow> vars);
       env = (if ld_Env loader = ''production'' then ps_env p else file ++ ps_env p)
   in ps_env p' = env \<and> (case parse env of Inl _ \<Rightarrow> r = Inl (Exit 1) | Inr cfg \<Rightarrow> r = Inr cfg)"
  by (auto simp: NewConfig_def loadEnvFile_def parseEnv_def andThen_def std_line_def Let_def split: sum.splits if_splits)

lemma env_precedence: "(file ++ env) k = (case env k of None \<Rightarrow> file k | Some v \<Rightarrow> Some v)"
  by (simp add: map_add_def)

text \<open>
  A pool that could not be opened or pinged is not left open; one that is returned is open, lives half an hour, and
  keeps no more idle connections than it may open.
\<close>

lemma limited_bounds:
  "sint (pl_max_open (limited dsn (opened_pool dsn))) = max 0 (sint (dn_MaxOpen dsn)) \<and>
   (0 < sint (dn_MaxOpen dsn) \<longrightarrow>
      sint (pl_max_idle (limited dsn (opened_pool dsn))) \<le> sint (pl_max_open (limited dsn (opened_pool dsn))))"
  by (auto simp: limited_def opened_pool_def SetMaxOpenConns_def SetMaxIdleConns_def Let_def)

lemma NewPostgresDB_all_or_nothing:
  assumes "NewPostgresDB dsn p = (r, p')" "\<not> pl_open (ps_db p)"
  shows "(\<exists>e. r = Inl e) \<and> \<not> pl_open (ps_db p') \<or>
    r = Inr () \<and> ps_db p' = limited dsn (opened_pool dsn) \<and> pl_open (ps_db p')"
proof -
  let ?set = "\<lambda>p. (Inr () :: goerror + unit, p\<lparr>ps_db := limited dsn (ps_db p)\<rparr>)"
  have lim: "pl_open (limited dsn (opened_pool dsn))"
    by (simp add: limited_def opened_pool_def SetMaxOpenConns_def SetMaxIdleConns_def Let_def)
  from assms(1) [unfolded NewPostgresDB_def] show ?thesis
  proof (cases rule: andThen_E)
    case (failed e)
    from failed(1) show ?thesis using assms(2) failed(2) by (auto elim!: orFail_cases ext_call_cases)
  next
    case (went_on x p1)
    have p1: "ps_db p1 = opened_pool dsn" using went_on(1) by (auto elim!: orFail_cases ext_call_cases)
    have "orFail (ext_call id) (attempt pool_Close (\<lambda>_. ret ())) ''postgres ping'' (p1\<lparr>ps_db := limited dsn (opened_pool dsn)\<rparr>) = (r, p')"
      using went_on(2) p1 by (simp add: andThen_def)
    then show ?thesis
    proof (cases rule: orFail_cases)
      case (failed e p2)
      obtain q p3 where q: "pool_Close p2 = (q, p3)" by (cases "pool_Close p2")
      have "\<not> pl_open (ps_db p3)" using q by (auto simp: pool_Close_def elim!: ext_call_cases)
      then show ?thesis using failed(2) q by (auto simp: andThen_def attempt_def)
    next
      case (fine x)
      from fine(1) show ?thesis using fine(2) lim by (auto elim!: ext_call_cases)
    qed
  qed
qed

text \<open>
  The connection string is not quoted: a password with a space in it changes what follows, and different settings
  have the same string.
\<close>

lemma connStr_ambiguous:
  "connStr \<lparr>dn_Host = h, dn_User = u, dn_Password = ''x dbname=a'', dn_Port = q, dn_Db = ''b'', dn_MaxOpen = n, dn_MaxIdle = m\<rparr> =
   connStr \<lparr>dn_Host = h, dn_User = u, dn_Password = ''x'', dn_Port = q, dn_Db = ''a dbname=b'', dn_MaxOpen = n, dn_MaxIdle = m\<rparr>"
  by (simp add: connStr_def)

text \<open>
  What an \<open>*OpenTelemetry\<close> holds is what runs, but after a failure to set up the traces exporter the connection
  to the collector stays open with nothing using it, and it stays open after \<open>EndAPM\<close>.
\<close>

lemma NewOpenTelemetry_holds:
  assumes "\<not> ps_traces p" "\<not> ps_metrics p"
  shows "\<exists>o1 p'. NewOpenTelemetry endpoint p = (Inr o1, p') \<and> ps_traces p' = ot_tp o1 \<and> ps_metrics p' = ot_mp o1 \<and>
    (ot_mp o1 \<longrightarrow> ot_tp o1) \<and> (ot_tp o1 \<longrightarrow> ps_collector p')"
proof (cases "endpoint = []")
  case True
  then show ?thesis using assms by (simp add: NewOpenTelemetry_def no_telemetry_def std_line_def)
next
  case False
  note defs = NewOpenTelemetry_def no_telemetry_def attempt_def ext_call_def std_line_def
  show ?thesis
  proof (cases "ps_faults p (ps_calls p)")
    case (Some m)
    then show ?thesis using False assms by (simp add: defs)
  next
    case 1: None
    show ?thesis
    proof (cases "ps_faults p (Suc (ps_calls p))")
      case (Some m)
      then show ?thesis using False 1 assms by (simp add: defs)
    next
      case 2: None
      show ?thesis using False 1 2 assms by (cases "ps_faults p (Suc (Suc (ps_calls p)))") (simp_all add: defs)
    qed
  qed
qed

lemma NewOpenTelemetry_leaks:
  assumes "endpoint \<noteq> []" "ps_faults p (ps_calls p) = None" "ps_faults p (Suc (ps_calls p)) = Some m"
  shows "\<exists>p'. NewOpenTelemetry endpoint p = (Inr no_telemetry, p') \<and> ps_collector p'"
  using assms by (simp add: NewOpenTelemetry_def attempt_def ext_call_def std_line_def)

lemma EndAPM_leaves_connection: "EndAPM o1 p = (r, p') \<Longrightarrow> ps_collector p' = ps_collector p"
  by (auto simp: EndAPM_def andThen_def ext_call_def Let_def split: option.splits sum.splits if_splits)

text \<open>When the meter provider does not shut down, the tracer provider is not told to, and its spans are not flushed.\<close>

lemma EndAPM_skips_traces:
  assumes "ps_faults p (ps_calls p) = Some m" "ot_mp x" "ps_traces p"
  shows "\<exists>e p'. EndAPM (Some x) p = (Inl e, p') \<and> ps_traces p'"
  using assms by (auto simp: EndAPM_def andThen_def ext_call_def Let_def)

lemma EndAPM_flushes:
  assumes "EndAPM (Some x) p = (Inr (), p')" "ot_tp x = ps_traces p" "ot_mp x = ps_metrics p"
  shows "\<not> ps_traces p' \<and> \<not> ps_metrics p'"
  using assms by (auto simp: EndAPM_def andThen_def ext_call_def Let_def split: option.splits sum.splits if_splits)

text \<open>The chain of the server \<open>main\<close> builds is the one of \<^verbatim>\<open>Grpc\<close>.\<close>

lemma chained_serverChain:
  "chained (newGrpcSrv now marshal \<lparr>so_IdempotencyStore = Some store, so_IdempotentMethods = methods, so_UnaryInterceptors = []\<rparr>)
     method h = serverChain now store methods marshal method h"
  by (simp add: chained_def newGrpcSrv_def interceptors_def serverChain_def)

lemma served_chained:
  "served interval marshal method h =
   chained (newGrpcSrv w_now marshal \<lparr>so_IdempotencyStore = Some (NewPostgresStore interval),
     so_IdempotentMethods = [ScopeOpenInvoice], so_UnaryInterceptors = []\<rparr>) method h"
  by (simp add: chained_serverChain served_def)

text \<open>\<open>NewGrpcServer\<close> binds its port or answers an error; the server without a listener always comes up.\<close>

lemma NewGrpcServer_listens:
  assumes "NewGrpcServer now marshal port opt p = (r, p')"
  shows "(\<exists>e. r = Inl (FmtWrap (''listen :'' @ port) e)) \<and> ps_listener p' = ps_listener p \<or>
    (\<exists>g. r = Inr g \<and> gs_chain g = interceptors now marshal opt \<and> ps_listener p' = Some ('':'' @ port))"
  using assms by (auto simp: NewGrpcServer_def newGrpcSrv_def andThen_def orFail_def attempt_def ext_call_def Let_def split: option.splits)

text \<open>Without a logger nothing is written, and \<open>Fatal\<close> returns to its caller.\<close>

lemma no_logger:
  "ps_logger p = None \<Longrightarrow> logAt l span msg kvs p = p \<and> logger_Fatal span msg kvs p = (Inr (), p) \<and> logger_Sync p = (Inr (), p)"
  by (simp add: logAt_def logger_Fatal_def logger_Sync_def)

text \<open>
  A connection that was dialled is given back by \<open>Close\<close>; a payment client that cannot be dialled panics, and its
  timeout has no effect.
\<close>

lemma NewPaymentClient_cases:
  assumes "NewPaymentClient addr timeout p = (r, p')"
  shows "(\<exists>m. r = Inl (GoPanic m)) \<and> ps_conns p' = ps_conns p \<or>
    (\<exists>c. r = Inr c \<and> cc_target c = addr \<and> ps_conns p' = c # ps_conns p \<and>
       (\<exists>q p''. paymentClient_Close c p' = (q, p'') \<and> ps_conns p'' = ps_conns p))"
proof (cases "ps_faults p (ps_calls p)")
  case None
  let ?c = "\<lparr>cc_target = addr, cc_insecure = True, cc_traced = False, cc_service_config = None, cc_max_recv = Some (1024 * 1024)\<rparr>"
  have r: "r = Inr ?c" "ps_conns p' = ?c # ps_conns p"
    using assms None by (auto simp: NewPaymentClient_def grpc_NewClient_def andThen_def attempt_def ext_call_def)
  obtain q p'' where q: "paymentClient_Close ?c p' = (q, p'')" by (cases "paymentClient_Close ?c p'")
  have "ps_conns p'' = ps_conns p" using q r(2) by (auto simp: paymentClient_Close_def elim!: ext_call_cases)
  then show ?thesis using r q by - (rule disjI2, rule exI [of _ ?c], simp)
next
  case (Some m)
  then show ?thesis using assms by (auto simp: NewPaymentClient_def grpc_NewClient_def andThen_def attempt_def ext_call_def)
qed

lemma NewPaymentClient_ignores_timeout: "NewPaymentClient addr t1 = NewPaymentClient addr t2"
  by (simp add: NewPaymentClient_def)

lemma Dial_error: "grpcclient_Dial addr p = (Inl e, p') \<Longrightarrow> \<exists>c. e = FmtWrap (''grpc dial '' @ addr) c"
  by (auto simp: grpcclient_Dial_def attempt_def split: prod.splits sum.splits)

end
