(* ===== verification/Startup.thy ===== *)
theory Startup
  imports Platform
begin

text \<open>
  \<open>main\<close> of \<^verbatim>\<open>cmd/billing/main.go\<close> from start to end: the order of set-up with its fatal exits, the goroutines,
  the shutdown, and the deferred calls.
\<close>

section \<open>Deferred calls and fatal exits\<close>

text \<open>\<open>defer cleanup()\<close>: run when the function returns or panics, but not when the process exits.\<close>

definition deferring :: "(process \<Rightarrow> process) \<Rightarrow> 'a mainio \<Rightarrow> 'a mainio" where
  "deferring cleanup body p =
     (case body p of
        (Inl (Exit n), p') \<Rightarrow> (Inl (Exit n), p')
      | (r, p') \<Rightarrow> (r, cleanup p'))"

text \<open>\<open>if err != nil { logger.Fatal(ctx, msg, ...) }\<close>.\<close>

definition orFatal :: "unit procio \<Rightarrow> string \<Rightarrow> unit mainio" where
  "orFatal m msg = attempt m (\<lambda>r p. case r of
     Inl e \<Rightarrow> logger_Fatal None msg [(ErrorKey, JStr (Error (ps_text p) e))] p
   | Inr _ \<Rightarrow> (Inr (), p))"

definition with_pub :: "unit amqpio \<Rightarrow> unit procio" where
  "with_pub m p = (case m (ps_pub p) of (r, a) \<Rightarrow> (r, p\<lparr>ps_pub := a\<rparr>))"

definition with_sub :: "unit amqpio \<Rightarrow> unit procio" where
  "with_sub m p = (case m (ps_sub p) of (r, a) \<Rightarrow> (r, p\<lparr>ps_sub := a\<rparr>))"

definition closed :: "resource \<Rightarrow> process \<Rightarrow> process" where
  "closed x p = p\<lparr>ps_closed := ps_closed p @ [x]\<rparr>"

definition endTelemetry :: "OpenTelemetry \<Rightarrow> process \<Rightarrow> process" where
  "endTelemetry o1 p =
     (case EndAPM (Some o1) p of
        (Inl e, p1) \<Rightarrow> closed Telemetry (std_line (''otel shutdown: '' @ Error (ps_text p1) e) p1)
      | (Inr _, p1) \<Rightarrow> closed Telemetry p1)"

definition closeDb :: "process \<Rightarrow> process" where
  "closeDb p =
     (case pool_Close p of
        (Inl e, p1) \<Rightarrow> closed Database (logAt LError None ''db.Close failed'' [(ErrorKey, JStr (Error (ps_text p1) e))] p1)
      | (Inr _, p1) \<Rightarrow> closed Database p1)"

definition closePub :: "process \<Rightarrow> process" where
  "closePub p = closed Publishing (snd (with_pub Publisher_Close p))"

definition closeSub :: "process \<Rightarrow> process" where
  "closeSub p = closed Subscription (snd (with_sub Subscriber_Close p))"

section \<open>Serving\<close>

text \<open>
  What can happen to the goroutines before the signal: \<open>ListenAndServe\<close> returns, always with an error, and \<open>Consume\<close>
  returns. Both are logged, and nothing starts them again. A panic of the consumer (\<open>Consume\<close> ends with a
  \<open>GoPanic\<close>, which \<open>consumeOne\<close> lets through) or of the worker is recovered by nobody: the runtime prints it and ends the process
  with code 2, and the deferred calls of \<open>main\<close>, which are another goroutine's, do not run. The panics of HTTP handlers
  are caught by the server.
\<close>

datatype happening = HttpReturned string | ConsumeReturned "goerror option" | WorkerPanicked string

definition crash :: "string \<Rightarrow> unit mainio" where
  "crash m p = (Inl (Exit 2), std_line (''panic: '' @ m) p)"

fun happen :: "happening \<Rightarrow> unit mainio" where
  "happen (HttpReturned m) p =
     (Inr (), if ps_http p = None then p
      else let p1 = p\<lparr>ps_http := None\<rparr>
           in if m \<noteq> ''http: Server closed'' then logAt LError None ''listen failed'' [(ErrorKey, JStr m)] p1 else p1)"
| "happen (ConsumeReturned e) p =
     (if \<not> ps_consumer p then (Inr (), p)
      else let p1 = p\<lparr>ps_consumer := False\<rparr>
           in case e of
                None \<Rightarrow> (Inr (), p1)
              | Some (GoPanic m) \<Rightarrow> crash m p1
              | Some e \<Rightarrow> (Inr (), logAt LError None ''consumer: stopped'' [(ErrorKey, JStr (Error (ps_text p1) e))] p1))"
| "happen (WorkerPanicked m) p = crash m p"

primrec happens :: "happening list \<Rightarrow> unit mainio" where
  "happens [] = ret ()"
| "happens (h # hs) = andThen (happen h) (\<lambda>_. happens hs)"

text \<open>Both protocols on the one port of the configuration; \<open>GrpcPort\<close> is not used.\<close>

definition httpServer :: "EnvConfig \<Rightarrow> http_server" where
  "httpServer cfg =
     \<lparr>hs_Addr = '':'' @ AppPort cfg, hs_HTTP1 = True, hs_UnencryptedHTTP2 = True,
      hs_ReadTimeout = 15000000000, hs_WriteTimeout = 15000000000\<rparr>"

text \<open>\<open>Shutdown\<close> stops listening first, and may then time out on open connections.\<close>

definition httpServer_Shutdown :: "unit procio" where
  "httpServer_Shutdown p = ext_call id (p\<lparr>ps_http := None\<rparr>)"

definition startGoroutines :: "EnvConfig \<Rightarrow> process \<Rightarrow> process" where
  "startGoroutines cfg p =
     logAt LInfo None ''consumer: subscribing''
       [(''queue'', JStr (RabbitQueue cfg)),
        (''keys'', JStr ''reservation.cancelled.v1, reservation.expired.v1, reservation.checked_out.v1, billing.payment.success.v1, billing.payment.failed.v1'')]
     (logAt LInfo None ''billing-service listening (gRPC+HTTP)'' [(''port'', JStr (AppPort cfg))]
       (p\<lparr>ps_http := Some (httpServer cfg), ps_worker := True, ps_consumer := True\<rparr>))"

text \<open>
  From the start of the goroutines to the end of the function. The signal cancels the context of worker and
  consumer; \<open>main\<close> does not wait for them.
\<close>

definition serve :: "EnvConfig \<Rightarrow> happening list \<Rightarrow> unit mainio" where
  "serve cfg hs p =
     andThen (\<lambda>p. (Inr (), startGoroutines cfg p)) (\<lambda>_.
     andThen (happens hs) (\<lambda>_.
     andThen (logger_Info None ''shutdown signal received'' []) (\<lambda>_.
     andThen GracefulStop (\<lambda>_.
     attempt httpServer_Shutdown (\<lambda>_.
     attempt logger_Sync (\<lambda>r p. case r of
       Inl e \<Rightarrow> (Inr (), std_line (''logger sync: '' @ Error (ps_text p) e) p) | Inr _ \<Rightarrow> (Inr (), p))))))) p"

section \<open>main\<close>

text \<open>
  Between the subscription and the goroutines \<open>main\<close> only builds values: the usecase (\<^verbatim>\<open>Wiring\<close>), the gRPC server
  (\<^verbatim>\<open>Platform\<close>, \<^verbatim>\<open>Grpc\<close>) and the routes (\<^verbatim>\<open>Http\<close>). \<open>files\<close> and \<open>parse\<close> read the environment file and the environment.
\<close>

definition main_dsn :: "EnvConfig \<Rightarrow> PostgresDsn" where
  "main_dsn cfg =
     \<lparr>dn_Host = DbHost cfg, dn_User = DbUsername cfg, dn_Password = DbPassword cfg, dn_Port = DbPort cfg,
      dn_Db = DbName cfg, dn_MaxOpen = DbMaxOpen cfg, dn_MaxIdle = DbMaxIdle cfg\<rparr>"

definition main :: "(string \<Rightarrow> goerror + (string \<rightharpoonup> string)) \<Rightarrow> ((string \<rightharpoonup> string) \<Rightarrow> goerror + EnvConfig) \<Rightarrow>
    happening list \<Rightarrow> unit mainio" where
  "main files parse hs p0 =
     andThen (NewConfig files parse
       \<lparr>ld_Env = (case ps_env p0 ''PROJECT_ENV'' of None \<Rightarrow> [] | Some v \<Rightarrow> v), ld_EnvFile = []\<rparr>) (\<lambda>cfg.
     andThen (attempt (NewLogger (AppName cfg) (AppEnv cfg)) (\<lambda>r. case r of Inl e \<Rightarrow> throw (Panic e) | Inr _ \<Rightarrow> ret ())) (\<lambda>_.
     deferring (closed Signals) (
     andThen (NewOpenTelemetry (OTLPEndpoint cfg)) (\<lambda>otel.
     deferring (endTelemetry otel) (
     andThen (orFatal (NewPostgresDB (main_dsn cfg)) ''postgres init failed'') (\<lambda>_.
     deferring closeDb (
     andThen (orFatal (with_pub (NewPublisher (RabbitExchange cfg))) ''rabbitmq publisher init failed'') (\<lambda>_.
     deferring closePub (
     andThen (orFatal (with_sub (NewSubscriber (RabbitExchange cfg) (RabbitQueue cfg) subscribedKeys))
                ''rabbitmq subscriber init failed'') (\<lambda>_.
     deferring closeSub (serve cfg hs))))))))))) p0"

section \<open>Facts\<close>

text \<open>What no set-up step touches: the goroutines, what was closed, and the logger once it is there.\<close>

definition setting_up :: "process \<Rightarrow> process \<Rightarrow> bool" where
  "setting_up p p' \<longleftrightarrow> ps_http p' = ps_http p \<and> ps_worker p' = ps_worker p \<and> ps_consumer p' = ps_consumer p \<and>
     ps_closed p' = ps_closed p \<and> (ps_logger p \<noteq> None \<longrightarrow> ps_logger p' \<noteq> None)"

lemma setting_up_rel [simp, intro, frame_intros]: "reflp setting_up" "transp setting_up"
  by (auto simp: reflp_def transp_def setting_up_def)

lemma ext_call_frame [frame_intros]: "(\<And>p. setting_up p (f p)) \<Longrightarrow> rel setting_up (ext_call f)"
proof -
  assume f: "\<And>p. setting_up p (f p)"
  have "setting_up p (snd (ext_call f p))" for p
    using f [of "p\<lparr>ps_calls := ps_calls p + 1\<rparr>"] by (auto simp: ext_call_def Let_def setting_up_def split: option.split)
  then show ?thesis by (simp add: rel_def)
qed

lemma rel_state: "(\<And>p. setting_up p (f p)) \<Longrightarrow> rel setting_up (\<lambda>p. (g p, f p))"
  by (simp add: rel_def)

lemma orFail_frame [frame_intros]: "rel setting_up m \<Longrightarrow> rel setting_up c \<Longrightarrow> rel setting_up (orFail m c what)"
  unfolding orFail_def by (intro frame_intros) (auto intro!: frame_intros split: sum.split)

lemma pool_Close_frame [frame_intros]: "rel setting_up pool_Close"
  by (auto simp: rel_def pool_Close_def ext_call_def Let_def setting_up_def split: option.split)

lemma setup_frames [frame_intros]:
  "rel setting_up (NewPostgresDB dsn)" "rel setting_up (with_pub m)" "rel setting_up (with_sub m)"
proof -
  show "rel setting_up (with_pub m)" "rel setting_up (with_sub m)"
    by (auto simp: rel_def setting_up_def with_pub_def with_sub_def split: prod.split)
  show "rel setting_up (NewPostgresDB dsn)" unfolding NewPostgresDB_def
    by (auto simp: setting_up_def intro!: frame_intros rel_state)
qed

lemma telemetry_frame: "rel setting_up (NewOpenTelemetry endpoint)"
proof -
  have q: "rel setting_up (\<lambda>p. (Inr (g p), std_line (l p) p))" for g l
    by (rule rel_state) (simp add: setting_up_def std_line_def)
  show ?thesis unfolding NewOpenTelemetry_def Let_def
    by (auto simp: setting_up_def intro!: frame_intros q split: sum.split)
qed

text \<open>
  \<open>outcome hs xs r p\<close>: the process has ended with code 1 and nothing runs; or with code 2, a goroutine having panicked, and
  nothing was closed; or the function has returned, or panicked itself, and the resources \<open>xs\<close> were closed in this order,
  and are closed.
\<close>

fun deadly :: "happening \<Rightarrow> bool" where
  "deadly (ConsumeReturned (Some (GoPanic m))) = True"
| "deadly (WorkerPanicked m) = True"
| "deadly _ = False"


definition idle_process :: "process \<Rightarrow> bool" where
  "idle_process p \<longleftrightarrow> ps_http p = None \<and> \<not> ps_worker p \<and> \<not> ps_consumer p \<and> ps_closed p = []"

definition shut :: "bool \<Rightarrow> resource list \<Rightarrow> process \<Rightarrow> bool" where
  "shut orderly xs p \<longleftrightarrow> ps_closed p = xs \<and> (orderly \<longrightarrow> ps_http p = None) \<and> (Subscription \<in> set xs \<longrightarrow> session_down (ps_sub p)) \<and>
     (Publishing \<in> set xs \<longrightarrow> session_down (ps_pub p)) \<and> (Database \<in> set xs \<longrightarrow> \<not> pl_open (ps_db p))"

definition outcome :: "happening list \<Rightarrow> resource list \<Rightarrow> halt + unit \<Rightarrow> process \<Rightarrow> bool" where
  "outcome hs xs r p \<longleftrightarrow> r = Inl (Exit 1) \<and> idle_process p \<or>
     r = Inl (Exit 2) \<and> (\<exists>h \<in> set hs. deadly h) \<and> ps_closed p = [] \<or>
     r = Inr () \<and> shut True xs p \<or> (\<exists>e. r = Inl (Panic e)) \<and> shut False xs p"

lemma idle_frame: "idle_process p \<Longrightarrow> setting_up p p' \<Longrightarrow> idle_process p'"
  by (simp add: idle_process_def setting_up_def)

lemma logAt_frame: "setting_up p (logAt l sp msg kvs p)"
  by (simp add: setting_up_def logAt_def split: option.split)

lemma deferring_outcome:
  assumes "deferring cleanup body p = (r, p')"
    and "\<And>q p1. body p = (q, p1) \<Longrightarrow> outcome hs xs q p1" and "\<And>b p. shut b xs p \<Longrightarrow> shut b (xs @ [x]) (cleanup p)"
  shows "outcome hs (xs @ [x]) r p'"
proof -
  obtain q p1 where q: "body p = (q, p1)" by (cases "body p")
  from assms(2) [OF q] assms(1) q assms(3) [of _ p1] show ?thesis by (auto simp: deferring_def outcome_def)
qed

text \<open>One stage of set-up: a step that may be fatal, then the rest under a deferred call.\<close>

lemma stage:
  assumes "rel setting_up m" and "\<And>b p. shut b xs p \<Longrightarrow> shut b (xs @ [x]) (cleanup p)"
    and "\<And>p r p'. idle_process p \<Longrightarrow> ps_logger p \<noteq> None \<Longrightarrow> rest p = (r, p') \<Longrightarrow> outcome hs xs r p'"
    and "idle_process p" "ps_logger p \<noteq> None" "andThen (orFatal m msg) (\<lambda>_. deferring cleanup rest) p = (r, p')"
  shows "outcome hs (xs @ [x]) r p'"
proof -
  obtain q p1 where q: "m p = (q, p1)" by (cases "m p")
  have f: "setting_up p p1" by (rule relD [where m = m, OF assms(1) q])
  have i: "idle_process p1" "ps_logger p1 \<noteq> None" using idle_frame [OF assms(4) f] f assms(5) by (simp_all add: setting_up_def)
  show ?thesis
  proof (cases q)
    case (Inl e)
    then have "r = Inl (Exit 1)" "\<exists>kvs. p' = logAt LFatal None msg kvs p1"
      using assms(6) q i(2) by (auto simp: orFatal_def attempt_def andThen_def logger_Fatal_def)
    then show ?thesis using idle_frame [OF i(1) logAt_frame] by (auto simp: outcome_def)
  next
    case (Inr u)
    then have "deferring cleanup rest p1 = (r, p')" using assms(6) q by (simp add: orFatal_def attempt_def andThen_def)
    then show ?thesis by (rule deferring_outcome) (use assms(2,3) i in blast)+
  qed
qed

lemma happen_keeps:
  assumes "happen h p = (r, p')"
  shows "ps_closed p' = ps_closed p \<and> ps_worker p' = ps_worker p \<and> (ps_consumer p' \<longrightarrow> ps_consumer p) \<and>
    (r = Inr () \<or> r = Inl (Exit 2) \<and> deadly h) \<and> ((\<exists>e. h = ConsumeReturned e) \<longrightarrow> \<not> ps_consumer p')"
  using assms
  by (cases h) (auto simp: logAt_def crash_def std_line_def Let_def split: option.splits goerror.splits if_splits)

lemma happens_keep:
  assumes "happens hs p = (r, p')"
  shows "ps_closed p' = ps_closed p \<and> ps_worker p' = ps_worker p \<and> (ps_consumer p' \<longrightarrow> ps_consumer p) \<and>
    (r = Inr () \<and> (\<forall>e. ConsumeReturned e \<in> set hs \<longrightarrow> \<not> ps_consumer p') \<or> r = Inl (Exit 2) \<and> (\<exists>h \<in> set hs. deadly h))"
  using assms
proof (induction hs arbitrary: p)
  case (Cons h hs)
  obtain q p1 where q: "happen h p = (q, p1)" by (cases "happen h p")
  note k = happen_keeps [OF q]
  show ?case
  proof (cases q)
    case (Inl e)
    then show ?thesis using Cons.prems q k by (auto simp: andThen_def)
  next
    case (Inr u)
    then have "happens hs p1 = (r, p')" using Cons.prems q by (simp add: andThen_def)
    from Cons.IH [OF this] k show ?thesis by auto
  qed
qed simp

lemma start_sel [simp]:
  "ps_closed (startGoroutines cfg p) = ps_closed p" "ps_worker (startGoroutines cfg p)" "ps_consumer (startGoroutines cfg p)"
  by (auto simp: startGoroutines_def logAt_def split: option.split)

text \<open>From the signal on.\<close>

definition shutdown :: "unit mainio" where
  "shutdown =
     andThen (logger_Info None ''shutdown signal received'' []) (\<lambda>_.
     andThen GracefulStop (\<lambda>_.
     attempt httpServer_Shutdown (\<lambda>_.
     attempt logger_Sync (\<lambda>r p. case r of
       Inl e \<Rightarrow> (Inr (), std_line (''logger sync: '' @ Error (ps_text p) e) p) | Inr _ \<Rightarrow> (Inr (), p)))))"

lemma serve_unfold: "serve cfg hs p = andThen (happens hs) (\<lambda>_. shutdown) (startGoroutines cfg p)"
  by (simp add: serve_def shutdown_def andThen_def [of "\<lambda>p. (Inr (), startGoroutines cfg p)"])

lemma shutdown_keeps:
  assumes "shutdown p = (r, p')"
  shows "ps_closed p' = ps_closed p \<and> ps_worker p' = ps_worker p \<and> ps_consumer p' = ps_consumer p \<and>
    (r = Inr () \<and> ps_http p' = None \<or> (\<exists>e. r = Inl (Panic e)))"
  using assms
  by (auto simp: shutdown_def andThen_def attempt_def logger_Info_def logAt_def GracefulStop_def httpServer_Shutdown_def ext_call_def logger_Sync_def
      std_line_def Let_def split: option.splits sum.splits if_splits)

lemma serve_ends:
  assumes "serve cfg hs p = (r, p')"
  shows "ps_closed p' = ps_closed p \<and> ps_worker p' \<and>
    (r = Inl (Exit 2) \<and> (\<exists>h \<in> set hs. deadly h) \<or>
     (r = Inr () \<and> ps_http p' = None \<or> (\<exists>e. r = Inl (Panic e))) \<and> (\<forall>e. ConsumeReturned e \<in> set hs \<longrightarrow> \<not> ps_consumer p'))"
proof -
  obtain q p1 where q: "happens hs (startGoroutines cfg p) = (q, p1)" by (cases "happens hs (startGoroutines cfg p)")
  show ?thesis
  proof (cases q)
    case (Inl e)
    then show ?thesis using assms q happens_keep [OF q] by (auto simp: serve_unfold andThen_def)
  next
    case (Inr u)
    then have "shutdown p1 = (r, p')" using assms q by (simp add: serve_unfold andThen_def)
    from shutdown_keeps [OF this] happens_keep [OF q] Inr show ?thesis by auto
  qed
qed

lemma close_steps:
  "shut b xs p \<Longrightarrow> shut b (xs @ [Subscription]) (closeSub p)" "shut b xs p \<Longrightarrow> shut b (xs @ [Publishing]) (closePub p)"
  "shut b xs p \<Longrightarrow> shut b (xs @ [Database]) (closeDb p)" "shut b xs p \<Longrightarrow> shut b (xs @ [Telemetry]) (endTelemetry o1 p)"
  "shut b xs p \<Longrightarrow> shut b (xs @ [Signals]) (closed Signals p)"
  by (auto simp: shut_def closeSub_def closePub_def closeDb_def endTelemetry_def closed_def with_pub_def with_sub_def
      Publisher_Close_def Subscriber_Close_def closeBoth_def closeCh_def closeConn_def andThen_def session_down_def
      pool_Close_def ext_call_def EndAPM_def logAt_def std_line_def Let_def split: prod.splits sum.splits option.splits if_splits)

text \<open>\<open>main\<close> from the inside out.\<close>

definition sub_stage :: "EnvConfig \<Rightarrow> happening list \<Rightarrow> unit mainio" where
  "sub_stage cfg hs =
     andThen (orFatal (with_sub (NewSubscriber (RabbitExchange cfg) (RabbitQueue cfg) subscribedKeys))
                ''rabbitmq subscriber init failed'') (\<lambda>_. deferring closeSub (serve cfg hs))"

definition pub_stage :: "EnvConfig \<Rightarrow> happening list \<Rightarrow> unit mainio" where
  "pub_stage cfg hs =
     andThen (orFatal (with_pub (NewPublisher (RabbitExchange cfg))) ''rabbitmq publisher init failed'')
       (\<lambda>_. deferring closePub (sub_stage cfg hs))"

definition db_stage :: "EnvConfig \<Rightarrow> happening list \<Rightarrow> unit mainio" where
  "db_stage cfg hs =
     andThen (orFatal (NewPostgresDB (main_dsn cfg)) ''postgres init failed'') (\<lambda>_. deferring closeDb (pub_stage cfg hs))"

definition otel_stage :: "EnvConfig \<Rightarrow> happening list \<Rightarrow> unit mainio" where
  "otel_stage cfg hs =
     andThen (NewOpenTelemetry (OTLPEndpoint cfg)) (\<lambda>otel. deferring (endTelemetry otel) (db_stage cfg hs))"

lemmas stage_defs = sub_stage_def pub_stage_def db_stage_def otel_stage_def

definition loggerOf :: "EnvConfig \<Rightarrow> LoggerConfig" where
  "loggerOf cfg = \<lparr>lg_console_encoder = (AppEnv cfg = ''local''),
     lg_file = (if AppEnv cfg = ''local'' then None else Some (''/var/log/'' @ AppName cfg @ ''/app.log'')),
     lg_app = AppName cfg, lg_env = AppEnv cfg\<rparr>"

definition main_loader :: "process \<Rightarrow> ConfigLoader" where
  "main_loader p = \<lparr>ld_Env = (case ps_env p ''PROJECT_ENV'' of None \<Rightarrow> [] | Some v \<Rightarrow> v), ld_EnvFile = []\<rparr>"

lemma main_unfold:
  "main files parse hs p =
     (case NewConfig files parse (main_loader p) p of
        (Inl h, p1) \<Rightarrow> (Inl h, p1)
      | (Inr cfg, p1) \<Rightarrow> deferring (closed Signals) (otel_stage cfg hs) (p1\<lparr>ps_logger := Some (loggerOf cfg)\<rparr>))"
  by (simp add: main_def main_loader_def andThen_def [of "NewConfig _ _ _"] andThen_def [of "attempt (NewLogger _ _) _"]
      attempt_def [of "NewLogger _ _"] NewLogger_def loggerOf_def stage_defs split: prod.split sum.split)

lemma NewConfig_only:
  assumes "NewConfig files parse loader p = (q, p1)"
  shows "p1 = p\<lparr>ps_env := ps_env p1, ps_std := ps_std p1\<rparr> \<and> (\<forall>h. q = Inl h \<longrightarrow> h = Exit 1)"
  using assms by (cases p) (auto simp: NewConfig_def loadEnvFile_def parseEnv_def andThen_def std_line_def Let_def split: sum.splits if_splits)

lemma sub_outcome:
  assumes "idle_process u" "ps_logger u \<noteq> None" "sub_stage cfg hs u = (q, v)"
  shows "outcome hs [Subscription] q v"
proof -
  have "outcome hs [] r p'" if "idle_process p" "serve cfg hs p = (r, p')" for p r p'
    using serve_ends [OF that(2)] that(1) by (auto simp: outcome_def shut_def idle_process_def)
  then show ?thesis
    by (intro stage [where xs = "[]", unfolded append.simps, OF setup_frames(3) _ _ assms(1,2) assms(3) [unfolded sub_stage_def]])
      (erule close_steps(1) [where xs = "[]", unfolded append.simps], blast)
qed

lemma pub_outcome:
  assumes "idle_process u" "ps_logger u \<noteq> None" "pub_stage cfg hs u = (q, v)"
  shows "outcome hs [Subscription, Publishing] q v"
  by (rule stage [where xs = "[Subscription]", unfolded append.simps, OF setup_frames(2) _ _ assms(1,2) assms(3) [unfolded pub_stage_def]])
    (erule close_steps(2) [where xs = "[Subscription]", unfolded append.simps], rule sub_outcome, assumption+)

lemma db_outcome:
  assumes "idle_process u" "ps_logger u \<noteq> None" "db_stage cfg hs u = (q, v)"
  shows "outcome hs [Subscription, Publishing, Database] q v"
  by (rule stage [where xs = "[Subscription, Publishing]", unfolded append.simps, OF setup_frames(1) _ _ assms(1,2) assms(3) [unfolded db_stage_def]])
    (erule close_steps(3) [where xs = "[Subscription, Publishing]", unfolded append.simps], rule pub_outcome, assumption+)

lemma otel_outcome:
  assumes "idle_process u" "ps_logger u \<noteq> None" "otel_stage cfg hs u = (q, v)"
  shows "outcome hs [Subscription, Publishing, Database, Telemetry] q v"
  using assms(3) unfolding otel_stage_def
proof (cases rule: andThen_E)
  case (failed e)
  then show ?thesis by (auto simp: NewOpenTelemetry_def Let_def attempt_def split: prod.splits sum.splits if_splits)
next
  case (went_on o1 u1)
  have f: "setting_up u u1" by (rule relD [where m = "NewOpenTelemetry (OTLPEndpoint cfg)", OF telemetry_frame went_on(1)])
  have i: "idle_process u1" "ps_logger u1 \<noteq> None" using idle_frame [OF assms(1) f] f assms(2) by (simp_all add: setting_up_def)
  show ?thesis
    by (rule deferring_outcome [where xs = "[Subscription, Publishing, Database]", unfolded append.simps, OF went_on(2)])
      (rule db_outcome [OF i], assumption, erule close_steps(4) [where xs = "[Subscription, Publishing, Database]", unfolded append.simps])
qed

text \<open>
  C20: \<open>main\<close> is all or nothing, unless a goroutine panics. Whatever call fails while it sets up, and whatever happens
  before the signal, it ends in one of four ways. It exits with code 1 before any server, worker or consumer was started. Or
  it serves until the signal, and then closes subscription, publisher, pool, telemetry and signal handling, in this order,
  leaving no HTTP server listening, no session with the broker and no connection pool open. Or the gRPC library
  panics while it is stopped: the same is closed, in the same order, but the HTTP server listens to the end. Or consumer or
  worker have panicked: the process ends with code 2, and nothing is closed.
\<close>

theorem main_all_or_nothing:
  assumes "idle_process p" and "main files parse hs p = (r, p')"
  shows "r = Inl (Exit 1) \<and> ps_http p' = None \<and> \<not> ps_worker p' \<and> \<not> ps_consumer p' \<and> ps_closed p' = [] \<or>
    r = Inl (Exit 2) \<and> (\<exists>h \<in> set hs. deadly h) \<and> ps_closed p' = [] \<or>
    (r = Inr () \<and> ps_http p' = None \<or> (\<exists>e. r = Inl (Panic e))) \<and>
      ps_closed p' = [Subscription, Publishing, Database, Telemetry, Signals] \<and>
      session_down (ps_sub p') \<and> session_down (ps_pub p') \<and> \<not> pl_open (ps_db p')"
proof -
  obtain q p1 where q: "NewConfig files parse (main_loader p) p = (q, p1)" by fastforce
  note only = NewConfig_only [OF q]
  have i1: "idle_process (p1\<lparr>ps_logger := l\<rparr>)" "idle_process p1" for l
    using assms(1) by (subst only [THEN conjunct1], simp add: idle_process_def)+
  show ?thesis
  proof (cases q)
    case (Inl h)
    then show ?thesis using assms(2) q only i1(2) by (simp add: main_unfold idle_process_def)
  next
    case (Inr cfg)
    let ?p2 = "p1\<lparr>ps_logger := Some (loggerOf cfg)\<rparr>"
    have "deferring (closed Signals) (otel_stage cfg hs) ?p2 = (r, p')" using assms(2) q Inr by (simp add: main_unfold)
    then have "outcome hs [Subscription, Publishing, Database, Telemetry, Signals] r p'"
      by (rule deferring_outcome [where xs = "[Subscription, Publishing, Database, Telemetry]", unfolded append.simps])
        (erule otel_outcome [OF i1(1), rotated], simp,
          erule close_steps(5) [where xs = "[Subscription, Publishing, Database, Telemetry]", unfolded append.simps])
    then show ?thesis by (auto simp: outcome_def idle_process_def shut_def)
  qed
qed

text \<open>A process whose calls all succeed, but those to the broker that \<open>f\<close> and \<open>g\<close> make fail.\<close>

definition fresh_process :: "(nat \<Rightarrow> string option) \<Rightarrow> (nat \<Rightarrow> string option) \<Rightarrow> process" where
  "fresh_process f g =
     \<lparr>ps_env = Map.empty, ps_std = [], ps_logger = None, ps_log = [],
      ps_db = \<lparr>pl_open = False, pl_dsn = [], pl_max_open = 0, pl_max_idle = 0, pl_max_lifetime = 0\<rparr>,
      ps_collector = False, ps_traces = False, ps_metrics = False, ps_pub = fresh_amqp f, ps_sub = fresh_amqp g,
      ps_conns = [], ps_listener = None, ps_http = None, ps_worker = False, ps_consumer = False, ps_closed = [],
      ps_calls = 0, ps_faults = (\<lambda>_. None), ps_text = (\<lambda>_. [])\<rparr>"

text \<open>In one run the consumer panics; in the other it loses its channel, and the signal comes.\<close>

lemma sample_runs:
  "fst (main (\<lambda>_. Inr Map.empty) (\<lambda>_. Inr envDefault) [ConsumeReturned (Some (GoPanic ''nil zone''))]
     (fresh_process (\<lambda>_. None) (\<lambda>_. None))) = Inl (Exit 2)"
  "fst (main (\<lambda>_. Inr Map.empty) (\<lambda>_. Inr envDefault) [ConsumeReturned (Some (DriverError ''delivery channel closed''))]
     (fresh_process (\<lambda>_. None) (\<lambda>_. None))) = Inr ()"
  by code_simp+

theorem main_all_or_nothing_witness:
  "\<exists>p1 p2. main (\<lambda>_. Inr Map.empty) (\<lambda>_. Inr envDefault) [ConsumeReturned (Some (GoPanic ''nil zone''))]
       (fresh_process (\<lambda>_. None) (\<lambda>_. None)) = (Inl (Exit 2), p1) \<and> ps_closed p1 = [] \<and>
     main (\<lambda>_. Inr Map.empty) (\<lambda>_. Inr envDefault) [ConsumeReturned (Some (DriverError ''delivery channel closed''))]
       (fresh_process (\<lambda>_. None) (\<lambda>_. None)) = (Inr (), p2) \<and>
     ps_closed p2 = [Subscription, Publishing, Database, Telemetry, Signals] \<and> \<not> pl_open (ps_db p2)"
proof -
  let ?run = "\<lambda>e. main (\<lambda>_. Inr Map.empty) (\<lambda>_. Inr envDefault) [ConsumeReturned (Some e)] (fresh_process (\<lambda>_. None) (\<lambda>_. None))"
  have i: "idle_process (fresh_process (\<lambda>_. None) (\<lambda>_. None))" by (simp add: idle_process_def fresh_process_def)
  obtain p1 p2 where r: "?run (GoPanic ''nil zone'') = (Inl (Exit 2), p1)" "?run (DriverError ''delivery channel closed'') = (Inr (), p2)"
    using sample_runs by (metis prod.collapse)
  from main_all_or_nothing [OF i r(1)] main_all_or_nothing [OF i r(2)] r show ?thesis by auto
qed

section \<open>When nothing fails, and when the broker does\<close>

text \<open>
  C21: an exit in the middle of the set-up closes nothing: \<open>os.Exit\<close> runs no deferred call. When everything but the set-up of the
  subscription works, the process exits with the pool and the session of the publisher open and with
  spans and metrics it has not flushed.
\<close>

theorem fatal_skips_deferred:
  assumes "ps_faults p = (\<lambda>_. None)" and "\<And>env. parse env = Inr cfg" and "OTLPEndpoint cfg \<noteq> []"
    and "NewPublisher (RabbitExchange cfg) (ps_pub p) = (Inr (), a)"
    and "NewSubscriber (RabbitExchange cfg) (RabbitQueue cfg) subscribedKeys (ps_sub p) = (Inl e, b)"
  shows "\<exists>p'. main files parse hs p = (Inl (Exit 1), p') \<and> ps_closed p' = ps_closed p \<and> pl_open (ps_db p') \<and>
    ps_pub p' = a \<and> ps_traces p' \<and> ps_metrics p'"
proof -
  obtain q p1 where q: "NewConfig files parse (main_loader p) p = (q, p1)" by fastforce
  have qc: "q = Inr cfg" using q assms(2)
    by (auto simp: NewConfig_def parseEnv_def loadEnvFile_def andThen_def Let_def split: sum.splits if_splits)
  define p2 where "p2 = p1\<lparr>ps_logger := Some (loggerOf cfg)\<rparr>"
  have p2: "ps_faults p2 = (\<lambda>_. None)" "ps_pub p2 = ps_pub p" "ps_sub p2 = ps_sub p" "ps_closed p2 = ps_closed p" "ps_logger p2 \<noteq> None"
    unfolding p2_def using assms(1) by (subst NewConfig_only [OF q, THEN conjunct1], simp)+
  obtain p3 where p3: "NewOpenTelemetry (OTLPEndpoint cfg) p2 = (Inr \<lparr>ot_tp = True, ot_mp = True\<rparr> :: halt + OpenTelemetry, p3)"
    "ps_faults p3 = (\<lambda>_. None)" "ps_pub p3 = ps_pub p" "ps_sub p3 = ps_sub p" "ps_closed p3 = ps_closed p" "ps_logger p3 \<noteq> None"
    "ps_traces p3" "ps_metrics p3"
    using p2 assms(3) by (auto simp: NewOpenTelemetry_def Let_def attempt_def ext_call_def)
  obtain p4 where p4: "NewPostgresDB (main_dsn cfg) p3 = (Inr (), p4)"
    "ps_pub p4 = ps_pub p" "ps_sub p4 = ps_sub p" "ps_closed p4 = ps_closed p" "ps_logger p4 \<noteq> None"
    "ps_traces p4" "ps_metrics p4" "pl_open (ps_db p4)"
    using p3 by (auto simp: NewPostgresDB_def Let_def attempt_def ext_call_def orFail_def andThen_def limited_def opened_pool_def
        SetMaxOpenConns_def SetMaxIdleConns_def)
  let ?p5 = "p4\<lparr>ps_pub := a\<rparr>"
  let ?p6 = "?p5\<lparr>ps_sub := b\<rparr>"
  have s: "sub_stage cfg hs ?p5 = (Inl (Exit 1), logAt LFatal None ''rabbitmq subscriber init failed'' [(ErrorKey, JStr (Error (ps_text ?p6) e))] ?p6)"
    using p4(3,5) assms(5) by (auto simp: sub_stage_def orFatal_def attempt_def with_sub_def andThen_def logger_Fatal_def)
  have "pub_stage cfg hs p4 = (Inl (Exit 1), logAt LFatal None ''rabbitmq subscriber init failed'' [(ErrorKey, JStr (Error (ps_text ?p6) e))] ?p6)"
    using p4(2) assms(4) s by (simp add: pub_stage_def orFatal_def attempt_def with_pub_def andThen_def deferring_def)
  then have "otel_stage cfg hs p2 = (Inl (Exit 1), logAt LFatal None ''rabbitmq subscriber init failed'' [(ErrorKey, JStr (Error (ps_text ?p6) e))] ?p6)"
    using p3(1) p4(1) by (simp add: otel_stage_def db_stage_def orFatal_def attempt_def andThen_def deferring_def)
  then show ?thesis using q qc p4 by (auto simp: main_unfold deferring_def logAt_def simp flip: p2_def)
qed

lemma NewPublisher_fine: "am_faults a = (\<lambda>_. None) \<Longrightarrow> \<exists>a'. NewPublisher x a = (Inr (), a') \<and> session_open a'"
  by (simp add: NewPublisher_def andThen_def orFail_def attempt_def amqp_call_def Dial_def Channel_def ExchangeDeclare_def
      session_open_def Let_def)

theorem fatal_skips_deferred_witness:
  "\<exists>p'. main (\<lambda>_. Inr Map.empty) (\<lambda>_. Inr envDefault) [] (fresh_process (\<lambda>_. None) (\<lambda>_. Some ''refused'')) = (Inl (Exit 1), p') \<and>
     session_open (ps_pub p') \<and> pl_open (ps_db p')"
proof -
  let ?p = "fresh_process (\<lambda>_. None) (\<lambda>_. Some ''refused'')"
  have f: "ps_faults ?p = (\<lambda>_. None)" "am_faults (ps_pub ?p) = (\<lambda>_. None)" by (simp_all add: fresh_process_def fresh_amqp_def)
  obtain a where a: "NewPublisher (RabbitExchange envDefault) (ps_pub ?p) = (Inr (), a)" "session_open a"
    using NewPublisher_fine [OF f(2)] by blast
  obtain e b where "NewSubscriber (RabbitExchange envDefault) (RabbitQueue envDefault) subscribedKeys (ps_sub ?p) = (Inl e, b)"
    by (simp add: NewSubscriber_def andThen_def orFail_def attempt_def amqp_call_def Dial_def fresh_process_def fresh_amqp_def Let_def)
  from fatal_skips_deferred [OF f(1) _ _ a(1) this, of "\<lambda>_. Inr envDefault" "\<lambda>_. Inr Map.empty" "[]"] a(2)
  show ?thesis by (auto simp: envDefault_def)
qed

text \<open>
  A lost broker is not found again. When the subscription's deliveries end while the service serves, the consumer has
  stopped for good: whatever happens later, short of a panic, no consumer runs, while \<open>main\<close> goes on serving until the
  signal with the outbox worker running, and returns as if nothing had happened.
\<close>

theorem consumer_never_restarts:
  assumes "ConsumeReturned e \<in> set hs" and "\<forall>h \<in> set hs. \<not> deadly h" and "serve cfg hs p = (r, p')"
  shows "r \<noteq> Inl (Exit 1) \<and> r \<noteq> Inl (Exit 2) \<and> \<not> ps_consumer p' \<and> ps_worker p'"
  using serve_ends [OF assms(3)] assms(1,2) by auto

theorem consumer_never_restarts_witness:
  "\<not> ps_consumer (snd (serve envDefault [ConsumeReturned (Some (DriverError ''delivery channel closed''))]
     (fresh_process (\<lambda>_. None) (\<lambda>_. None))))"
proof -
  let ?h = "ConsumeReturned (Some (DriverError ''delivery channel closed''))"
  have "?h \<in> set [?h]" "\<forall>h \<in> set [?h]. \<not> deadly h" by simp_all
  from consumer_never_restarts [OF this surjective_pairing, of envDefault] show ?thesis by blast
qed

end
