(* ===== verification/Redis.thy ===== *)
theory Redis
  imports Rabbit
begin

text \<open>
  \<^verbatim>\<open>pkg/redis\<close>: the adapter that gives an application its own keys in a shared Redis database. The client of
  go-redis is a parameter, a record of the calls the adapter makes. Nothing in the service uses the adapter yet.
\<close>

section \<open>The adapter\<close>

record redis_options =
  ro_Addr :: string
  ro_Password :: string
  ro_DB :: int

record ('w, 'v) redis_client =
  rc_Set :: "string \<Rightarrow> 'v \<Rightarrow> Duration \<Rightarrow> ('w, goerror, unit) io"
  rc_Get :: "string \<Rightarrow> ('w, goerror, string) io"
  rc_SetNX :: "string \<Rightarrow> 'v \<Rightarrow> Duration \<Rightarrow> ('w, goerror, bool) io"
  rc_Del :: "string list \<Rightarrow> ('w, goerror, unit) io"
  rc_Eval :: "string \<Rightarrow> string list \<Rightarrow> 'v list \<Rightarrow> ('w, goerror, 'v) io"
  rc_Ping :: "('w, goerror, unit) io"

record ('w, 'v) redisAdapter =
  ra_client :: "('w, 'v) redis_client"
  ra_prefix :: string

text \<open>\<open>redis.NewClient\<close> is the parameter \<open>newClient\<close>; the tracing hook has no effect here.\<close>

definition InitConnection :: "(redis_options \<Rightarrow> ('w, 'v) redis_client) \<Rightarrow> int \<Rightarrow> string \<Rightarrow> string \<Rightarrow> string \<Rightarrow> string \<Rightarrow>
    ('w, 'v) redisAdapter" where
  "InitConnection newClient db host port password appConfig =
     \<lparr>ra_client = newClient \<lparr>ro_Addr = host @ '':'' @ port, ro_Password = password, ro_DB = db\<rparr>,
      ra_prefix = appConfig @ '':''\<rparr>"

definition redisAdapter_Set :: "('w, 'v) redisAdapter \<Rightarrow> string \<Rightarrow> 'v \<Rightarrow> Duration \<Rightarrow> ('w, goerror, unit) io" where
  "redisAdapter_Set r key v ttl = rc_Set (ra_client r) (ra_prefix r @ key) v ttl"

definition redisAdapter_Get :: "('w, 'v) redisAdapter \<Rightarrow> string \<Rightarrow> ('w, goerror, string) io" where
  "redisAdapter_Get r key = rc_Get (ra_client r) (ra_prefix r @ key)"

definition redisAdapter_SetNX :: "('w, 'v) redisAdapter \<Rightarrow> string \<Rightarrow> 'v \<Rightarrow> Duration \<Rightarrow> ('w, goerror, bool) io" where
  "redisAdapter_SetNX r key v ttl = rc_SetNX (ra_client r) (ra_prefix r @ key) v ttl"

definition redisAdapter_Del :: "('w, 'v) redisAdapter \<Rightarrow> string list \<Rightarrow> ('w, goerror, unit) io" where
  "redisAdapter_Del r ks = rc_Del (ra_client r) (map (\<lambda>k. ra_prefix r @ k) ks)"

definition redisAdapter_Eval :: "('w, 'v) redisAdapter \<Rightarrow> string \<Rightarrow> string list \<Rightarrow> 'v list \<Rightarrow> ('w, goerror, 'v) io" where
  "redisAdapter_Eval r script ks args = rc_Eval (ra_client r) script (map (\<lambda>k. ra_prefix r @ k) ks) args"

definition redisAdapter_Ping :: "('w, 'v) redisAdapter \<Rightarrow> ('w, goerror, unit) io" where
  "redisAdapter_Ping r = rc_Ping (ra_client r)"

definition redisAdapter_Raw :: "('w, 'v) redisAdapter \<Rightarrow> ('w, 'v) redis_client" where
  "redisAdapter_Raw r = ra_client r"

section \<open>Namespaces\<close>

text \<open>
  Two adapters keep out of each other's keys when neither prefix begins the other. The hypothesis on the client is that a
  command changes what \<open>Get\<close> answers for its keys only.
\<close>

lemma prefixed_apart:
  assumes "\<not> prefix p q" "\<not> prefix q p"
  shows "p @ k \<noteq> q @ j"
  using assms by (metis prefix_def prefix_same_cases)

lemma adapters_apart:
  assumes "\<not> prefix (ra_prefix r) (ra_prefix s)" "\<not> prefix (ra_prefix s) (ra_prefix r)"
    and "\<And>x v ttl w q w' y. rc_Set (ra_client r) x v ttl w = (q, w') \<Longrightarrow> y \<noteq> x \<Longrightarrow> fst (rc_Get (ra_client s) y w') = fst (rc_Get (ra_client s) y w)"
    and "redisAdapter_Set r k v ttl w = (q, w')"
  shows "fst (redisAdapter_Get s j w') = fst (redisAdapter_Get s j w)"
  using assms(3) [OF assms(4) [unfolded redisAdapter_Set_def]] prefixed_apart [OF assms(1,2)]
  unfolding redisAdapter_Get_def by metis

lemma deletes_apart:
  assumes "\<not> prefix (ra_prefix r) (ra_prefix s)" "\<not> prefix (ra_prefix s) (ra_prefix r)"
    and "\<And>xs w q w' y. rc_Del (ra_client r) xs w = (q, w') \<Longrightarrow> y \<notin> set xs \<Longrightarrow> fst (rc_Get (ra_client s) y w') = fst (rc_Get (ra_client s) y w)"
    and "redisAdapter_Del r ks w = (q, w')"
  shows "fst (redisAdapter_Get s j w') = fst (redisAdapter_Get s j w)"
proof -
  have "ra_prefix s @ j \<notin> set (map (\<lambda>k. ra_prefix r @ k) ks)"
  proof
    assume "ra_prefix s @ j \<in> set (map (\<lambda>k. ra_prefix r @ k) ks)"
    then obtain k where "ra_prefix r @ k = ra_prefix s @ j" by auto
    then show False using prefixed_apart [OF assms(1,2)] by blast
  qed
  then show ?thesis unfolding redisAdapter_Get_def by (rule assms(3) [OF assms(4) [unfolded redisAdapter_Del_def]])
qed

text \<open>Application names that hold no colon are enough; with one, the key of one application is that of another.\<close>

lemma InitConnection_apart:
  assumes "CHR '':'' \<notin> set a" "CHR '':'' \<notin> set b" "a \<noteq> b"
  shows "\<not> prefix (ra_prefix (InitConnection n d h q pw a)) (ra_prefix (InitConnection n d h q pw b))"
proof
  assume "prefix (ra_prefix (InitConnection n d h q pw a)) (ra_prefix (InitConnection n d h q pw b))"
  then obtain zs where z: "b @ '':'' = (a @ '':'') @ zs" by (auto simp: InitConnection_def prefix_def)
  then have "takeWhile (\<lambda>c. c \<noteq> CHR '':'') (b @ '':'') = takeWhile (\<lambda>c. c \<noteq> CHR '':'') ((a @ '':'') @ zs)" by simp
  moreover have "takeWhile (\<lambda>c. c \<noteq> CHR '':'') (x @ CHR '':'' # ys) = x" if "CHR '':'' \<notin> set x" for x ys
    using that by (induction x) auto
  ultimately show False using assms by simp
qed

lemma InitConnection_collision:
  "redisAdapter_Get (InitConnection n d h q pw ''a'') ''b:k'' = redisAdapter_Get (InitConnection n d h q pw ''a:b'') ''k''"
  by (simp add: redisAdapter_Get_def InitConnection_def)

end
