(* ===== verification/Spec2Isabelle.thy ===== *)
theory Spec2Isabelle
  imports Payments Replicas Startup Redis
begin

text \<open>
  Verification of the billing service of a parking system: a Go service that opens an invoice when a parking
  space is reserved, charges cancellation and no-show fees, prices and closes the invoice at checkout,
  records payment requests and the callbacks of a payment gateway, and tells other services what happened
  through an outbox. It is driven by reservation events from a message broker, by gRPC calls and by HTTP
  requests, and keeps its state in PostgreSQL.

  \<^bold>\<open>Parts of the program and the theories that model them.\<close>

  \<^item> \<^verbatim>\<open>Prelude\<close>: 64-bit integers, the monad \<open>io\<close> of stateful functions that return a Go error or a value
    (\<open>andThen\<close> is \<open>if err != nil { return err }\<close>, \<open>attempt\<close> a call whose error the code inspects),
    invariants (\<open>keeps\<close>) and \<open>strings.TrimSpace\<close>.
  \<^item> \<^verbatim>\<open>App_Error\<close>: \<^verbatim>\<open>pkg/error\<close>, and \<open>errors.Is\<close> and \<open>errors.As\<close> over wrapped errors. A panic is the
    error \<open>GoPanic\<close>, which only the recovery interceptor catches.
  \<^item> \<^verbatim>\<open>Go_Time\<close>: what the program uses of Go's \<open>time\<close>: instants, durations, zones, calendar days, and
    \<open>Duration.Hours\<close> in binary64.
  \<^item> \<^verbatim>\<open>Pricing\<close>: \<^verbatim>\<open>pkg/pricing\<close>, rule by rule.
  \<^item> \<^verbatim>\<open>Model\<close>: \<^verbatim>\<open>internal/billing/model\<close>. \<^verbatim>\<open>Json_Decode\<close>: \<open>json.Unmarshal\<close> into structs, from the value a
    text denotes.
  \<^item> \<^verbatim>\<open>Postgres\<close>: the tables of \<^verbatim>\<open>data/migrations\<close> with their constraints, transactions, and the SQL statements. The
    state \<open>world\<close> also holds the clock, the identifiers still to be drawn, what the broker has been sent,
    and two scripts that say which calls to database and broker fail: a call can fail before (\<open>Fail\<close>) or
    after (\<open>Lost\<close>) its effect.
  \<^item> \<^verbatim>\<open>Invoice_Repo\<close>, \<^verbatim>\<open>Payment_Repo\<close>, \<^verbatim>\<open>Outbox\<close>: \<^verbatim>\<open>internal/billing/repository/postgres\<close>, and the worker of
    \<^verbatim>\<open>internal/billing/worker\<close>. \<^verbatim>\<open>Ledger\<close> is the abstract specification of the invoice repository: a
    map from identifiers to entries with a multiset of charges. Its locale \<open>invoice_store\<close> is the contract
    of the interface \<open>InvoiceRepository\<close>; \<^verbatim>\<open>Repo_Progress\<close> shows that operations return when the
    database answers.
  \<^item> \<^verbatim>\<open>Usecase\<close>: \<^verbatim>\<open>internal/billing/usecase\<close>, over any repository that keeps its contract (locales
    \<open>billing_service\<close>, \<open>default_billing\<close>, \<open>payment_service\<close>); \<^verbatim>\<open>Wiring\<close>: the configuration and the
    usecase of \<open>main\<close>, for which the locales are interpreted; \<^verbatim>\<open>Fees\<close>: the fee handlers.
  \<^item> \<^verbatim>\<open>Tariff\<close>: the abstract specification of the whole service, a machine \<open>billing_step\<close> over ledger, payment
    requests and messages for other services; \<^verbatim>\<open>Account\<close>: how operations, handlers and servers move the account a
    database stores by its steps (\<open>moves\<close>).
  \<^item> \<^verbatim>\<open>Consumer\<close>: \<^verbatim>\<open>internal/billing/consumer\<close> and the consuming loop of \<^verbatim>\<open>pkg/rabbit\<close> (locale
    \<open>event_billing\<close>).
  \<^item> \<^verbatim>\<open>Idempotency\<close>: \<^verbatim>\<open>pkg/idempotency\<close> and \<^verbatim>\<open>pkg/utils\<close>; \<^verbatim>\<open>Grpc\<close>: \<^verbatim>\<open>pkg/grpcserver\<close> and
    \<^verbatim>\<open>internal/billing/handler/grpc\<close>; \<^verbatim>\<open>Http\<close>: \<^verbatim>\<open>internal/billing/handler/http\<close> and the routes of
    \<open>main\<close>; \<^verbatim>\<open>Rabbit\<close>: connections to the broker and the calls of \<^verbatim>\<open>pkg/grpcclient\<close>.
  \<^item> \<^verbatim>\<open>Platform\<close>: \<^verbatim>\<open>pkg/configs\<close>, \<^verbatim>\<open>pkg/logger\<close>, \<^verbatim>\<open>pkg/db/postgres\<close>, \<^verbatim>\<open>pkg/otel\<close>, the server of
    \<^verbatim>\<open>pkg/grpcserver/init.go\<close> and the dialling of \<^verbatim>\<open>pkg/grpcclient\<close>, over the record \<open>process\<close> of what the
    process holds open; \<^verbatim>\<open>Startup\<close>: \<open>main\<close> of \<^verbatim>\<open>cmd/billing/main.go\<close> from configuration to exit, with its deferred
    calls; \<^verbatim>\<open>Redis\<close>: \<^verbatim>\<open>pkg/redis\<close>.
  \<^item> \<^verbatim>\<open>System\<close>: what the service does while it runs, as a transition system over \<open>world\<close>; \<^verbatim>\<open>Payments\<close>:
    payment requests over its runs; \<^verbatim>\<open>Replicas\<close>: several services over one database, with the outbox workers split
    into their calls. \<^verbatim>\<open>Invariants\<close> and \<^verbatim>\<open>Delivery\<close> give their
    invariants: the locales \<open>row_invariant\<close>, \<open>repository_invariant\<close> and \<open>payment_row_invariant\<close> carry a property
    of the tables from the SQL statements to repositories, usecases, handlers and servers.

  A repository operation, usecase operation or handler is one definition with the source's name, prefixed
  by its receiver where names clash (\<open>invoiceRepo_Close\<close>, \<open>Server_OpenInvoice\<close>). Interfaces are records
  of functions.

  \<^bold>\<open>What the lemmas show.\<close>

  \<^item> Pricing: the engine equals a decision table (C1), its \<open>int64\<close> total is the price in integers (C23), prices grow
    with the stay (C24), when it panics (C25), and that exclusive charges exclude each other.
  \<^item> Repositories: each operation is all or nothing under every failure script and refines the ledger (C6, C7, C8),
    retries are harmless and what was created is found (C28, C33, C38).
  \<^item> Usecases: checkout bills the session (C9), fees are exact (C29, C30, C32), though announced as the end of the
    invoice (C31), payment requests are stored as asked (C37), but settling them is not final (C22).
  \<^item> Events: effects happen at most once, and well-formed events are acknowledged only with their effect (C10, C11); the worker sends in order
    and drains the outbox (C26, C27); replicas send what they should, but may send it twice (C18, C19).
  \<^item> Servers: gRPC and its replay cache (C34, C35, C36), the webhook (C39, C40).
  \<^item> The process: \<open>main\<close> is all or nothing, unless a goroutine panics (C20), except that a fatal exit closes nothing (C21); what the set-up
    functions leave open, and a consumer that does not come back, are lemmas of \<^verbatim>\<open>Platform\<close>, \<^verbatim>\<open>Rabbit\<close> and
    \<^verbatim>\<open>Startup\<close>.
  \<^item> The whole service, in this theory: it implements an abstract billing machine, with its payments and its messages
    (C2), so that invoices carry the tariff and every charge is announced (C3); the invariant of every reachable
    state (C4) and the types of what it stores (C16), a stay from booking to checkout (C5), final invoices (C12, C13) and the race that breaks finality (C14),
    events reach the broker (C15), settled payments have their event (C17), any number of replicas (C18).

  \<^bold>\<open>Bounds.\<close> Loops over data are structural recursions. The worker's endless loop is \<open>Run p n\<close>, \<open>n\<close> ticks; a
  backlog of \<open>m\<close> rows needs \<open>m / 200\<close> ticks, rounded up, which C27 and C15 prove to be enough. The consuming loop
  recurses over what its channels offer. Amounts are 64-bit words; C23 gives the tariffs for
  which no sum wraps around, and SQL additions check their range as PostgreSQL does.

  \<^bold>\<open>Parameters.\<close> Code outside the repository is an argument: the zone database (\<open>tzdb\<close>), PostgreSQL's reading of
  interval literals, HMAC-SHA256, the grammar of JSON (\<open>parse\<close>), protobuf encoding, the stub of the payment
  service, the clients of the user service and of Redis, the readings of the environment and its file, and the unique
  constraints, defaults and the precision of the expiry (\<open>ps_expires_at\<close>) of the table \<open>payment_requests\<close>, which no migration
  contains. Calls that open, close or flush something succeed or fail by a script (\<open>am_faults\<close>, \<open>ps_faults\<close>), and so
  does the stopping of the gRPC server, which panics when it fails.

  \<^bold>\<open>Not modelled.\<close> Generated code and mocks; implementations of the user client, of which the repository has none; the health
  service of gRPC; how the HTTP server applies its timeouts; spans, and how log entries are encoded and written. The requests of
  \<^verbatim>\<open>System\<close> do not log: only \<open>main\<close> does, and its goroutines write their first entries in the order in which they are
  started, which Go leaves open. \<open>main\<close> does not wait for worker and consumer; what they still do while it closes their
  connections is a failing call of \<^verbatim>\<open>System\<close>, and a panic of theirs counts up to the signal only. \<open>GracefulStop\<close> is taken to come to an end,
  as the calls it waits for have deadlines. A context deadline shows only as a failing call. Reservation numbers
  are UUIDs in the canonical spelling (\<open>uuid_text\<close>); PostgreSQL also reads others, upper case or in braces, which the model refuses.
  Identifiers drawn by the database are distinct texts, not UUIDs, and a malformed invoice number finds no row, where
  PostgreSQL refuses it. Transactions are atomic steps: row locks and isolation are PostgreSQL's, and the step
  relation of \<^verbatim>\<open>System\<close> interleaves transactions, splitting the fee handlers, which decide on what an earlier
  transaction read.
\<close>

section \<open>Properties of the whole service\<close>

text \<open>A platform and a first state for the examples.\<close>

definition plain_platform :: platform where
  "plain_platform = \<lparr>pf_config = envDefault, pf_tzdb = None, pf_interval = (\<lambda>_. None), pf_hmac = (\<lambda>_ _. []),
     pf_parse = (\<lambda>_. None), pf_marshalInvoice = (\<lambda>_. None), pf_marshalPayment = (\<lambda>_. None)\<rparr>"

definition first_state :: service_state where
  "first_state = (init_world (\<lambda>_. None) (\<lambda>_. None) 7, [])"

lemma first_state_initial: "initial first_state"
  by (auto simp: initial_def first_state_def init_world_def inj_def dest: arg_cong [of _ _ length])

lemma first_state_ok: "service_ok first_state"
  using first_state_initial by (rule initial_ok)

text \<open>A stay in that state: the reservation is booked and checked out without a check-in time.\<close>

definition checked_out_body :: json where
  "checked_out_body = JObj [(''reservation_id'', JStr reservation_1)]"

lemma decode_checked_out_body:
  "decodeCheckedOut checked_out_body = Some \<lparr>ch_ReservationID = reservation_1, ch_ConfirmedAt = 0, ch_CheckedInAt = 0, ch_CheckedOutAt = 0\<rparr>"
  by (simp add: decodeCheckedOut_def checked_out_body_def object_of_def as_string_def)

lemma unparked_lines:
  "CheckedInAt s = 0 \<Longrightarrow> CancelledAt s = None \<Longrightarrow> \<not> NoShow s \<Longrightarrow>
   Apply None (uc_engine (main_uc plain_platform)) s = Inr [\<lparr>Kind = LineBooking, AmountIDR = 5000, Note = ''booking fee''\<rparr>]"
  using no_checkin_lines [of s None DefaultConfig]
  by (simp add: main_uc_def plain_platform_def pricingCfg_default DefaultConfig_def)

lemma plain_sel: "pf_tzdb plain_platform = None" "BookingFeeIDR (uc_cfg (main_uc plain_platform)) = 5000"
  "NoShowFeeIDR (uc_cfg (main_uc plain_platform)) = 5000"
  by (simp_all add: main_uc_def plain_platform_def envDefault_def)

lemma sample_stay:
  "\<exists>iid e. pg_book (perform plain_platform (Delivery EvtReservationCheckedOut (Some checked_out_body))
       (perform plain_platform (Delivery EvtReservationCreated (Some created_body)) (fst first_state))) iid = Some e \<and>
     e_status e = InvoiceClosed \<and> e_total e = 5000"
proof -
  have ok: "service_ok (fst first_state, [])" "quiet (fst first_state)" "pg_book (fst first_state) = Map.empty"
    using first_state_ok by (simp_all add: first_state_def)
  obtain iid w1 where w1: "Handle (main_uc plain_platform) EvtReservationCreated (Some created_body) (fst first_state) = (Inr (), w1)"
    "quiet w1" "service_ok (w1, [])" "pg_book w1 = (pg_book (fst first_state))(iid \<mapsto> new_entry reservation_1 ''d'' reservation_1 5000)"
    using created_quiet [OF ok(1,2), of "Some created_body" "\<lparr>cr_ReservationID = reservation_1, cr_DriverID = ''d''\<rparr>" plain_platform] ok(3)
    unfolding plain_sel by (auto simp: decode_created_body trimmed)
  have b1: "pg_book w1 iid = Some (new_entry reservation_1 ''d'' reservation_1 5000)" using w1(4) by simp
  obtain w2 e where "Handle (main_uc plain_platform) EvtReservationCheckedOut (Some checked_out_body) w1 = (Inr (), w2)"
    "pg_book w2 iid = Some e" "e_status e = InvoiceClosed" "e_total e = 5000"
    using checked_out_quiet [OF w1(3,2) _ b1, of "Some checked_out_body"
        "\<lparr>ch_ReservationID = reservation_1, ch_ConfirmedAt = 0, ch_CheckedInAt = 0, ch_CheckedOutAt = 0\<rparr>" plain_platform]
    unfolding plain_sel by (auto simp: decode_checked_out_body unparked_lines checkout_session_def new_entry_def closed_entry_def charged_def
      dbLines_def toModelLine_def)
  then show ?thesis using w1(1) by auto
qed

abbreviation booked_world :: world where
  "booked_world \<equiv> perform plain_platform (Delivery EvtReservationCreated (Some created_body)) (fst first_state)"

abbreviation left_world :: world where
  "left_world \<equiv> perform plain_platform (Delivery EvtReservationCheckedOut (Some checked_out_body)) booked_world"

lemma stay_steps:
  "(step plain_platform)\<^sup>*\<^sup>* first_state (left_world, [])" "(atomic_step plain_platform)\<^sup>*\<^sup>* (fst first_state) left_world"
  "initial (fst first_state, [])"
proof -
  have 1: "step plain_platform first_state (booked_world, [])" unfolding first_state_def fst_conv by (rule request)
  have 2: "step plain_platform (booked_world, []) (left_world, [])" by (rule request)
  show "(step plain_platform)\<^sup>*\<^sup>* first_state (left_world, [])" using 1 2 by (meson converse_rtranclp_into_rtranclp r_into_rtranclp)
  have "atomic_step plain_platform (fst first_state) booked_world" "atomic_step plain_platform booked_world left_world"
    using 1 2 unfolding atomic_step_def by (simp_all add: first_state_def del: perform.simps)
  then show "(atomic_step plain_platform)\<^sup>*\<^sup>* (fst first_state) left_world" by (meson converse_rtranclp_into_rtranclp r_into_rtranclp)
  show "initial (fst first_state, [])" using first_state_initial by (simp add: first_state_def)
qed

text \<open>
  C4: in every state the service can reach from an empty database, under any sequence of deliveries, calls, web
  requests and ticks of the worker, any interleaving of the fee handlers with them, and any failures of
  database and broker: every stored invoice totals the sum of its charges, has one booking charge and is OPEN
  without or CLOSED with a closing time; a reservation has at most one invoice; an invoice carries at most
  one cancellation and one no-show fee; every event marked as published has been sent, and nothing was sent
  that is not an event of the outbox.
\<close>

theorem service_invariant:
  assumes "initial s" and "(step P)\<^sup>*\<^sup>* s (w, fs)"
  shows "(\<forall>iid e. pg_book w iid = Some e \<longrightarrow> balanced e) \<and>
    (\<forall>i j e f. pg_book w i = Some e \<longrightarrow> pg_book w j = Some f \<longrightarrow> e_reservation e = e_reservation f \<longrightarrow> i = j) \<and>
    (\<forall>iid e k. pg_book w iid = Some e \<longrightarrow> one_off k \<longrightarrow> size (filter_mset (\<lambda>c. fst c = k) (e_charges e)) \<le> 1) \<and>
    delivered w"
proof -
  have ok: "pg_ok w" "tx_sound w" using sys.reachable_inv [OF assms] by (simp_all add: service_ok_def)
  then have "delivered w" using tx_sound_idle [of w] by (simp add: pg_ok_def)
  then show ?thesis using pg.all_balanced [OF ok(1)] pg.one_per_reservation [OF ok(1)] pg_one_off [OF ok(1)] by blast
qed

theorem service_invariant_witness:
  "delivered (perform plain_platform (Delivery EvtReservationCreated (Some created_body)) (fst first_state))"
proof -
  have "step plain_platform first_state
      (perform plain_platform (Delivery EvtReservationCreated (Some created_body)) (fst first_state), [])"
    unfolding first_state_def fst_conv by (rule request)
  from service_invariant [OF first_state_initial r_into_rtranclp, OF this] show ?thesis by blast
qed

text \<open>
  C2: the running service implements the abstract billing machine. The account of a database is its ledger, its payment
  requests, and the messages in its outbox, in order. Whatever number of replicas run, however their requests, fee handlers
  and workers interleave, and whatever fails: from an empty database, and between any two states of a run, the account has
  moved by steps of the machine only: an invoice is opened for a reservation and a key that had none, an OPEN invoice is
  closed with a bill of the pricing engine for a parked car, a fee of the tariff is charged to an invoice that did not have
  it (possibly late), a valid payment request is taken, or one is settled; and each step but the taking of a
  request adds the one message that says so. A request that is served by itself charges no fee late.
\<close>

theorem service_refines_billing:
  assumes "replicas_start s0" and "(replica_step P)\<^sup>*\<^sup>* s0 s" and "(replica_step P)\<^sup>*\<^sup>* s s'"
  shows "(billing_step True (pf_tzdb P) (pricingCfg (pf_config P)))\<^sup>*\<^sup>* (Map.empty, [], []) (account_of (fst (fst s))) \<and>
    (billing_step True (pf_tzdb P) (pricingCfg (pf_config P)))\<^sup>*\<^sup>* (account_of (fst (fst s))) (account_of (fst (fst s'))) \<and>
    (billing_step False (pf_tzdb P) (pricingCfg (pf_config P)))\<^sup>*\<^sup>* (account_of (fst (fst s))) (account_of (perform P q (fst (fst s))))"
proof -
  have ok: "replica_ok s \<and> billing_kept P (fst s)" by (rule replica_bills.reachable_inv [OF assms(1,2)])
  then have "pg_ok (fst (fst s))" by (simp add: billing_kept_def service_ok_def)
  moreover have "account_of (fst (fst s0)) = (Map.empty, [], [])" using assms(1) initial_billing by (simp add: replicas_start_def)
  ultimately show ?thesis
    using replica_bills.steps_R [OF assms(2) replica_bills.init_inv [OF assms(1)]] replica_bills.steps_R [OF assms(3) ok]
      perform_billing [of "fst (fst s)" P q] by (simp del: perform.simps)
qed

lemma serve_steps: "(step P)\<^sup>*\<^sup>* s s' \<Longrightarrow> (replica_step P)\<^sup>*\<^sup>* (s, ws) (s', ws)"
  by (induction rule: rtranclp_induct) (auto intro: serve rtranclp.rtrancl_into_rtrancl)

lemma first_replicas: "replicas_start (first_state, \<lambda>_. Idle)"
  using first_state_initial by (simp add: replicas_start_def)

theorem service_refines_billing_witness:
  "(billing_step True None DefaultConfig)\<^sup>*\<^sup>* (Map.empty, [], []) (account_of left_world) \<and> pg_book left_world \<noteq> Map.empty"
proof -
  have P: "pf_tzdb plain_platform = None" "pricingCfg (pf_config plain_platform) = DefaultConfig"
    by (simp_all add: plain_platform_def pricingCfg_default)
  obtain iid e where "pg_book left_world iid = Some e" using sample_stay by blast
  then have "pg_book left_world \<noteq> Map.empty" by auto
  with service_refines_billing [OF first_replicas serve_steps [OF stay_steps(1)] rtranclp.rtrancl_refl] show ?thesis
    unfolding P fst_conv by blast
qed

text \<open>
  C3: nobody is charged anything but the tariff, and every charge is announced. In every state any number of replicas can
  reach, an OPEN invoice has the booking fee, a CLOSED one a bill of the pricing engine for a parked car; besides that
  it has at most one cancellation fee and one no-show fee, at their configured amounts; its total is the bill's plus
  the fees; it is charged for a night or for hours, never for both and never twice. And the outbox has its opened
  event, the closed event with the lines of the bill, and an event for each fee.
\<close>

theorem invoices_follow_tariff:
  assumes "replicas_start s0" and "(replica_step P)\<^sup>*\<^sup>* s0 ((w, fs), ws)" and "pg_book w iid = Some e"
  shows "(EvtInvoiceOpened, opened_payload (pricingCfg (pf_config P)) (e_reservation e) (e_driver e) (e_key e))
      \<in> message ` set (outbox w) \<and>
    (\<exists>bill fees. e_charges e = bill + fees \<and>
      fees \<subseteq># {#(MLineCancellation, cfg_CancelFeeIDR (pf_config P)), (MLineNoShow, cfg_NoShowFeeIDR (pf_config P))#} \<and>
      e_total e = sum_mset (image_mset snd bill) + sum_mset (image_mset snd fees) \<and>
      (e_status e = InvoiceOpen \<and> bill = {#(MLineBooking, cfg_BookingFeeIDR (pf_config P))#} \<or>
       e_status e = InvoiceClosed \<and> (\<exists>s ls cur. parked s \<and>
         Apply (pf_tzdb P) (NewDefaultEngine (pricingCfg (pf_config P))) s = Inr ls \<and> bill = mset (map line_charge ls) \<and>
         (\<forall>i. cur = Some i \<longrightarrow> inv_DriverID i = e_driver e) \<and>
         (EvtInvoiceClosed, closed_payload iid ls cur []) \<in> message ` set (outbox w))) \<and>
      (\<forall>(k, a) \<in># fees. \<exists>i. inv_ID i = iid \<and>
         (EvtInvoiceClosed, fee_payload i (e_reservation e) k a) \<in> message ` set (outbox w))) \<and>
    size (filter_mset (\<lambda>c. fst c \<in> {MLineOvernight, MLineHourly}) (e_charges e)) \<le> 1"
proof -
  have ok: "pg_ok w" "all_tariffed (pf_tzdb P) (pricingCfg (pf_config P)) (account_of w)"
    using replica_bills.reachable_inv [OF assms(1,2)] by (simp_all add: billing_kept_def service_ok_def)
  have t: "tariffed (pf_tzdb P) (pricingCfg (pf_config P)) iid (map message (outbox w)) e"
    using ok(2) assms(3) by (simp add: account_of_def all_tariffed_def)
  then obtain bill fees where
    o1: "(EvtInvoiceOpened, opened_payload (pricingCfg (pf_config P)) (e_reservation e) (e_driver e) (e_key e)) \<in> message ` set (outbox w)"
    and b: "fees \<subseteq># mset (fee_tariff (pricingCfg (pf_config P)))" "e_charges e = bill + fees"
      "billed (pf_tzdb P) (pricingCfg (pf_config P)) iid (map message (outbox w)) e bill"
    and f: "\<And>c. c \<in># fees \<Longrightarrow> fee_announced iid (map message (outbox w)) e c" by (rule tariffedE) simp
  have "e_total e = sum_mset (image_mset snd bill) + sum_mset (image_mset snd fees)"
    using pg.all_balanced [OF ok(1) assms(3)] b(2) by (simp add: balanced_def)
  moreover have "fees \<subseteq># {#(MLineCancellation, cfg_CancelFeeIDR (pf_config P)), (MLineNoShow, cfg_NoShowFeeIDR (pf_config P))#}"
    using b(1) by (simp add: fee_tariff_def)
  moreover have "\<forall>(k, a) \<in># fees. \<exists>i. inv_ID i = iid \<and>
      (EvtInvoiceClosed, fee_payload i (e_reservation e) k a) \<in> message ` set (outbox w)"
    using f by (auto simp: fee_announced_def)
  moreover note b(3) [unfolded billed_def set_map pricingCfg_sel]
  ultimately show ?thesis using o1 b(2) tariffed_parking_once [OF t]
    by - (rule conjI, assumption, rule conjI, rule exI [of _ bill], rule exI [of _ fees], simp, assumption)
qed

theorem invoices_follow_tariff_witness:
  "\<exists>iid e ls cur. pg_book left_world iid = Some e \<and> e_status e = InvoiceClosed \<and>
     (EvtInvoiceClosed, closed_payload iid ls cur []) \<in> message ` set (outbox left_world)"
proof -
  obtain iid e where e: "pg_book left_world iid = Some e" "e_status e = InvoiceClosed" using sample_stay by blast
  then have "e_status e \<noteq> InvoiceOpen" by simp
  with invoices_follow_tariff [OF first_replicas serve_steps [OF stay_steps(1)] e(1)] e show ?thesis by blast
qed

text \<open>
  C13: whatever interleaves, no invoice is lost, no charge is taken back, reservation and key of an invoice never
  change, a CLOSED invoice never opens again and keeps its closing time, and the only charges it can
  still get are the one-off fees of a cancellation or a no-show.
\<close>

theorem ledger_only_accrues:
  assumes "initial s0" and "(step P)\<^sup>*\<^sup>* s0 s" and "(step P)\<^sup>*\<^sup>* s s'"
    and "pg_book (fst s) iid = Some e"
  shows "\<exists>e' extra. pg_book (fst s') iid = Some e' \<and> e_reservation e' = e_reservation e \<and> e_key e' = e_key e \<and>
    e_charges e' = e_charges e + extra \<and>
    (e_status e \<noteq> InvoiceOpen \<longrightarrow> e_status e' = e_status e \<and> e_closed_at e' = e_closed_at e \<and>
       (\<forall>c \<in># extra. one_off (fst c)))"
  using sys.steps_R [OF assms(3) sys.reachable_inv [OF assms(1,2)]] assms(4) unfolding accrues_def by blast

theorem ledger_only_accrues_witness:
  "\<exists>iid e e'. pg_book left_world iid = Some e \<and> pg_book (perform plain_platform OutboxTick left_world) iid = Some e' \<and>
     e_status e' = InvoiceClosed"
proof -
  obtain iid e where e: "pg_book left_world iid = Some e" "e_status e = InvoiceClosed" using sample_stay by blast
  have "step plain_platform (left_world, []) (perform plain_platform OutboxTick left_world, [])" by (rule request)
  from ledger_only_accrues [OF first_state_initial stay_steps(1) r_into_rtranclp, OF this, unfolded fst_conv, OF e(1)] e
  show ?thesis by auto
qed

text \<open>
  C12: when requests are handled one at a time, a CLOSED invoice is final: no later request, failure or
  redelivery changes its lines, its total or anything else of it.
\<close>

theorem closed_is_final:
  assumes "initial (w0, [])" and "(atomic_step P)\<^sup>*\<^sup>* w0 w" and "(atomic_step P)\<^sup>*\<^sup>* w w'"
    and "pg_book w iid = Some e" and "e_status e = InvoiceClosed"
  shows "pg_book w' iid = Some e"
  using atomic.steps_R [OF assms(3) atomic.reachable_inv [OF assms(1,2)]] assms(4,5)
  unfolding evolves_def by (metis InvoiceStatus.distinct(1))

theorem closed_is_final_witness:
  "\<exists>iid e. pg_book left_world iid = Some e \<and> e_total e = 5000 \<and>
     pg_book (perform plain_platform (Delivery EvtReservationExpired (Some checked_out_body)) left_world) iid = Some e"
proof -
  obtain iid e where e: "pg_book left_world iid = Some e" "e_status e = InvoiceClosed" "e_total e = 5000" using sample_stay by blast
  have "atomic_step plain_platform left_world (perform plain_platform (Delivery EvtReservationExpired (Some checked_out_body)) left_world)"
    unfolding atomic_step_def by (rule request)
  from closed_is_final [OF stay_steps(3,2) r_into_rtranclp, OF this e(1,2)] e(1,3) show ?thesis by blast
qed

text \<open>
  C14: a fee can land on a CLOSED invoice. The handler of an expired reservation reads the OPEN invoice, a
  checkout closes it with the engine's total, and the fee is charged all the same: the CLOSED invoice ends with the
  no-show fee on top of the total its closing reported. This run exists from every sound state with an
  OPEN invoice that carries its booking fee, when the database answers.
\<close>

theorem late_fee_on_closed_invoice:
  assumes "service_ok (w, [])" and "quiet w" and "pg_book w (cl_InvoiceId rq) = Some e" and "e_status e = InvoiceOpen"
    and "e_charges e = {#(MLineBooking, BookingFeeIDR (uc_cfg (main_uc P)))#}"
    and "Apply (pf_tzdb P) (uc_engine (main_uc P)) (close_session (pf_tzdb P) rq) = Inr ls"
    and "int64_ok (sint (total ls) + sint (NoShowFeeIDR (uc_cfg (main_uc P))))"
  shows "\<exists>f w1 w3 e2 e3. step P (w, []) (w1, [f]) \<and> step P (w1, [f]) (perform P (RpcCloseInvoice c rq) w1, [f]) \<and>
    pg_book (perform P (RpcCloseInvoice c rq) w1) (cl_InvoiceId rq) = Some e2 \<and>
    e_status e2 = InvoiceClosed \<and> e_total e2 = total ls \<and>
    step P (perform P (RpcCloseInvoice c rq) w1, [f]) (w3, []) \<and> pg_book w3 (cl_InvoiceId rq) = Some e3 \<and>
    e_status e3 = InvoiceClosed \<and> e_total e3 = total ls + NoShowFeeIDR (uc_cfg (main_uc P))"
proof -
  obtain f w1 w2 w3 e2 where run: "step P (w, []) (w1, [f])" "step P (w1, [f]) (w2, [f])" "step P (w2, [f]) (w3, [])"
    "w2 = perform P (RpcCloseInvoice c rq) w1" "pg_book w2 (cl_InvoiceId rq) = Some e2" "e_status e2 = InvoiceClosed"
    "e_total e2 = total ls"
    "pg_book w3 (cl_InvoiceId rq) = Some (charged [fee_line MLineNoShow (NoShowFeeIDR (uc_cfg (main_uc P))) ''no-show''] e2)"
    using late_fee_run [OF assms, of c] by blast
  let ?e3 = "charged [fee_line MLineNoShow (NoShowFeeIDR (uc_cfg (main_uc P))) ''no-show''] e2"
  have "e_status ?e3 = InvoiceClosed" "e_total ?e3 = total ls + NoShowFeeIDR (uc_cfg (main_uc P))"
    using run(6,7) by (simp_all add: fee_line_def charged_def)
  then show ?thesis using run(1-3,5-8) unfolding run(4)
    by - (rule exI [of _ f], rule exI [of _ w1], rule exI [of _ w3], rule exI [of _ e2], rule exI [of _ ?e3], blast)
qed

definition bare_close :: CloseInvoiceRequest where
  "bare_close = \<lparr>cl_InvoiceId = ''i'', cl_CheckedInAt = None, cl_CheckedOutAt = None\<rparr>"

theorem late_fee_on_closed_invoice_witness:
  "\<exists>f w1 w3 e2 e3. step plain_platform (one_world (\<lambda>_. None) (\<lambda>_. None) 7, []) (w1, [f]) \<and>
     pg_book (perform plain_platform (RpcCloseInvoice (keyed ''k'') bare_close) w1) ''i'' = Some e2 \<and> e_total e2 = 5000 \<and>
     step plain_platform (perform plain_platform (RpcCloseInvoice (keyed ''k'') bare_close) w1, [f]) (w3, []) \<and>
     pg_book w3 ''i'' = Some e3 \<and> e_status e3 = InvoiceClosed \<and> e_total e3 = 10000"
proof -
  let ?w = "one_world (\<lambda>_. None) (\<lambda>_. None) 7" and ?ls = "[\<lparr>Kind = LineBooking, AmountIDR = 5000, Note = ''booking fee''\<rparr>] :: LineItem list"
  have d: "delivered ?w" by (simp add: delivered_def outbox_def one_world_def one_tables_def no_tables_def init_world_def)
  have ok: "service_ok (?w, [])"
    using d one_world_ok one_world_fresh tx_sound_idle [of ?w] by (simp add: service_ok_def pg_ok_def)
  have b: "pg_book ?w (cl_InvoiceId bare_close) = Some (new_entry reservation_1 ''d'' ''k'' 5000)" by (simp add: bare_close_def)
  have a: "Apply (pf_tzdb plain_platform) (uc_engine (main_uc plain_platform)) (close_session (pf_tzdb plain_platform) bare_close) = Inr ?ls"
    unfolding plain_sel by (rule unparked_lines) (simp_all add: close_session_def bare_close_def epoch_is_zero)
  have n: "e_status (new_entry reservation_1 ''d'' ''k'' 5000) = InvoiceOpen"
    "e_charges (new_entry reservation_1 ''d'' ''k'' 5000) = {#(MLineBooking, BookingFeeIDR (uc_cfg (main_uc plain_platform)))#}"
    unfolding plain_sel by (simp_all add: new_entry_def)
  have t: "total ?ls = 5000" "int64_ok (sint (total ?ls) + sint (NoShowFeeIDR (uc_cfg (main_uc plain_platform))))"
    unfolding plain_sel by (simp_all add: total_def int64_ok_def)
  from late_fee_on_closed_invoice [OF ok _ b n a t(2), of "keyed ''k''"] show ?thesis
    unfolding plain_sel t(1) by (simp add: bare_close_def del: perform.simps) blast
qed

text \<open>
  C5: from booking to checkout the driver is billed what the tariff says. Whatever state any number of replicas are in: when the
  database answers, the created event of a reservation that is not known yet (its number a UUID) is handled and opens an
  invoice with the booking fee. And whatever happens then - requests, fees, payments, ticks, failures, crashes, on any
  replica - when the database answers the checked-out event is handled as well, and leaves a CLOSED invoice of the same
  reservation and driver. If the invoice was still OPEN, it had only the booking fee and at most one fee of each kind; its
  charges are now the lines of the pricing engine for the times in the event and those fees, and its total is
  their sum. If it was closed before, it stays as it was.
\<close>

theorem stay_is_billed:
  assumes "replicas_start s0" and "(replica_step P)\<^sup>*\<^sup>* s0 ((w, fs), ws)" and "quiet w"
    and "Option.bind booked decodeCreated = Some ev" and "uuid_text (cr_ReservationID ev)"
    and "\<forall>e \<in> ran (pg_book w). e_reservation e \<noteq> cr_ReservationID ev \<and> e_key e \<noteq> cr_ReservationID ev"
    and "Option.bind left decodeCheckedOut = Some out" and "ch_ReservationID out = cr_ReservationID ev"
    and "Apply (pf_tzdb P) (uc_engine (main_uc P)) (checkout_session out) = Inr ls"
  shows "\<exists>iid w1. Handle (main_uc P) EvtReservationCreated booked w = (Inr (), w1) \<and>
    pg_book w1 iid = Some (new_entry (cr_ReservationID ev) (cr_DriverID ev) (cr_ReservationID ev) (cfg_BookingFeeIDR (pf_config P))) \<and>
    (\<forall>w2 fs2 ws2. (replica_step P)\<^sup>*\<^sup>* ((w1, fs), ws) ((w2, fs2), ws2) \<longrightarrow> quiet w2 \<longrightarrow>
      (\<exists>e2 w3 e. pg_book w2 iid = Some e2 \<and>
         Handle (main_uc P) EvtReservationCheckedOut left w2 = (Inr (), w3) \<and> pg_book w3 iid = Some e \<and>
         e_reservation e = cr_ReservationID ev \<and> e_driver e = cr_DriverID ev \<and> e_status e = InvoiceClosed \<and>
         (e_status e2 \<noteq> InvoiceOpen \<longrightarrow> e = e2) \<and>
         (e_status e2 = InvoiceOpen \<longrightarrow>
            (\<exists>fees. fees \<subseteq># {#(MLineCancellation, cfg_CancelFeeIDR (pf_config P)), (MLineNoShow, cfg_NoShowFeeIDR (pf_config P))#} \<and>
               e_charges e2 = add_mset (MLineBooking, cfg_BookingFeeIDR (pf_config P)) fees \<and>
               e_charges e = mset (map line_charge ls) + fees \<and>
               e_total e = total ls + sum_mset (image_mset snd fees)))))"
proof -
  let ?c = "pricingCfg (pf_config P)"
  let ?new = "new_entry (cr_ReservationID ev) (cr_DriverID ev) (cr_ReservationID ev) (BookingFeeIDR (uc_cfg (main_uc P)))"
  have ok: "service_ok (w, [])" using replicas.reachable_inv [OF assms(1,2)] by (simp add: replica_ok_def service_ok_def)
  obtain iid w1 where w1: "Handle (main_uc P) EvtReservationCreated booked w = (Inr (), w1)" "pg_book w1 = (pg_book w)(iid \<mapsto> ?new)"
    using created_quiet [OF ok assms(3-6), of P] by blast
  have "perform P (Delivery EvtReservationCreated booked) w = w1" using w1(1) by simp
  then have "replica_step P ((w, fs), ws) ((w1, fs), ws)" by (metis request serve)
  with assms(2) have r1: "(replica_step P)\<^sup>*\<^sup>* s0 ((w1, fs), ws)" by (rule rtranclp.rtrancl_into_rtrancl)
  have "\<exists>e2 w3 e. pg_book w2 iid = Some e2 \<and> Handle (main_uc P) EvtReservationCheckedOut left w2 = (Inr (), w3) \<and>
      pg_book w3 iid = Some e \<and> e_reservation e = cr_ReservationID ev \<and> e_driver e = cr_DriverID ev \<and> e_status e = InvoiceClosed \<and>
      (e_status e2 \<noteq> InvoiceOpen \<longrightarrow> e = e2) \<and> (e_status e2 = InvoiceOpen \<longrightarrow> (\<exists>fees. fees \<subseteq># mset (fee_tariff ?c) \<and>
         e_charges e2 = add_mset (MLineBooking, BookingFeeIDR ?c) fees \<and> e_charges e = mset (map line_charge ls) + fees \<and>
         e_total e = total ls + sum_mset (image_mset snd fees)))"
    if r2: "(replica_step P)\<^sup>*\<^sup>* ((w1, fs), ws) ((w2, fs2), ws2)" and q: "quiet w2" for w2 fs2 ws2
  proof -
    have "billing True (pf_config P) (pf_tzdb P) w1 w2"
      using replica_bills.steps_R [OF r2 replica_bills.reachable_inv [OF assms(1) r1]] by simp
    from billing_run_same [OF this, of iid ?new] w1(2)
    obtain e2 where e2: "pg_book w2 iid = Some e2" "e_reservation e2 = cr_ReservationID ev" "e_driver e2 = cr_DriverID ev"
      by (auto simp: new_entry_def)
    have "replica_ok ((w2, fs2), ws2) \<and> billing_kept P (w2, fs2)"
      using replica_bills.reachable_inv [OF assms(1) rtranclp_trans [OF r1 r2]] by simp
    then have k: "service_ok (w2, [])" "all_tariffed (pf_tzdb P) ?c (account_of w2)"
      by (simp_all add: billing_kept_def service_ok_def)
    obtain w3 e where w3: "Handle (main_uc P) EvtReservationCheckedOut left w2 = (Inr (), w3)" "service_ok (w3, [])" "pg_book w3 iid = Some e"
      "e_status e2 \<noteq> InvoiceOpen \<longrightarrow> e = e2" "e_status e2 = InvoiceOpen \<longrightarrow> e = closed_entry (w_now w2) (dbLines ls) e2"
      using checked_out_quiet [OF k(1) q assms(7) e2(1) _ assms(9)] e2(2) assms(8) by auto
    have b: "balanced e2" "balanced e" using pg.all_balanced k(1) w3(2,3) e2(1) by (auto simp: service_ok_def)
    then have same: "e_reservation e = cr_ReservationID ev" "e_driver e = cr_DriverID ev" "e_status e = InvoiceClosed"
      using e2 w3(4,5) by (cases "e_status e2 = InvoiceOpen"; auto simp: balanced_def)+
    have "\<exists>fees. fees \<subseteq># mset (fee_tariff ?c) \<and> e_charges e2 = add_mset (MLineBooking, BookingFeeIDR ?c) fees \<and>
        e_charges e = mset (map line_charge ls) + fees \<and> e_total e = total ls + sum_mset (image_mset snd fees)"
      if o1: "e_status e2 = InvoiceOpen"
    proof -
      have "tariffed (pf_tzdb P) ?c iid (map message (outbox w2)) e2" using k(2) e2(1) by (simp add: account_of_def all_tariffed_def)
      then obtain fees where f: "fees \<subseteq># mset (fee_tariff ?c)" "e_charges e2 = {#(MLineBooking, BookingFeeIDR ?c)#} + fees"
        using o1 by (auto elim!: tariffedE simp: billed_def)
      have A: "Apply (pf_tzdb P) (NewDefaultEngine ?c) (checkout_session out) = Inr ls" using assms(9) by (simp add: main_uc_def)
      have ch: "e_charges e = mset (map line_charge ls) + fees"
        using closing_keeps_fees [OF A _ f(2)] w3(5) o1 by (simp add: checkout_session_def)
      have "sum_mset (image_mset snd (mset (map line_charge ls))) = total ls"
        unfolding mset_map [symmetric] sum_mset_sum_list by (simp add: total_def line_charge_def comp_def)
      then have "e_total e = total ls + sum_mset (image_mset snd fees)"
        using b(2) unfolding balanced_def ch image_mset_union sum_mset.union by simp
      with f ch show ?thesis by (intro exI [of _ fees]) simp
    qed
    with e2(1) w3(1,3,4) same show ?thesis by blast
  qed
  then show ?thesis using w1 by (intro exI [of _ iid] exI [of _ w1]) (simp add: main_uc_def fee_tariff_def)
qed

text \<open>A stay of two and a half hours in Jakarta; the outbox is sent before the car leaves.\<close>

definition jakarta_platform :: platform where
  "jakarta_platform = plain_platform\<lparr>pf_tzdb := Some \<lparr>zone0 = 27000, trans = [(-189415800, 25200)]\<rparr>\<rparr>"

definition parked_body :: json where
  "parked_body = JObj [(''reservation_id'', JStr reservation_1), (''confirmed_at'', JStr (print_utc 2026 5 4 3 0 0)),
     (''checked_in_at'', JStr (print_utc 2026 5 4 3 0 0)), (''checked_out_at'', JStr (print_utc 2026 5 4 5 30 0))]"

definition parked_event :: checkedOutEvt where
  "parked_event = \<lparr>ch_ReservationID = reservation_1, ch_ConfirmedAt = 63913460400000000000, ch_CheckedInAt = 63913460400000000000,
     ch_CheckedOutAt = 63913469400000000000\<rparr>"

lemma decode_parked_body: "decodeCheckedOut parked_body = Some parked_event"
  by (simp add: decodeCheckedOut_def parked_body_def parked_event_def object_of_def as_string_def as_time_def parse_print daysIn_def days_before_def
      isLeap_def Date_def Let_def zone_lookup_def FixedZone_def days_of_date_def year_start_def)

lemma parked_lines:
  "\<exists>ls. Apply (pf_tzdb jakarta_platform) (uc_engine (main_uc jakarta_platform)) (checkout_session parked_event) = Inr ls \<and>
     total ls = 20000"
proof -
  let ?tz = "\<lparr>zone0 = 27000, trans = [(-189415800, 25200)]\<rparr> :: Location"
  have "settled ?tz 25200 (-189415800)" by (simp add: settled_def zone_lookup_def)
  then have "Apply (Some ?tz) (NewDefaultEngine DefaultConfig) (checkout_session parked_event) =
      Inr (expected_lines DefaultConfig 25200 (checkout_session parked_event))"
    by (intro Apply_table [where tz = ?tz]) (use next_midnight_settled [of ?tz 25200 "-189415800"] in
        \<open>simp_all add: checkout_session_def parked_event_def Unix_def\<close>)
  moreover have "total (expected_lines DefaultConfig 25200 (checkout_session parked_event)) = 20000"
    by (simp add: expected_lines_def parking_lines_def checkout_session_def parked_event_def DefaultConfig_def IsZero_def local_day_FixedZone
        whole_hours_def total_def)
  ultimately show ?thesis by (simp add: main_uc_def jakarta_platform_def plain_platform_def pricingCfg_default)
qed

theorem stay_is_billed_witness:
  "\<exists>w1 w3 iid e. Handle (main_uc jakarta_platform) EvtReservationCreated (Some created_body) (fst first_state) = (Inr (), w1) \<and>
     Handle (main_uc jakarta_platform) EvtReservationCheckedOut (Some parked_body)
       ((perform jakarta_platform OutboxTick w1)\<lparr>w_faults := \<lambda>_. None\<rparr>) = (Inr (), w3) \<and>
     pg_book w3 iid = Some e \<and> e_status e = InvoiceClosed \<and> e_total e = 5000 + 3 * 5000"
proof -
  let ?P = jakarta_platform and ?ev = "\<lparr>cr_ReservationID = reservation_1, cr_DriverID = ''d''\<rparr> :: createdEvt" and ?i = "\<lambda>_ :: nat. Idle"
  obtain ls where ls: "Apply (pf_tzdb ?P) (uc_engine (main_uc ?P)) (checkout_session parked_event) = Inr ls" "total ls = 20000"
    using parked_lines by blast
  have r: "(replica_step ?P)\<^sup>*\<^sup>* (first_state, ?i) ((fst first_state, []), ?i)" by (simp add: first_state_def)
  have q: "quiet (fst first_state)" "pg_book (fst first_state) = Map.empty" by (simp_all add: first_state_def)
  have b: "Option.bind (Some created_body) decodeCreated = Some ?ev" "uuid_text (cr_ReservationID ?ev)"
    "Option.bind (Some parked_body) decodeCheckedOut = Some parked_event" "ch_ReservationID parked_event = cr_ReservationID ?ev"
    by (simp_all add: decode_created_body decode_parked_body parked_event_def)
  have n: "\<forall>e \<in> ran (pg_book (fst first_state)). e_reservation e \<noteq> cr_ReservationID ?ev \<and> e_key e \<noteq> cr_ReservationID ?ev"
    by (simp add: q(2))
  have fee: "cfg_BookingFeeIDR (pf_config ?P) = 5000" by (simp add: jakarta_platform_def plain_platform_def envDefault_def)
  from stay_is_billed [OF first_replicas r q(1) b(1,2) n b(3,4) ls(1), unfolded fee createdEvt.simps]
  obtain iid w1 where w1: "Handle (main_uc ?P) EvtReservationCreated (Some created_body) (fst first_state) = (Inr (), w1)"
    "pg_book w1 iid = Some (new_entry reservation_1 ''d'' reservation_1 5000)"
    and go: "\<forall>w2 fs2 ws2. (replica_step ?P)\<^sup>*\<^sup>* ((w1, []), ?i) ((w2, fs2), ws2) \<longrightarrow> quiet w2 \<longrightarrow>
      (\<exists>e2 w3 e. pg_book w2 iid = Some e2 \<and> Handle (main_uc ?P) EvtReservationCheckedOut (Some parked_body) w2 = (Inr (), w3) \<and>
         pg_book w3 iid = Some e \<and> e_status e = InvoiceClosed \<and> (e_status e2 = InvoiceOpen \<longrightarrow>
           (\<exists>fees. e_charges e2 = add_mset (MLineBooking, 5000) fees \<and> e_total e = total ls + sum_mset (image_mset snd fees))))"
    by (elim exE conjE) blast
  let ?w = "perform ?P OutboxTick w1" and ?w2 = "(perform ?P OutboxTick w1)\<lparr>w_faults := \<lambda>_. None\<rparr>"
  have "replica_step ?P ((w1, []), ?i) ((?w, []), ?i)" by (rule serve) (rule request)
  moreover have "step ?P (?w, []) (?w\<lparr>w_now := w_now ?w, w_faults := \<lambda>_. None, w_pub_faults := w_pub_faults ?w\<rparr>, [])"
    by (rule environment) (rule order_refl)
  then have "replica_step ?P ((?w, []), ?i) ((?w2, []), ?i)" by (intro serve) (simp del: perform.simps)
  ultimately have s: "(replica_step ?P)\<^sup>*\<^sup>* ((w1, []), ?i) ((?w2, []), ?i)"
    by (meson converse_rtranclp_into_rtranclp r_into_rtranclp)
  have "pg_book ?w2 = pg_book w1"
    using tick_tables [of NewOutboxPublisher w1] by (auto simp: pg_book_def mark_outbox_def intro!: view_cong)
  moreover have "quiet ?w2" by (simp add: quiet_def)
  ultimately show ?thesis using go [rule_format, OF s] w1 ls(2) by (auto simp: new_entry_def simp del: perform.simps)
qed

text \<open>
  C15: events reach the broker. In any reachable state, when database and broker answer, enough ticks of the
  worker (the backlog divided by 200, rounded up) leave every message of the outbox among those sent: the opened event of
  every invoice, the closed event of every CLOSED one, and all that other services are to be told of bills, fees and
  settlements.
\<close>

theorem invoice_events_are_sent:
  assumes "initial s" and "(step P)\<^sup>*\<^sup>* s (w, fs)" and "quiet w" and "w_pub_faults w = (\<lambda>_. None)"
    and "length (unpublished (w_tables w)) \<le> n * 200"
  shows "\<exists>w'. Run NewOutboxPublisher n w = (Inr (), w') \<and> message ` set (outbox w) \<subseteq> set (w_sent w') \<and>
    (\<forall>iid e. pg_book w iid = Some e \<longrightarrow>
       (\<exists>o1 \<in> set (outbox w). ob_aggregate_id o1 = iid \<and> ob_event_type o1 = EvtInvoiceOpened \<and> message o1 \<in> set (w_sent w')) \<and>
       (e_status e = InvoiceClosed \<longrightarrow>
          (\<exists>o1 \<in> set (outbox w). ob_aggregate_id o1 = iid \<and> ob_event_type o1 = EvtInvoiceClosed \<and> message o1 \<in> set (w_sent w'))))"
proof -
  have ok: "pg_ok w" "delivered w"
    using sys.reachable_inv [OF assms(1,2)] tx_sound_idle [of w] by (auto simp: service_ok_def pg_ok_def)
  obtain w' where w': "Run NewOutboxPublisher n w = (Inr (), w')"
    "w_sent w' = w_sent w @ map message (unpublished (w_tables w))"
    using Run_drains_aux [OF ok(1) assms(3,4), of n NewOutboxPublisher] assms(5) by (auto simp: NewOutboxPublisher_def)
  have sent: "message o1 \<in> set (w_sent w')" if "o1 \<in> set (outbox w)" for o1
    using that ok w'(2) unpublished_sorted [of w] by (cases "ob_published_at o1") (auto simp: delivered_def pg_ok_def)
  have row: "\<exists>o1 \<in> set (outbox w). ob_aggregate_id o1 = iid \<and> ob_event_type o1 = n"
    if "events_of (w_tables w) iid n \<noteq> []" for iid n
    using that by (auto simp: events_of_def outbox_def filter_empty_conv)
  have "events_of (w_tables w) iid EvtInvoiceOpened \<noteq> []" "e_status e = InvoiceClosed \<longrightarrow> events_of (w_tables w) iid EvtInvoiceClosed \<noteq> []"
    if "pg_book w iid = Some e" for iid e
    using that ok(1) by (auto simp: pg_book_def view_Some pg_ok_def books_ok_def events_ok_def dest!: find_Some_mem bspec)
  then show ?thesis using w'(1) row sent by - (rule exI [of _ w'], intro conjI, assumption, blast, blast)
qed

theorem invoice_events_are_sent_witness:
  "\<exists>w' p. Run NewOutboxPublisher (length (unpublished (w_tables left_world)))
       (left_world\<lparr>w_now := w_now left_world, w_faults := \<lambda>_. None, w_pub_faults := \<lambda>_. None\<rparr>) = (Inr (), w') \<and>
     (EvtInvoiceClosed, p) \<in> set (w_sent w')"
proof -
  let ?w = "left_world\<lparr>w_now := w_now left_world, w_faults := \<lambda>_. None, w_pub_faults := \<lambda>_. None\<rparr>"
  obtain iid e where e: "pg_book left_world iid = Some e" "e_status e = InvoiceClosed" using sample_stay by blast
  have "step plain_platform (left_world, []) (?w, [])" by (rule environment) (rule order_refl)
  with stay_steps(1) have r: "(step plain_platform)\<^sup>*\<^sup>* first_state (?w, [])" by (rule rtranclp.rtrancl_into_rtrancl)
  have q: "quiet ?w" "w_pub_faults ?w = (\<lambda>_. None)" "pg_book ?w iid = Some e"
    "length (unpublished (w_tables ?w)) \<le> length (unpublished (w_tables left_world)) * 200"
    using e(1) by (simp_all add: quiet_def pg_book_def del: perform.simps)
  from invoice_events_are_sent [OF first_state_initial r q(1,2,4)] q(3) e(2)
  obtain w' o1 where "Run NewOutboxPublisher (length (unpublished (w_tables left_world))) ?w = (Inr (), w')"
    "ob_event_type o1 = EvtInvoiceClosed" "message o1 \<in> set (w_sent w')" by blast
  then show ?thesis by (auto simp: message_def simp del: perform.simps)
qed

text \<open>
  C16: what is stored is well typed, in every state the service can reach. An invoice is OPEN or CLOSED and its charges
  are of the five kinds of the protocol, so no message carries an unspecified status or kind; a payment request is
  for a positive amount, by QRIS or card, pending or settled, and belongs to a stored invoice of its reservation.
\<close>

theorem stored_data_well_typed:
  assumes "initial s" and "(step P)\<^sup>*\<^sup>* s (w, fs)"
  shows "(\<forall>iid e. pg_book w iid = Some e \<longrightarrow> statusToProto (e_status e) \<in> {P_OPEN, P_CLOSED} \<and>
      (\<forall>c \<in># e_charges e. lineKindToProto (fst c) \<noteq> LINE_KIND_UNSPECIFIED)) \<and>
    (\<forall>q \<in> set (pg_pays w). 0 < sint (pr_AmountIDR q) \<and> pr_Method q \<in> {PaymentMethodQRIS, PaymentMethodCC} \<and>
       pr_Status q \<in> {PaymentRequestPending, PaymentRequestSuccess, PaymentRequestFailed} \<and>
       (\<exists>e. pg_book w (pr_InvoiceID q) = Some e \<and> e_reservation e = pr_ReservationID q))"
proof -
  have ok: "pg_ok w" "well_typed (w_tables w)"
    using sys.reachable_inv [OF assms] paying.reachable_inv [OF assms]
    by (simp_all add: service_ok_def at_rest_def tx_holds_def)
  have k: "keys_ok (w_tables w)" using ok(1) by (simp add: pg_ok_def books_ok_def)
  have kind: "lineKindToProto (fst c) \<noteq> LINE_KIND_UNSPECIFIED" if "pg_book w iid = Some e" "c \<in># e_charges e" for iid e c
  proof -
    have "fst c \<in> ln_kind ` set (lines_of (w_tables w) iid)" using stored_kinds [OF that(1)] that(2) by auto
    then have "\<forall>s. fst c \<noteq> MLineKindOther s" using ok(2) by (auto simp: well_typed_def lines_of_def) metis
    then show ?thesis by (cases "fst c") auto
  qed
  have status: "statusToProto (e_status e) \<in> {P_OPEN, P_CLOSED}" if "pg_book w iid = Some e" for iid e
    using pg.all_balanced [OF ok(1) that] by (auto simp: balanced_def)
  have home: "\<exists>e. pg_book w i = Some e \<and> e_reservation e = res" if "(i, res) \<in> homes (w_tables w)" for i res
    using that view_row [OF k] by (auto simp: homes_def pg_book_def entry_of_def)
  have "0 < sint (pr_AmountIDR q) \<and> pr_Method q \<in> {PaymentMethodQRIS, PaymentMethodCC} \<and>
       pr_Status q \<in> {PaymentRequestPending, PaymentRequestSuccess, PaymentRequestFailed} \<and>
       (\<exists>e. pg_book w (pr_InvoiceID q) = Some e \<and> e_reservation e = pr_ReservationID q)" if q: "q \<in> set (pg_pays w)" for q
  proof -
    obtain r where r: "r \<in> set (t_payment_requests (w_tables w))" "q = paymentRequestRow_toModel r"
      using q by (auto simp: pg_pays_def)
    then have c: "conforms (w_tables w) r" using ok(2) by (simp add: well_typed_def)
    then show ?thesis using r(2) home by (simp add: conforms_def paymentRequestRow_toModel_def)
  qed
  then show ?thesis using kind status by blast
qed

theorem stored_data_well_typed_witness:
  "\<exists>iid e. pg_book left_world iid = Some e \<and> statusToProto (e_status e) \<in> {P_OPEN, P_CLOSED}"
proof -
  obtain iid e where e: "pg_book left_world iid = Some e" using sample_stay by blast
  with stored_data_well_typed [OF first_state_initial stay_steps(1)] show ?thesis by blast
qed

text \<open>
  C18: whatever number of replicas run, however their workers, servers and consumers interleave, whatever calls fail,
  and wherever replicas die in the middle of a tick: every event marked as published has been sent, nothing was sent
  that is not an event of the outbox, what a worker still has to send are events of the outbox, the books
  balance, and no invoice is lost.
\<close>

theorem replicas_deliver:
  assumes "replicas_start s0" and "(replica_step P)\<^sup>*\<^sup>* s0 ((w, fs), ws)"
  shows "delivered w \<and> (\<forall>iid e. pg_book w iid = Some e \<longrightarrow> balanced e) \<and>
    (\<forall>iid. pg_book (fst (fst s0)) iid \<noteq> None \<longrightarrow> pg_book w iid \<noteq> None) \<and>
    (\<forall>k rs published. ws k = Sending rs published \<longrightarrow>
       (\<lambda>r. (or_EventType r, or_Payload r)) ` set rs \<subseteq> message ` set (outbox w))"
proof -
  have ok: "replica_ok ((w, fs), ws)" by (rule replicas.reachable_inv [OF assms])
  then have w: "pg_ok w" "tx_sound w" by (simp_all add: replica_ok_def service_ok_def)
  then have "delivered w" using tx_sound_idle [of w] by (simp add: pg_ok_def)
  moreover have "(\<lambda>r. (or_EventType r, or_Payload r)) ` set rs \<subseteq> message ` set (outbox w)" if "ws k = Sending rs published" for k rs published
  proof -
    have "holds w (Sending rs published)" using ok that by (metis fst_conv replica_ok_def snd_conv)
    then show ?thesis by (force simp: event_rows_def)
  qed
  moreover have "pg_book w iid \<noteq> None" if "pg_book (fst (fst s0)) iid \<noteq> None" for iid
    using replicas.steps_R [OF assms(2) replicas.init_inv [OF assms(1)]] that unfolding accrues_def by fastforce
  ultimately show ?thesis using pg.all_balanced [OF w(1)] by blast
qed

theorem replicas_deliver_witness:
  "delivered (snd (worker_step NewOutboxPublisher Idle booked_world))"
proof -
  let ?i = "\<lambda>_ :: nat. Idle"
  obtain a w' where aw: "worker_step NewOutboxPublisher Idle booked_world = (a, w')"
    by (cases "worker_step NewOutboxPublisher Idle booked_world")
  have i: "replicas_start (first_state, ?i)" using first_state_initial by (simp add: replicas_start_def)
  have "step plain_platform first_state (booked_world, [])" unfolding first_state_def fst_conv by (rule request)
  then have 1: "replica_step plain_platform (first_state, ?i) ((booked_world, []), ?i)" by (rule serve)
  have 2: "replica_step plain_platform ((booked_world, []), ?i) ((w', []), ?i(3 := a))"
    by (rule work) (use aw in \<open>simp del: worker_step.simps perform.simps\<close>)
  have "(replica_step plain_platform)\<^sup>*\<^sup>* (first_state, ?i) ((w', []), ?i(3 := a))"
    using 1 2 by (meson converse_rtranclp_into_rtranclp r_into_rtranclp)
  from replicas_deliver [OF i this] show ?thesis unfolding aw by simp
qed

text \<open>
  C17: no settlement goes unannounced. In every state the service can reach, a payment request that is SUCCESS or FAILED has
  its event in the outbox: of the type of its status, for the invoice of the first request with its reference, with
  the payment's data and this status in the payload; and once the event is marked as published, the broker has it.
\<close>

theorem settled_payments_reported:
  assumes "initial s" and "(step P)\<^sup>*\<^sup>* s (w, fs)"
    and "q \<in> set (pg_pays w)" and "settlement_event (pr_Status q) = Some ev"
  shows "\<exists>o1 \<in> set (outbox w). \<exists>q0 \<in> set (pg_pays w). pr_PaymentRef q0 = pr_PaymentRef q \<and>
    ob_event_type o1 = ev \<and> ob_aggregate_id o1 = pr_InvoiceID q0 \<and> ob_payload o1 = payment_payload q0 (pr_Status q) \<and>
    (ob_published_at o1 \<noteq> None \<longrightarrow> message o1 \<in> set (w_sent w))"
proof -
  have "service_ok (w, fs)" by (rule sys.reachable_inv [OF assms(1,2)])
  then have d: "delivered w" using tx_sound_idle [of w] by (simp add: service_ok_def pg_ok_def)
  have "all_reported (pg_pays w) (outbox w)" using settling.reachable_inv [OF assms(1,2)] by (simp add: settled_ok_pays)
  then obtain o1 where "o1 \<in> set (outbox w)" "reports (pg_pays w) q o1" using assms(3,4) by (auto simp: all_reported_def)
  then show ?thesis using assms(4) d by (auto simp: reports_def delivered_def)
qed

text \<open>A reservation is booked, a payment for it is requested, and a notification settles it.\<close>

definition settled_note :: "string \<Rightarrow> json" where
  "settled_note ref = JObj [(''order_id'', JStr ref), (''transaction_status'', JStr ''settlement'')]"

definition pay_request :: CreatePaymentReq where
  "pay_request = \<lparr>cp_ReservationId = reservation_1, cp_DriverId = ''d'', cp_AmountIdr = 5000, cp_Method = ''QRIS'', cp_CcToken = []\<rparr>"

definition open_world :: world where
  "open_world = (fst first_state)\<lparr>w_pr_schema := (w_pr_schema (fst first_state))\<lparr>ps_conflict := \<lambda>_ _. False\<rparr>\<rparr>"

lemma open_world_sel: "initial (open_world, [])" "quiet open_world" "pg_book open_world = Map.empty"
  using first_state_initial
  by (auto simp: initial_def open_world_def first_state_def quiet_def init_world_def pg_book_def view_def no_tables_def)

lemma sample_requested:
  "\<exists>w q. (\<forall>P. main_uc P = main_uc plain_platform \<longrightarrow> (step P)\<^sup>*\<^sup>* (open_world, []) (w, [])) \<and> pg_ok w \<and> quiet w \<and>
     q \<in> set (pg_pays w) \<and> pr_PaymentRef q \<noteq> []"
proof -
  obtain iid w1 where w1: "Handle (main_uc plain_platform) EvtReservationCreated (Some created_body) open_world = (Inr (), w1)" "quiet w1"
    "service_ok (w1, [])" "pg_book w1 = [iid \<mapsto> new_entry reservation_1 ''d'' reservation_1 5000]" "w_pr_schema w1 = w_pr_schema open_world"
    using created_quiet [OF initial_ok [OF open_world_sel(1)] open_world_sel(2), of "Some created_body"
        "\<lparr>cr_ReservationID = reservation_1, cr_DriverID = ''d''\<rparr>" plain_platform] open_world_sel(3)
    unfolding plain_sel by (auto simp: decode_created_body trimmed)
  let ?in = "\<lparr>ci_ReservationID = reservation_1, ci_DriverID = ''d'', ci_AmountIDR = 5000, ci_Method = ''QRIS'', ci_CCToken = []\<rparr> :: CreatePaymentRequestInput"
  have i: "payment_input_error ?in = None" by (simp add: payment_input_error_def payment_method_def Let_def trimmed)
  obtain x w2 where w2: "CreatePaymentRequest (main_uc plain_platform) ?in w1 = (Inr x, w2)" "pg_ok w2" "quiet w2"
    using CreatePaymentRequest_quiet [of w1 iid "new_entry reservation_1 ''d'' reservation_1 5000" ?in "pf_config plain_platform" "pf_tzdb plain_platform"] w1 i
    unfolding main_uc_def by (auto simp: service_ok_def new_entry_def open_world_def)
  obtain q where q: "pg_pays w2 = pg_pays w1 @ [q]" "pr_PaymentRef q = ''PAY-'' @ pr_ID q"
    using svcp.CreatePaymentRequest_spec [OF _ w2(1) [unfolded main_uc_def]] w1(3) by (auto simp: service_ok_def)
  have "(step P)\<^sup>*\<^sup>* (open_world, []) (w2, [])" if uc: "main_uc P = main_uc plain_platform" for P
  proof -
    have "perform P (Delivery EvtReservationCreated (Some created_body)) open_world = w1" using w1(1) uc by simp
    then have 1: "step P (open_world, []) (w1, [])" by (metis request)
    have "perform P (RpcCreatePaymentRequest (keyed ''k'') pay_request) w1 = w2"
      using w2(1) uc by (simp add: served_unguarded MethodCreatePaymentRequest_def ScopeOpenInvoice_def Server_CreatePaymentRequest_def
          pay_request_def andThen_def)
    then have "step P (w1, []) (w2, [])" by (metis request)
    with 1 show ?thesis by (meson converse_rtranclp_into_rtranclp r_into_rtranclp)
  qed
  then show ?thesis using w2(2,3) q by (intro exI [of _ w2] exI [of _ q]) simp
qed

lemma sample_payment:
  "\<exists>P w q. (step P)\<^sup>*\<^sup>* (open_world, []) (w, []) \<and> q \<in> set (pg_pays w) \<and> pr_Status q = PaymentRequestSuccess"
proof -
  obtain w q where w: "\<forall>P. main_uc P = main_uc plain_platform \<longrightarrow> (step P)\<^sup>*\<^sup>* (open_world, []) (w, [])" "pg_ok w" "quiet w"
    "q \<in> set (pg_pays w)" "pr_PaymentRef q \<noteq> []" using sample_requested by blast
  let ?v = "settled_note (pr_PaymentRef q)" and ?P = "plain_platform\<lparr>pf_parse := \<lambda>_. Some (settled_note (pr_PaymentRef q))\<rparr>"
  have uc: "main_uc ?P = main_uc plain_platform" by (simp add: main_uc_def)
  have n: "decodeNotification ?v = Some \<lparr>pn_OrderID = pr_PaymentRef q, pn_TransactionStatus = ''settlement'', pn_FraudStatus = [],
      pn_GrossAmount = [], pn_SignatureKey = []\<rparr>"
    by (simp add: decodeNotification_def settled_note_def object_of_def as_string_def)
  obtain pr where pr: "find (\<lambda>p. pr_PaymentRef p = pr_PaymentRef q) (pg_pays w) = Some pr"
    using w(4) by (cases "find (\<lambda>p. pr_PaymentRef p = pr_PaymentRef q) (pg_pays w)") (auto simp: find_None_iff)
  let ?settled = "settle (pr_PaymentRef q) PaymentRequestSuccess (w_now w)"
  obtain w3 where w3: "HandlePaymentNotification (main_uc ?P) (Some ?v) w = (Inr (), w3)" "pg_pays w3 = map ?settled (pg_pays w)"
    using notification_quiet [OF w(2,3) n, of PaymentRequestSuccess EvtPaymentSuccess pr "pf_config ?P" "pf_tzdb ?P"] pr w(5)
    unfolding main_uc_def by (auto simp: new_status_def)
  have "perform ?P (Web post_request) w = w3"
    using w3(1)
    by (simp add: serveHTTP_def grpcHTTPMux_def muxRoute_def post_request_def get_request_def WebhookHandle_def readBody_def
        signature_rejected_def settled_note_def object_of_def string_at_def map_lookup_def invoicesPath_def invoicesPrefix_def
        attempt_def respond_def httpError_def)
  then have "step ?P (w, []) (w3, [])" by (metis request)
  with w(1) uc have "(step ?P)\<^sup>*\<^sup>* (open_world, []) (w3, [])" by (meson rtranclp.rtrancl_into_rtrancl)
  moreover have "?settled q \<in> set (pg_pays w3)" "pr_Status (?settled q) = PaymentRequestSuccess" using w(4) by (simp_all add: w3(2))
  ultimately show ?thesis by blast
qed

theorem settled_payments_reported_witness:
  "\<exists>w o1. o1 \<in> set (outbox w) \<and> pg_pays w \<noteq> [] \<and> ob_event_type o1 = EvtPaymentSuccess"
proof -
  obtain P w q where r: "(step P)\<^sup>*\<^sup>* (open_world, []) (w, [])" "q \<in> set (pg_pays w)" "pr_Status q = PaymentRequestSuccess"
    using sample_payment by blast
  have "settlement_event (pr_Status q) = Some EvtPaymentSuccess" by (simp add: r(3) settlement_event_def)
  from settled_payments_reported [OF open_world_sel(1) r(1,2) this] r(2) show ?thesis by (metis empty_iff empty_set)
qed

end
